(* ===== verification/Prelude.thy ===== *)
theory Prelude
  imports Main
begin

text \<open>
  Shared vocabulary of the Tomidoro development.  Times are JavaScript numbers read
  from \<open>Date.now()\<close> (milliseconds, integral) and are modelled as \<open>int\<close>; second
  counts (\<open>timeLeft\<close>, \<open>customTime\<close>) are integral JavaScript numbers, also \<open>int\<close>.
  The JavaScript operators whose meaning differs from HOL's are written out here:
  \<open>Math.ceil(a / b)\<close> for integral \<open>a\<close> and positive integral \<open>b\<close>, the remainder
  operator \<open>%\<close> (sign of the dividend), and the truthiness of a nullable number.
  The collection \<open>handler_defs\<close> gathers the definitions of the event handlers of
  all components, so that functional lemmas are proved by \<open>simp add: handler_defs\<close>.
\<close>

named_theorems handler_defs "definitions of the event handlers, unfolded by the functional lemmas"

type_synonym ms = int
type_synonym secs = int

text \<open>What the browser supplies with an event: the clock (\<open>Date.now()\<close>), whether the
  document is hidden, and whether notification permission was granted.\<close>

record env =
  now :: ms
  hidden :: bool
  granted :: bool

subsection \<open>JavaScript arithmetic on integral numbers\<close>

text \<open>
  \<open>Math.ceil(a / b)\<close>: for integral \<open>a\<close> and \<open>b > 0\<close> the floating-point quotient
  never crosses an integer (the exact quotient is either an integer, represented
  exactly, or at least \<open>1/b\<close> away from one), so the result is the integer ceiling.
\<close>

definition js_ceil_div :: "int \<Rightarrow> int \<Rightarrow> int" where
  "js_ceil_div a b = - ((- a) div b)"

text \<open>\<open>a % b\<close>: the result has the sign of the dividend (truncating division).\<close>

definition js_rem :: "int \<Rightarrow> int \<Rightarrow> int" where
  "js_rem a b = sgn a * (\<bar>a\<bar> mod \<bar>b\<bar>)"

text \<open>Truthiness of a reference holding \<open>null\<close> or a number: \<open>null\<close> and \<open>0\<close> are falsy.\<close>

definition js_truthy :: "int option \<Rightarrow> bool" where
  "js_truthy r = (case r of None \<Rightarrow> False | Some v \<Rightarrow> v \<noteq> 0)"

text \<open>\<open>null - n\<close>: \<open>null\<close> is coerced to \<open>0\<close> by arithmetic.\<close>

definition js_num :: "int option \<Rightarrow> int" where
  "js_num r = (case r of None \<Rightarrow> 0 | Some v \<Rightarrow> v)"

lemma js_truthy_simps [simp]:
  "js_truthy None = False"
  "js_truthy (Some v) = (v \<noteq> 0)"
  by (simp_all add: js_truthy_def)

lemma js_num_simps [simp]:
  "js_num None = 0"
  "js_num (Some v) = v"
  by (simp_all add: js_num_def)

lemma js_rem_nonneg [simp]: "0 \<le> a \<Longrightarrow> 0 < b \<Longrightarrow> js_rem a b = a mod b"
  by (cases "a = 0") (simp_all add: js_rem_def)

subsection \<open>The ceiling division\<close>

lemma js_ceil_div_eq: "0 < b \<Longrightarrow> b * js_ceil_div a b = a + (- a) mod b"
proof -
  have "b * ((- a) div b) = - a - (- a) mod b"
    using div_mult_mod_eq [of "- a" b] by (simp add: algebra_simps)
  then show ?thesis by (simp add: js_ceil_div_def)
qed

lemma js_ceil_div_lower: "0 < b \<Longrightarrow> a \<le> b * js_ceil_div a b"
  by (simp add: js_ceil_div_eq)

lemma js_ceil_div_upper: "0 < b \<Longrightarrow> b * js_ceil_div a b < a + b"
  by (simp add: js_ceil_div_eq)

lemma js_ceil_div_add_mult [simp]:
  "0 < b \<Longrightarrow> js_ceil_div (a + b * k) b = js_ceil_div a b + k"
proof -
  assume "0 < b"
  have "(- (a + b * k)) div b = (- a + b * (- k)) div b" by (simp add: algebra_simps)
  also have "\<dots> = - k + (- a) div b"
    using \<open>0 < b\<close> by (rule div_mult_self2 [OF less_imp_neq [symmetric]])
  finally show ?thesis by (simp add: js_ceil_div_def)
qed

lemma js_ceil_div_mult [simp]: "0 < b \<Longrightarrow> js_ceil_div (b * k) b = k"
  using js_ceil_div_add_mult [of b 0 k] by (simp add: js_ceil_div_def)

lemma js_ceil_div_pos_iff: "0 < b \<Longrightarrow> 0 < js_ceil_div a b \<longleftrightarrow> 0 < a"
proof
  assume "0 < b" "0 < js_ceil_div a b"
  have "b * js_ceil_div a b < a + b" using \<open>0 < b\<close> by (rule js_ceil_div_upper)
  moreover have "b \<le> b * js_ceil_div a b"
    using \<open>0 < b\<close> \<open>0 < js_ceil_div a b\<close> by simp
  ultimately show "0 < a" by simp
next
  assume "0 < b" "0 < a"
  then have "0 < b * js_ceil_div a b"
    using js_ceil_div_lower [of b a] by simp
  then show "0 < js_ceil_div a b"
    using \<open>0 < b\<close> by (simp add: zero_less_mult_iff)
qed

lemma js_ceil_div_mono: "0 < b \<Longrightarrow> a \<le> a' \<Longrightarrow> js_ceil_div a b \<le> js_ceil_div a' b"
  unfolding js_ceil_div_def by (simp add: zdiv_mono1)

subsection \<open>Lists\<close>

lemma find_append: "find P (xs @ ys) = (case find P xs of None \<Rightarrow> find P ys | Some x \<Rightarrow> Some x)"
  by (induction xs) auto

end
