(* ===== verification/Modes.thy ===== *)
theory Modes
  imports Prelude
begin

text \<open>
  The four timer presets of \<open>src/src/App.jsx\<close> (the \<open>MODES\<close> table, lines 5--26):
  a datatype of the table's keys and a record of each entry's label, base duration
  in seconds and theme colour.  \<open>mode_keys\<close> is \<open>Object.keys(MODES)\<close>, the order of
  the tabs; \<open>duration_of\<close> is the duration a reset, a mode switch or a re-arm
  restores (the custom preset uses the persisted \<open>customTime\<close>).
\<close>

datatype mode = Pomodoro | Short | Long | Custom

record mode_info =
  label :: string
  time :: int
  color :: string

fun MODES :: "mode \<Rightarrow> mode_info" where
  "MODES Pomodoro = \<lparr>label = ''Pomodoro'', time = 25 * 60, color = ''var(--color-pomodoro)''\<rparr>"
| "MODES Short = \<lparr>label = ''Short Break'', time = 5 * 60, color = ''var(--color-short)''\<rparr>"
| "MODES Long = \<lparr>label = ''Long Break'', time = 15 * 60, color = ''var(--color-long)''\<rparr>"
| "MODES Custom = \<lparr>label = ''Custom'', time = 0, color = ''var(--color-custom)''\<rparr>"

definition mode_keys :: "mode list" where
  "mode_keys = [Pomodoro, Short, Long, Custom]"

definition duration_of :: "mode \<Rightarrow> int \<Rightarrow> int" where
  "duration_of m customTime = (if m = Custom then customTime else time (MODES m))"

lemma time_MODES_nonneg [simp]: "0 \<le> time (MODES m)"
  by (cases m) simp_all

lemma time_MODES_pos: "m \<noteq> Custom \<Longrightarrow> 0 < time (MODES m)"
  by (cases m) simp_all

lemma duration_of_nonneg [simp]: "0 \<le> ct \<Longrightarrow> 0 \<le> duration_of m ct"
  by (simp add: duration_of_def)

lemma duration_of_simps [simp]:
  "duration_of Custom ct = ct"
  "duration_of Pomodoro ct = 1500"
  "duration_of Short ct = 300"
  "duration_of Long ct = 900"
  by (simp_all add: duration_of_def)

lemma set_mode_keys [simp]: "set mode_keys = UNIV"
proof -
  have "m \<in> set mode_keys" for m by (cases m) (simp_all add: mode_keys_def)
  then show ?thesis by blast
qed

lemma distinct_mode_keys: "distinct mode_keys"
  by (simp add: mode_keys_def)

end
