(* ===== verification/Audio.thy ===== *)
theory Audio
  imports Prelude
begin

text \<open>
  The audio element held in \<open>audioRef\<close> (\<open>src/src/App.jsx\<close> lines 59, 78--99) and
  the side effects the components emit.  The timer and the settings never read the
  element: they only call its methods, so a handler returns the calls it makes, in
  order, as a list of \<open>effect\<close>s, and \<open>audio_exec\<close> applies them.  This datatype is
  the interface the timer engine, the settings store and the composed application
  agree on.  A notification is recorded with its title and body.
\<close>

datatype alarm_src = DefaultSound | DataUrl string

record audio =
  src :: alarm_src
  playing :: bool
  currentTime :: int
  looping :: bool
  decodable :: "alarm_src \<Rightarrow> bool"
  rejections :: nat

datatype audio_cmd = APlay | APause | ARewind | ASetSrc alarm_src

datatype effect = AudioCmd audio_cmd | Notify string string | Alert string

text \<open>\<open>new Audio(defaultAlarmSound)\<close> (line 59).  \<open>decodable\<close> is the platform's verdict on
  each source (whether the media stack can decode it) and \<open>rejections\<close> counts the
  runs of the \<open>play()\<close> rejection handler (line 155).  The handler calls
  \<open>console.error\<close>, which the production bundle drops (\<open>src/vite.config.js\<close>,
  line 9), so a run is a log entry only in a development build.\<close>

definition audio_init :: "(alarm_src \<Rightarrow> bool) \<Rightarrow> audio" where
  "audio_init dec = \<lparr>src = DefaultSound, playing = False, currentTime = 0, looping = False,
     decodable = dec, rejections = 0\<rparr>"

text \<open>
  One method call on the element.  \<open>play()\<close> starts playback of a source the
  platform can decode; otherwise its promise rejects and the handler of line 155
  runs (Electron's default autoplay policy needs no user gesture, so an
  undecodable source is what makes it reject).  Setting \<open>src\<close> loads the new
  source, which stops playback.
\<close>

fun audio_step :: "audio \<Rightarrow> audio_cmd \<Rightarrow> audio" where
  "audio_step a APlay =
     (if decodable a (src a) then a\<lparr>playing := True\<rparr> else a\<lparr>rejections := Suc (rejections a)\<rparr>)"
| "audio_step a APause = a\<lparr>playing := False\<rparr>"
| "audio_step a ARewind = a\<lparr>currentTime := 0\<rparr>"
| "audio_step a (ASetSrc s) = a\<lparr>src := s, playing := False, currentTime := 0\<rparr>"

fun audio_exec :: "audio \<Rightarrow> effect list \<Rightarrow> audio" where
  "audio_exec a [] = a"
| "audio_exec a (AudioCmd c # fx) = audio_exec (audio_step a c) fx"
| "audio_exec a (Notify _ _ # fx) = audio_exec a fx"
| "audio_exec a (Alert _ # fx) = audio_exec a fx"

text \<open>The configuration effect run once on mount (lines 91--94).\<close>

definition audio_configure :: "audio \<Rightarrow> audio" where
  "audio_configure a = a\<lparr>looping := True\<rparr>"

text \<open>How many times an effect list starts the alarm sound.\<close>

definition count_plays :: "effect list \<Rightarrow> nat" where
  "count_plays fx = length (filter (\<lambda>f. f = AudioCmd APlay) fx)"

lemma audio_exec_append [simp]: "audio_exec a (fx @ gx) = audio_exec (audio_exec a fx) gx"
  by (induction a fx rule: audio_exec.induct) simp_all

lemma count_plays_simps [simp]:
  "count_plays [] = 0"
  "count_plays (fx @ gx) = count_plays fx + count_plays gx"
  "count_plays (AudioCmd c # fx) = (if c = APlay then Suc (count_plays fx) else count_plays fx)"
  "count_plays (Notify t b # fx) = count_plays fx"
  "count_plays (Alert m # fx) = count_plays fx"
  by (simp_all add: count_plays_def)

end
