(* ===== verification/Timer.thy ===== *)
theory Timer
  imports Modes Audio
begin

text \<open>
  The timer engine of \<open>src/src/App.jsx\<close>.  Its state is the React state of the
  component that the timer reads or writes (\<open>mode\<close>, \<open>timeLeft\<close>, \<open>customTime\<close>,
  \<open>isActive\<close>, \<open>isAlarmRinging\<close>) and two refs: \<open>endTimeRef\<close> (the wall-clock
  end instant, \<open>null\<close> as \<open>None\<close>) and \<open>timerRef\<close> (whether an interval is
  scheduled).  A handler reads the values of the render it was created in and
  schedules state updates; it writes refs at once.  As no handler reads a state
  value after setting it, each handler is a function from the old state to the new
  one, returning the method calls it makes on the audio element and the
  notifications it raises.  After the handler, React re-renders and runs the timer
  effect (lines 102--133) when \<open>isActive\<close> or the current mode changed:
  \<open>timer_commit\<close> is that effect.  \<open>timer_step\<close> is one event delivered to the
  component and committed; \<open>timer_run\<close> is a sequence of them.
\<close>

record timer =
  mode :: mode
  timeLeft :: secs
  customTime :: secs
  isActive :: bool
  isAlarmRinging :: bool
  endTimeRef :: "ms option"
  timerRef :: bool

text \<open>Initial state (lines 40--44, 56--57): Pomodoro at 25:00, custom time 0.\<close>

definition timer_init :: timer where
  "timer_init = \<lparr>mode = Pomodoro, timeLeft = time (MODES Pomodoro), customTime = time (MODES Custom),
     isActive = False, isAlarmRinging = False, endTimeRef = None, timerRef = False\<rparr>"

text \<open>\<open>Math.max(0, Math.ceil((endTimeRef.current - now) / 1000))\<close> (lines 110--111 and 140--141).\<close>

definition seconds_remaining :: "ms option \<Rightarrow> ms \<Rightarrow> secs" where
  "seconds_remaining endRef t = max 0 (js_ceil_div (js_num endRef - t) 1000)"

subsection \<open>Handlers\<close>

text \<open>\<open>stopAlarm\<close> (lines 220--224).\<close>

definition stopAlarm :: "timer \<Rightarrow> timer \<times> effect list" where
  "stopAlarm s = (s\<lparr>isAlarmRinging := False\<rparr>, [AudioCmd APause, AudioCmd ARewind])"

text \<open>\<open>switchMode\<close> (lines 172--183).\<close>

definition switchMode :: "mode \<Rightarrow> timer \<Rightarrow> timer \<times> effect list" where
  "switchMode newMode s =
     (let (s1, fx) = stopAlarm (s\<lparr>mode := newMode\<rparr>)
      in (s1\<lparr>isActive := False, endTimeRef := None,
             timeLeft := (if newMode = Custom then customTime s else time (MODES newMode))\<rparr>, fx))"

text \<open>\<open>toggleTimer\<close> (lines 185--207).  The branch on \<open>!isActive\<close> reads the value
  of the render, before \<open>setIsActive(!isActive)\<close> takes effect.\<close>

definition toggleTimer :: "ms \<Rightarrow> timer \<Rightarrow> timer \<times> effect list" where
  "toggleTimer t s =
     (if isAlarmRinging s then stopAlarm s
      else if \<not> isActive s \<and> timeLeft s = 0 then
        (let duration = duration_of (mode s) (customTime s)
         in if duration \<le> 0 then (s, [])
            else (s\<lparr>timeLeft := duration, endTimeRef := Some (t + duration * 1000), isActive := True\<rparr>, []))
      else
        (s\<lparr>isActive := \<not> isActive s,
           endTimeRef := (if \<not> isActive s then Some (t + timeLeft s * 1000) else None)\<rparr>, []))"

text \<open>\<open>resetTimer\<close> (lines 209--218).\<close>

definition resetTimer :: "timer \<Rightarrow> timer \<times> effect list" where
  "resetTimer s =
     (let (s1, fx) = stopAlarm s
      in (s1\<lparr>isActive := False, endTimeRef := None,
             timeLeft := (if mode s = Custom then customTime s else time (MODES (mode s)))\<rparr>, fx))"

text \<open>\<open>adjustTime\<close> (lines 227--233): only in custom mode while inactive; clamps at 0.\<close>

definition adjustTime :: "int \<Rightarrow> timer \<Rightarrow> timer \<times> effect list" where
  "adjustTime amount s =
     (if mode s \<noteq> Custom \<or> isActive s then (s, [])
      else (let newTime = max 0 (customTime s + amount)
            in (s\<lparr>customTime := newTime, timeLeft := newTime\<rparr>, [])))"

text \<open>\<open>handleTimerFinished\<close> (lines 150--163): the interval is cleared at once, the
  alarm is started, and a notification is raised when permission was granted.\<close>

definition handleTimerFinished :: "bool \<Rightarrow> timer \<Rightarrow> timer \<times> effect list" where
  "handleTimerFinished perm s =
     (s\<lparr>isActive := False, timerRef := False, timeLeft := 0, isAlarmRinging := True\<rparr>,
      [AudioCmd APlay] @
      (if perm then [Notify ''Timer Finished!'' (label (MODES (mode s)) @ '' is over.'')] else []))"

text \<open>The interval callback (lines 108--126): recompute from the end instant, update
  the display only while visible, finish when nothing remains.\<close>

definition interval_tick :: "env \<Rightarrow> timer \<Rightarrow> timer \<times> effect list" where
  "interval_tick e s =
     (let secondsRemaining = seconds_remaining (endTimeRef s) (now e);
          s1 = (if \<not> hidden e then s\<lparr>timeLeft := secondsRemaining\<rparr> else s)
      in if secondsRemaining \<le> 0 then handleTimerFinished (granted e) s1 else (s1, []))"

text \<open>The \<open>visibilitychange\<close> listener (lines 137--144).  The listener is
  re-registered whenever \<open>isActive\<close> changes, so it reads the current value.\<close>

definition handleVisibilityChange :: "env \<Rightarrow> timer \<Rightarrow> timer \<times> effect list" where
  "handleVisibilityChange e s =
     (if \<not> hidden e \<and> isActive s \<and> js_truthy (endTimeRef s)
      then (s\<lparr>timeLeft := seconds_remaining (endTimeRef s) (now e)\<rparr>, [])
      else (s, []))"

subsection \<open>The timer effect and one committed event\<close>

text \<open>
  The effect of lines 102--133, run after a render in which \<open>isActive\<close> or
  \<open>currentMode\<close> changed (\<open>MODES[mode]\<close> is one object per mode, so the latter is a
  change of \<open>mode\<close>): the cleanup of the previous run clears the interval; then an
  active timer gets its end instant (unless the handler set it) and a new interval,
  an inactive one has its interval cleared and its end instant reset.
\<close>

definition timer_effect :: "ms \<Rightarrow> timer \<Rightarrow> timer" where
  "timer_effect t s =
     (let s1 = s\<lparr>timerRef := False\<rparr>
      in if isActive s1 then
           s1\<lparr>endTimeRef := (if js_truthy (endTimeRef s1) then endTimeRef s1
                             else Some (t + timeLeft s1 * 1000)),
              timerRef := True\<rparr>
         else s1\<lparr>timerRef := False, endTimeRef := None\<rparr>)"

definition timer_commit :: "ms \<Rightarrow> timer \<Rightarrow> timer \<Rightarrow> timer" where
  "timer_commit t old s =
     (if isActive s = isActive old \<and> mode s = mode old then s else timer_effect t s)"

datatype timer_event =
    SwitchMode mode
  | ToggleTimer
  | ResetTimer
  | StopAlarm
  | AdjustTime int
  | Tick
  | VisibilityChange

text \<open>The handler an event runs.  \<open>StopAlarm\<close> is the stop button shown while the
  alarm rings (line 351); \<open>Tick\<close> is delivered only while an interval is scheduled.\<close>

fun timer_handler :: "env \<Rightarrow> timer_event \<Rightarrow> timer \<Rightarrow> timer \<times> effect list" where
  "timer_handler e (SwitchMode m) s = switchMode m s"
| "timer_handler e ToggleTimer s = toggleTimer (now e) s"
| "timer_handler e ResetTimer s = resetTimer s"
| "timer_handler e StopAlarm s = stopAlarm s"
| "timer_handler e (AdjustTime a) s = adjustTime a s"
| "timer_handler e Tick s = (if timerRef s then interval_tick e s else (s, []))"
| "timer_handler e VisibilityChange s = handleVisibilityChange e s"

definition timer_step :: "env \<Rightarrow> timer \<Rightarrow> timer_event \<Rightarrow> timer \<times> effect list" where
  "timer_step e s ev = (let (s', fx) = timer_handler e ev s in (timer_commit (now e) s s', fx))"

fun timer_run :: "timer \<Rightarrow> (env \<times> timer_event) list \<Rightarrow> timer \<times> effect list" where
  "timer_run s [] = (s, [])"
| "timer_run s ((e, ev) # evs) =
     (let (s1, fx1) = timer_step e s ev; (s2, fx2) = timer_run s1 evs in (s2, fx1 @ fx2))"

declare stopAlarm_def [handler_defs] switchMode_def [handler_defs] toggleTimer_def [handler_defs]
  resetTimer_def [handler_defs] adjustTime_def [handler_defs] handleTimerFinished_def [handler_defs]
  interval_tick_def [handler_defs] handleVisibilityChange_def [handler_defs]


subsection \<open>Invariant and abstract phases\<close>

text \<open>
  \<open>base_inv\<close> holds after every handler: counts are non-negative, an active timer
  has a positive end instant, and an active timer never rings.  \<open>timer_inv\<close> adds
  what the commit (the effect) re-establishes: an inactive timer has no end instant
  and an interval is scheduled exactly while the timer is active.  \<open>handler_ok\<close>
  is what a handler must leave for the commit.
\<close>

definition base_inv :: "timer \<Rightarrow> bool" where
  "base_inv s \<longleftrightarrow> 0 \<le> timeLeft s \<and> 0 \<le> customTime s
     \<and> (isActive s \<longrightarrow> (\<exists>v. endTimeRef s = Some v \<and> 0 < v))
     \<and> \<not> (isActive s \<and> isAlarmRinging s)"

definition timer_inv :: "timer \<Rightarrow> bool" where
  "timer_inv s \<longleftrightarrow> base_inv s \<and> (\<not> isActive s \<longrightarrow> endTimeRef s = None) \<and> timerRef s = isActive s"

definition handler_ok :: "timer \<Rightarrow> timer \<Rightarrow> bool" where
  "handler_ok s s' \<longleftrightarrow> base_inv s' \<and>
     (isActive s' = isActive s \<and> mode s' = mode s \<longrightarrow>
        timerRef s' = timerRef s \<and> (\<not> isActive s' \<longrightarrow> endTimeRef s' = None))"

text \<open>
  The abstract state machine of the specification (section 4.1): Idle, Running and
  Ringing, with the transitions start, pause, finish and dismiss.  \<open>phase\<close> is the
  abstraction function from the timer state.
\<close>

datatype phase = Idle | Running | Ringing

definition phase :: "timer \<Rightarrow> phase" where
  "phase s = (if isActive s then Running else if isAlarmRinging s then Ringing else Idle)"

inductive spec_step :: "phase \<Rightarrow> phase \<Rightarrow> bool" where
  stutter: "spec_step p p"
| start: "spec_step Idle Running"
| pause: "spec_step Running Idle"
| finish: "spec_step Running Ringing"
| dismiss: "spec_step Ringing Idle"

code_pred spec_step .

text \<open>The states the component reaches from its initial render, with a clock past the epoch.\<close>

inductive timer_reachable :: "timer \<Rightarrow> bool" where
  init: "timer_reachable timer_init"
| step: "timer_reachable s \<Longrightarrow> 0 \<le> now e \<Longrightarrow> timer_reachable (fst (timer_step e s ev))"

inductive_simps spec_step_iff: "spec_step p q"

subsection \<open>Helper lemmas: the commit, the invariant, single ticks\<close>

lemma timer_step_handler:
  "timer_step e s ev = (timer_commit (now e) s (fst (timer_handler e ev s)), snd (timer_handler e ev s))"
  by (simp add: timer_step_def split: prod.splits)

lemma timer_commit_frame [simp]:
  "timeLeft (timer_commit t s s') = timeLeft s'"
  "isActive (timer_commit t s s') = isActive s'"
  "isAlarmRinging (timer_commit t s s') = isAlarmRinging s'"
  "customTime (timer_commit t s s') = customTime s'"
  "mode (timer_commit t s s') = mode s'"
  by (simp_all add: timer_commit_def timer_effect_def Let_def)

lemma timer_commit_same [simp]:
  "isActive s' = isActive s \<Longrightarrow> mode s' = mode s \<Longrightarrow> timer_commit t s s' = s'"
  by (simp add: timer_commit_def)

lemma seconds_remaining_nonneg [simp]: "0 \<le> seconds_remaining r t"
  by (simp add: seconds_remaining_def)

lemma seconds_remaining_pos:
  "v > t \<Longrightarrow> seconds_remaining (Some v) t = js_ceil_div (v - t) 1000 \<and> 0 < js_ceil_div (v - t) 1000"
  by (simp add: seconds_remaining_def js_ceil_div_pos_iff)

lemma seconds_remaining_zero: "v \<le> t \<Longrightarrow> seconds_remaining (Some v) t = 0"
proof -
  assume "v \<le> t"
  then have "js_ceil_div (v - t) 1000 \<le> js_ceil_div 0 1000" by (simp add: js_ceil_div_mono)
  then show ?thesis by (simp add: seconds_remaining_def js_ceil_div_def)
qed

lemma js_ceil_div_elapsed: "js_ceil_div (T * 1000 - d) 1000 = T - d div 1000"
proof -
  have "js_ceil_div (- d + 1000 * T) 1000 = js_ceil_div (- d) 1000 + T"
    by (rule js_ceil_div_add_mult) simp
  then show ?thesis by (simp add: js_ceil_div_def algebra_simps)
qed

lemma timer_init_inv: "timer_inv timer_init"
  by (simp add: timer_inv_def base_inv_def timer_init_def)

lemma timer_inv_activeD:
  "timer_inv s \<Longrightarrow> isActive s \<Longrightarrow> timerRef s \<and> \<not> isAlarmRinging s \<and> (\<exists>v. endTimeRef s = Some v \<and> 0 < v)"
  by (auto simp: timer_inv_def base_inv_def)

lemma timer_inv_timeLeft: "timer_inv s \<Longrightarrow> 0 \<le> x \<Longrightarrow> timer_inv (s\<lparr>timeLeft := x\<rparr>)"
  by (simp add: timer_inv_def base_inv_def)

lemma stopAlarm_ok: "timer_inv s \<Longrightarrow> handler_ok s (fst (stopAlarm s))"
  by (auto simp: handler_ok_def timer_inv_def base_inv_def stopAlarm_def)

lemma switchMode_ok: "timer_inv s \<Longrightarrow> handler_ok s (fst (switchMode m s))"
  by (auto simp: handler_ok_def timer_inv_def base_inv_def switchMode_def stopAlarm_def)

lemma resetTimer_ok: "timer_inv s \<Longrightarrow> handler_ok s (fst (resetTimer s))"
  by (auto simp: handler_ok_def timer_inv_def base_inv_def resetTimer_def stopAlarm_def)

lemma adjustTime_ok: "timer_inv s \<Longrightarrow> handler_ok s (fst (adjustTime a s))"
  by (auto simp: handler_ok_def timer_inv_def base_inv_def adjustTime_def Let_def)

lemma toggleTimer_ok: "timer_inv s \<Longrightarrow> 0 \<le> t \<Longrightarrow> handler_ok s (fst (toggleTimer t s))"
  by (auto simp: handler_ok_def timer_inv_def base_inv_def toggleTimer_def stopAlarm_def Let_def
      duration_of_def add_pos_nonneg)

lemma interval_tick_ok: "timer_inv s \<Longrightarrow> timerRef s \<Longrightarrow> handler_ok s (fst (interval_tick e s))"
  by (auto simp: handler_ok_def timer_inv_def base_inv_def interval_tick_def handleTimerFinished_def Let_def)

lemma handleVisibilityChange_ok: "timer_inv s \<Longrightarrow> handler_ok s (fst (handleVisibilityChange e s))"
  by (auto simp: handler_ok_def timer_inv_def base_inv_def handleVisibilityChange_def)

lemma timer_handler_ok:
  "timer_inv s \<Longrightarrow> 0 \<le> now e \<Longrightarrow> handler_ok s (fst (timer_handler e ev s))"
proof (cases ev)
  case Tick
  assume "timer_inv s"
  then show ?thesis using Tick interval_tick_ok [of s e]
    by (auto simp: handler_ok_def timer_inv_def)
qed (simp_all add: stopAlarm_ok switchMode_ok resetTimer_ok adjustTime_ok toggleTimer_ok
      handleVisibilityChange_ok)

lemma timer_effect_inv: "base_inv s \<Longrightarrow> timer_inv (timer_effect t s)"
  by (cases "isActive s") (auto simp: timer_effect_def timer_inv_def base_inv_def)

lemma timer_commit_inv:
  assumes "timer_inv s" and "handler_ok s s'"
  shows "timer_inv (timer_commit t s s')"
proof (cases "isActive s' = isActive s \<and> mode s' = mode s")
  case True
  with assms show ?thesis by (simp add: timer_commit_def handler_ok_def timer_inv_def)
next
  case False
  with assms show ?thesis by (auto simp: timer_commit_def handler_ok_def timer_effect_inv)
qed

lemma timer_step_inv:
  "timer_inv s \<Longrightarrow> 0 \<le> now e \<Longrightarrow> timer_inv (fst (timer_step e s ev))"
proof -
  assume inv: "timer_inv s" and t: "0 \<le> now e"
  obtain s' fx where h: "timer_handler e ev s = (s', fx)"
    by (cases "timer_handler e ev s")
  with timer_handler_ok [OF inv t, of ev] have "handler_ok s s'" by simp
  with inv have "timer_inv (timer_commit (now e) s s')" by (rule timer_commit_inv)
  with h show ?thesis by (simp add: timer_step_def)
qed

lemma timer_step_tick_inv: "timer_inv s \<Longrightarrow> timer_inv (fst (timer_step e s Tick))"
proof (cases "timerRef s")
  case True
  assume inv: "timer_inv s"
  then have "handler_ok s (fst (interval_tick e s))" using True by (rule interval_tick_ok)
  with inv have "timer_inv (timer_commit (now e) s (fst (interval_tick e s)))"
    by (rule timer_commit_inv)
  with True show ?thesis by (simp add: timer_step_handler)
next
  case False
  assume "timer_inv s"
  with False show ?thesis by (simp add: timer_step_handler)
qed

lemma tick_resync_step:
  assumes "timer_inv s" "isActive s" "endTimeRef s = Some v" "now e < v"
  shows "timer_step e s Tick =
           ((if hidden e then s else s\<lparr>timeLeft := js_ceil_div (v - now e) 1000\<rparr>), [])"
  using assms timer_inv_activeD [OF assms(1,2)] seconds_remaining_pos [OF assms(4)]
  by (simp add: timer_step_handler interval_tick_def)

lemma tick_finish_step:
  assumes "timer_inv s" "isActive s" "endTimeRef s = Some v" "v \<le> now e"
  shows "timer_step e s Tick =
           (s\<lparr>isActive := False, timerRef := False, endTimeRef := None, timeLeft := 0,
              isAlarmRinging := True\<rparr>,
            AudioCmd APlay # (if granted e
              then [Notify ''Timer Finished!'' (label (MODES (mode s)) @ '' is over.'')] else []))"
  using assms timer_inv_activeD [OF assms(1,2)] seconds_remaining_zero [OF assms(4)]
  by (simp add: timer_step_handler interval_tick_def handleTimerFinished_def timer_commit_def
      timer_effect_def Let_def)

lemma tick_inactive: "timer_inv s \<Longrightarrow> \<not> isActive s \<Longrightarrow> timer_step e s Tick = (s, [])"
  by (simp add: timer_step_handler timer_inv_def)

lemma tick_before_end:
  assumes "timer_inv s" "isActive s" "endTimeRef s = Some v" "now e < v"
  shows "\<exists>x. 0 \<le> x \<and> timer_step e s Tick = (s\<lparr>timeLeft := x\<rparr>, [])"
proof (cases "hidden e")
  case True
  have "0 \<le> timeLeft s" using assms(1) by (simp add: timer_inv_def base_inv_def)
  with True tick_resync_step [OF assms] show ?thesis by (intro exI [of _ "timeLeft s"]) simp
next
  case False
  with tick_resync_step [OF assms] seconds_remaining_pos [OF assms(4)] show ?thesis
    by (intro exI [of _ "js_ceil_div (v - now e) 1000"]) simp
qed

lemma tick_timeLeft_irrelevant:
  "timerRef s \<Longrightarrow> \<not> hidden e \<Longrightarrow> timer_step e (s\<lparr>timeLeft := x\<rparr>) Tick = timer_step e s Tick"
  by (simp add: timer_step_handler interval_tick_def handleTimerFinished_def timer_commit_def
      timer_effect_def Let_def)

lemma timer_run_ticks_inactive:
  "timer_inv s \<Longrightarrow> \<not> isActive s \<Longrightarrow> list_all (\<lambda>(e, ev). ev = Tick) xs \<Longrightarrow> timer_run s xs = (s, [])"
  by (induction xs) (auto simp: tick_inactive)

lemma timer_run_ticks_before_end:
  "timer_inv s \<Longrightarrow> isActive s \<Longrightarrow> endTimeRef s = Some v \<Longrightarrow>
   list_all (\<lambda>(e, ev). ev = Tick \<and> now e < v) xs \<Longrightarrow>
   \<exists>x. 0 \<le> x \<and> timer_run s xs = (s\<lparr>timeLeft := x\<rparr>, [])"
proof (induction xs arbitrary: s)
  case Nil
  then show ?case by (intro exI [of _ "timeLeft s"]) (simp add: timer_inv_def base_inv_def)
next
  case (Cons p xs)
  obtain e ev where p: "p = (e, ev)" by (cases p)
  with Cons.prems have ev: "ev = Tick" and lt: "now e < v"
    and rest: "list_all (\<lambda>(e, ev). ev = Tick \<and> now e < v) xs"
    by simp_all
  obtain x where x: "0 \<le> x" and st: "timer_step e s Tick = (s\<lparr>timeLeft := x\<rparr>, [])"
    using tick_before_end [OF Cons.prems(1-3) lt] by blast
  have "timer_inv (s\<lparr>timeLeft := x\<rparr>)" using Cons.prems(1) x by (rule timer_inv_timeLeft)
  then obtain y where "0 \<le> y"
    "timer_run (s\<lparr>timeLeft := x\<rparr>) xs = (s\<lparr>timeLeft := x\<rparr>\<lparr>timeLeft := y\<rparr>, [])"
    using Cons.IH [of "s\<lparr>timeLeft := x\<rparr>"] Cons.prems(2,3) rest by auto
  with p ev st show ?case by (intro exI [of _ y]) simp
qed

lemma toggle_start_state:
  assumes "timer_inv s" "\<not> isActive s" "\<not> isAlarmRinging s" "0 < timeLeft s" "0 \<le> now e"
  shows "fst (timer_step e s ToggleTimer) =
           s\<lparr>isActive := True, timerRef := True, endTimeRef := Some (now e + timeLeft s * 1000)\<rparr>"
  using assms
  by (simp add: timer_step_handler toggleTimer_def timer_inv_def base_inv_def timer_commit_def
      timer_effect_def Let_def add_pos_nonneg)

lemma ringing_only_by_tick:
  "\<not> isAlarmRinging s \<Longrightarrow> ev \<noteq> Tick \<Longrightarrow> \<not> isAlarmRinging (fst (timer_step e s ev))"
  by (cases ev) (simp_all add: timer_step_handler handler_defs Let_def)

lemma phase_to_idle: "\<not> isActive s' \<Longrightarrow> \<not> isAlarmRinging s' \<Longrightarrow> spec_step (phase s) (phase s')"
  by (auto simp: phase_def spec_step_iff)

subsection \<open>The countdown follows the wall clock\<close>

text \<open>
  C1.  Started from an idle, silent timer with \<open>T > 0\<close> seconds left at instant
  \<open>t0\<close>, whatever ticks the interval delivers before the end instant (visible or
  hidden, at any times), a visible tick at \<open>t0 + d\<close> shows \<open>T - \<lfloor>d / 1000\<rfloor>\<close> seconds
  while \<open>d < 1000 T\<close>, and once \<open>d \<ge> 1000 T\<close> it stops the timer, sets the display
  to 0 and rings the alarm: the display is derived from the end instant, not
  decremented per tick.
\<close>

theorem countdown_follows_clock:
  assumes inv: "timer_inv s" and idle: "\<not> isActive s" "\<not> isAlarmRinging s"
    and T: "0 < timeLeft s" and t0: "0 \<le> now e0"
    and ticks: "list_all (\<lambda>(e, ev). ev = Tick \<and> now e < now e0 + timeLeft s * 1000) xs"
    and vis: "\<not> hidden e"
  shows "(now e - now e0 < timeLeft s * 1000 \<longrightarrow>
           isActive (fst (timer_step e (fst (timer_run (fst (timer_step e0 s ToggleTimer)) xs)) Tick))
         \<and> timeLeft (fst (timer_step e (fst (timer_run (fst (timer_step e0 s ToggleTimer)) xs)) Tick))
             = timeLeft s - (now e - now e0) div 1000)
       \<and> (timeLeft s * 1000 \<le> now e - now e0 \<longrightarrow>
           \<not> isActive (fst (timer_step e (fst (timer_run (fst (timer_step e0 s ToggleTimer)) xs)) Tick))
         \<and> isAlarmRinging (fst (timer_step e (fst (timer_run (fst (timer_step e0 s ToggleTimer)) xs)) Tick))
         \<and> timeLeft (fst (timer_step e (fst (timer_run (fst (timer_step e0 s ToggleTimer)) xs)) Tick)) = 0)"
proof -
  define v where "v = now e0 + timeLeft s * 1000"
  define s1 where "s1 = fst (timer_step e0 s ToggleTimer)"
  have s1: "s1 = s\<lparr>isActive := True, timerRef := True, endTimeRef := Some v\<rparr>"
    unfolding s1_def v_def using toggle_start_state [OF inv idle T t0] .
  have inv1: "timer_inv s1" unfolding s1_def using inv t0 by (rule timer_step_inv)
  have act1: "isActive s1" and end1: "endTimeRef s1 = Some v" by (simp_all add: s1)
  obtain x where "0 \<le> x" and run: "timer_run s1 xs = (s1\<lparr>timeLeft := x\<rparr>, [])"
    using timer_run_ticks_before_end [OF inv1 act1 end1] ticks by (auto simp: v_def)
  then have last: "timer_step e (fst (timer_run s1 xs)) Tick = timer_step e s1 Tick"
    using vis by (simp add: tick_timeLeft_irrelevant s1)
  show ?thesis
  proof (cases "now e < v")
    case True
    have "v - now e = timeLeft s * 1000 - (now e - now e0)" by (simp add: v_def)
    then have "js_ceil_div (v - now e) 1000 = timeLeft s - (now e - now e0) div 1000"
      by (simp only: js_ceil_div_elapsed)
    then show ?thesis
      using last tick_resync_step [OF inv1 act1 end1 True] vis True
      by (simp add: s1_def [symmetric] s1 v_def)
  next
    case False
    then have le: "v \<le> now e" by simp
    show ?thesis
      using last tick_finish_step [OF inv1 act1 end1 le] le by (simp add: s1_def [symmetric] v_def)
  qed
qed

theorem countdown_follows_clock_witness:
  "timer_inv timer_init \<and> \<not> isActive timer_init \<and> \<not> isAlarmRinging timer_init
   \<and> 0 < timeLeft timer_init \<and> 0 \<le> now \<lparr>now = 0, hidden = False, granted = False\<rparr>
   \<and> list_all (\<lambda>(e, ev). ev = Tick \<and> now e < 0 + timeLeft timer_init * 1000)
        [(\<lparr>now = 200000, hidden = True, granted = False\<rparr>, Tick)]
   \<and> \<not> hidden \<lparr>now = 600500, hidden = False, granted = False\<rparr>
   \<and> timeLeft (fst (timer_step \<lparr>now = 600500, hidden = False, granted = False\<rparr>
        (fst (timer_run (fst (timer_step \<lparr>now = 0, hidden = False, granted = False\<rparr> timer_init ToggleTimer))
           [(\<lparr>now = 200000, hidden = True, granted = False\<rparr>, Tick)])) Tick)) = 900"
  using countdown_follows_clock [OF timer_init_inv, of "\<lparr>now = 0, hidden = False, granted = False\<rparr>"
      "[(\<lparr>now = 200000, hidden = True, granted = False\<rparr>, Tick)]" "\<lparr>now = 600500, hidden = False, granted = False\<rparr>"]
  by (simp add: timer_init_inv) (simp add: timer_init_def)

text \<open>
  C2.  Missed ticks make no difference: after any sequence of interval ticks that
  leaves the timer running (delivered visible or hidden, at any times), the next
  visible tick produces exactly the state and effects a single visible tick from
  the starting state would.
\<close>

theorem missed_ticks_irrelevant:
  "timer_inv s \<Longrightarrow> list_all (\<lambda>(e, ev). ev = Tick) xs \<Longrightarrow> isActive (fst (timer_run s xs)) \<Longrightarrow>
   \<not> hidden e \<Longrightarrow> timer_step e (fst (timer_run s xs)) Tick = timer_step e s Tick"
proof (induction xs arbitrary: s)
  case Nil
  then show ?case by simp
next
  case (Cons p xs)
  obtain e' ev where p: "p = (e', ev)" by (cases p)
  with Cons.prems have ev: "ev = Tick" and rest: "list_all (\<lambda>(e, ev). ev = Tick) xs" by simp_all
  have act: "isActive s"
  proof (rule ccontr)
    assume "\<not> isActive s"
    with Cons.prems(1) have "timer_run s (p # xs) = (s, [])"
      using Cons.prems(2) by (rule timer_run_ticks_inactive)
    with Cons.prems(3) \<open>\<not> isActive s\<close> show False by simp
  qed
  then obtain v where v: "endTimeRef s = Some v" using timer_inv_activeD [OF Cons.prems(1)] by blast
  let ?s1 = "fst (timer_step e' s Tick)"
  have inv1: "timer_inv ?s1" using Cons.prems(1) by (rule timer_step_tick_inv)
  show ?case
  proof (cases "now e' < v")
    case True
    obtain x where x: "0 \<le> x" and st: "timer_step e' s Tick = (s\<lparr>timeLeft := x\<rparr>, [])"
      using tick_before_end [OF Cons.prems(1) act v True] by blast
    have "timer_inv (s\<lparr>timeLeft := x\<rparr>)" using Cons.prems(1) x by (rule timer_inv_timeLeft)
    moreover have "isActive (fst (timer_run (s\<lparr>timeLeft := x\<rparr>) xs))"
      using Cons.prems(3) p ev st by (simp split: prod.splits)
    ultimately have "timer_step e (fst (timer_run (s\<lparr>timeLeft := x\<rparr>) xs)) Tick =
        timer_step e (s\<lparr>timeLeft := x\<rparr>) Tick"
      using Cons.IH rest Cons.prems(4) by blast
    also have "\<dots> = timer_step e s Tick"
      using timer_inv_activeD [OF Cons.prems(1) act] Cons.prems(4) by (simp add: tick_timeLeft_irrelevant)
    finally show ?thesis using p ev st by (simp split: prod.splits)
  next
    case False
    then have "\<not> isActive ?s1" using tick_finish_step [OF Cons.prems(1) act v] by simp
    with inv1 rest have "timer_run ?s1 xs = (?s1, [])" by (simp add: timer_run_ticks_inactive)
    with Cons.prems(3) p ev \<open>\<not> isActive ?s1\<close> have False by (simp split: prod.splits)
    then show ?thesis ..
  qed
qed

theorem missed_ticks_irrelevant_witness:
  "timer_inv (timer_init\<lparr>isActive := True, timerRef := True, endTimeRef := Some 1501000\<rparr>)
   \<and> list_all (\<lambda>(e, ev). ev = Tick) [(\<lparr>now = 5000, hidden = True, granted = False\<rparr>, Tick)]
   \<and> isActive (fst (timer_run (timer_init\<lparr>isActive := True, timerRef := True, endTimeRef := Some 1501000\<rparr>)
        [(\<lparr>now = 5000, hidden = True, granted = False\<rparr>, Tick)]))
   \<and> \<not> hidden \<lparr>now = 9000, hidden = False, granted = False\<rparr>
   \<and> timer_step \<lparr>now = 9000, hidden = False, granted = False\<rparr>
       (fst (timer_run (timer_init\<lparr>isActive := True, timerRef := True, endTimeRef := Some 1501000\<rparr>)
          [(\<lparr>now = 5000, hidden = True, granted = False\<rparr>, Tick)])) Tick
     = timer_step \<lparr>now = 9000, hidden = False, granted = False\<rparr>
         (timer_init\<lparr>isActive := True, timerRef := True, endTimeRef := Some 1501000\<rparr>) Tick"
proof -
  have inv: "timer_inv (timer_init\<lparr>isActive := True, timerRef := True, endTimeRef := Some 1501000\<rparr>)"
    by (simp add: timer_inv_def base_inv_def timer_init_def)
  have act: "isActive (fst (timer_run (timer_init\<lparr>isActive := True, timerRef := True, endTimeRef := Some 1501000\<rparr>)
        [(\<lparr>now = 5000, hidden = True, granted = False\<rparr>, Tick)]))"
    by (simp add: timer_init_def timer_step_handler interval_tick_def seconds_remaining_def
        js_ceil_div_def Let_def)
  show ?thesis
    using missed_ticks_irrelevant [OF inv _ act, of "\<lparr>now = 9000, hidden = False, granted = False\<rparr>"] inv act
    by simp
qed

text \<open>
  C3.  The alarm starts exactly once per countdown: from a running timer with end
  instant \<open>v\<close>, a sequence of interval ticks starts the alarm sound once if some tick
  comes at or after \<open>v\<close> and never otherwise, and the alarm is ringing afterwards
  exactly in the first case.
\<close>

theorem alarm_starts_once:
  "timer_inv s \<Longrightarrow> isActive s \<Longrightarrow> endTimeRef s = Some v \<Longrightarrow> list_all (\<lambda>(e, ev). ev = Tick) xs \<Longrightarrow>
   count_plays (snd (timer_run s xs)) = (if list_ex (\<lambda>(e, ev). v \<le> now e) xs then 1 else 0)
   \<and> isAlarmRinging (fst (timer_run s xs)) = list_ex (\<lambda>(e, ev). v \<le> now e) xs"
proof (induction xs arbitrary: s)
  case Nil
  then show ?case using timer_inv_activeD [OF Nil.prems(1,2)] by simp
next
  case (Cons p xs)
  obtain e ev where p: "p = (e, ev)" by (cases p)
  with Cons.prems have ev: "ev = Tick" and rest: "list_all (\<lambda>(e, ev). ev = Tick) xs" by simp_all
  show ?case
  proof (cases "v \<le> now e")
    case True
    obtain s1 fx1 where st: "timer_step e s Tick = (s1, fx1)" by (cases "timer_step e s Tick")
    have "\<not> isActive s1" and "isAlarmRinging s1" and "count_plays fx1 = 1"
      using tick_finish_step [OF Cons.prems(1-3) True] st by simp_all
    moreover have "timer_inv s1" using timer_step_tick_inv [OF Cons.prems(1), of e] st by simp
    ultimately have "timer_run s1 xs = (s1, [])"
      using rest by (simp add: timer_run_ticks_inactive)
    with \<open>isAlarmRinging s1\<close> \<open>count_plays fx1 = 1\<close> show ?thesis using p ev True st by simp
  next
    case False
    then have "now e < v" by simp
    then obtain x where "0 \<le> x" and st: "timer_step e s Tick = (s\<lparr>timeLeft := x\<rparr>, [])"
      using tick_before_end [OF Cons.prems(1-3)] by blast
    have "timer_inv (s\<lparr>timeLeft := x\<rparr>)" using Cons.prems(1) \<open>0 \<le> x\<close> by (rule timer_inv_timeLeft)
    then have "count_plays (snd (timer_run (s\<lparr>timeLeft := x\<rparr>) xs)) =
                 (if list_ex (\<lambda>(e, ev). v \<le> now e) xs then 1 else 0)
               \<and> isAlarmRinging (fst (timer_run (s\<lparr>timeLeft := x\<rparr>) xs)) = list_ex (\<lambda>(e, ev). v \<le> now e) xs"
      using Cons.IH Cons.prems(2,3) rest by simp
    then show ?thesis using p ev st False by (simp split: prod.splits)
  qed
qed

text \<open>The specification's example: five seconds on the clock, ticks every two seconds.\<close>

theorem alarm_starts_once_witness:
  "timer_inv (timer_init\<lparr>mode := Custom, customTime := 5, timeLeft := 5, isActive := True,
                timerRef := True, endTimeRef := Some 6000\<rparr>)
   \<and> count_plays (snd (timer_run (timer_init\<lparr>mode := Custom, customTime := 5, timeLeft := 5,
        isActive := True, timerRef := True, endTimeRef := Some 6000\<rparr>)
        [(\<lparr>now = 2000, hidden = False, granted = True\<rparr>, Tick), (\<lparr>now = 4000, hidden = False, granted = True\<rparr>, Tick),
         (\<lparr>now = 6000, hidden = False, granted = True\<rparr>, Tick), (\<lparr>now = 8000, hidden = False, granted = True\<rparr>, Tick)]))
     = 1
   \<and> isAlarmRinging (fst (timer_run (timer_init\<lparr>mode := Custom, customTime := 5, timeLeft := 5,
        isActive := True, timerRef := True, endTimeRef := Some 6000\<rparr>)
        [(\<lparr>now = 2000, hidden = False, granted = True\<rparr>, Tick), (\<lparr>now = 4000, hidden = False, granted = True\<rparr>, Tick),
         (\<lparr>now = 6000, hidden = False, granted = True\<rparr>, Tick), (\<lparr>now = 8000, hidden = False, granted = True\<rparr>, Tick)]))"
proof -
  have inv: "timer_inv (timer_init\<lparr>mode := Custom, customTime := 5, timeLeft := 5, isActive := True,
                timerRef := True, endTimeRef := Some 6000\<rparr>)"
    by (simp add: timer_inv_def base_inv_def timer_init_def)
  show ?thesis
    using alarm_starts_once [OF inv, of 6000 "[(\<lparr>now = 2000, hidden = False, granted = True\<rparr>, Tick),
        (\<lparr>now = 4000, hidden = False, granted = True\<rparr>, Tick), (\<lparr>now = 6000, hidden = False, granted = True\<rparr>, Tick),
        (\<lparr>now = 8000, hidden = False, granted = True\<rparr>, Tick)]"] inv
    by (simp del: timer_run.simps)
qed

subsection \<open>Invariant and refinement of the specified state machine\<close>

text \<open>
  C4.  In every reachable state the counts are non-negative, an interval is
  scheduled exactly while the timer is active, an end instant is stored exactly
  while it is active (and is positive), and an active timer never rings.
\<close>

theorem timer_reachable_inv: "timer_reachable s \<Longrightarrow> timer_inv s"
proof (induction rule: timer_reachable.induct)
  case init
  show ?case by (rule timer_init_inv)
next
  case (step s e ev)
  then show ?case by (simp add: timer_step_inv)
qed

theorem timer_reachable_inv_witness:
  "timer_reachable (fst (timer_step \<lparr>now = 1000, hidden = False, granted = False\<rparr> timer_init ToggleTimer))
   \<and> timer_inv (fst (timer_step \<lparr>now = 1000, hidden = False, granted = False\<rparr> timer_init ToggleTimer))"
proof -
  have r: "timer_reachable (fst (timer_step \<lparr>now = 1000, hidden = False, granted = False\<rparr> timer_init ToggleTimer))"
    by (rule timer_reachable.step [OF timer_reachable.init]) simp
  show ?thesis using timer_reachable_inv [OF r] r by simp
qed

text \<open>
  C5.  Refinement: every event, from a state satisfying the invariant, moves the
  abstract phase (Idle, Running, Ringing) along a transition of the specified state
  machine or leaves it unchanged; in particular Ringing is never entered from Idle
  and Running is never entered from Ringing.
\<close>

theorem timer_step_refines_phases:
  assumes inv: "timer_inv s" and t: "0 \<le> now e"
  shows "spec_step (phase s) (phase (fst (timer_step e s ev)))"
proof (cases ev)
  case (SwitchMode m)
  then show ?thesis
    by (simp add: phase_to_idle timer_step_handler switchMode_def stopAlarm_def)
next
  case ResetTimer
  then show ?thesis
    by (simp add: phase_to_idle timer_step_handler resetTimer_def stopAlarm_def)
next
  case ToggleTimer
  have "\<not> (isActive s \<and> isAlarmRinging s)" using inv by (simp add: timer_inv_def base_inv_def)
  then show ?thesis using ToggleTimer ringing_only_by_tick [of s ToggleTimer e]
    by (auto simp: phase_def spec_step_iff timer_step_handler toggleTimer_def stopAlarm_def Let_def)
next
  case StopAlarm
  then show ?thesis
    by (auto simp: phase_def spec_step_iff timer_step_handler stopAlarm_def)
next
  case (AdjustTime a)
  then show ?thesis
    by (simp add: phase_def spec_step.stutter timer_step_handler adjustTime_def Let_def)
next
  case VisibilityChange
  then show ?thesis
    by (auto simp: phase_def spec_step_iff timer_step_handler handleVisibilityChange_def)
next
  case Tick
  show ?thesis
  proof (cases "isActive s")
    case True
    then obtain v where v: "endTimeRef s = Some v" using timer_inv_activeD [OF inv] by blast
    show ?thesis
    proof (cases "v \<le> now e")
      case True
      then show ?thesis using Tick tick_finish_step [OF inv \<open>isActive s\<close> v True]
        \<open>isActive s\<close> by (simp add: phase_def spec_step_iff)
    next
      case False
      then have "now e < v" by simp
      then obtain x where "timer_step e s Tick = (s\<lparr>timeLeft := x\<rparr>, [])"
        using tick_before_end [OF inv \<open>isActive s\<close> v] by blast
      then show ?thesis using Tick by (simp add: phase_def spec_step.stutter)
    qed
  next
    case False
    then show ?thesis using Tick tick_inactive [OF inv False] by (simp add: spec_step.stutter)
  qed
qed

theorem timer_step_refines_phases_witness:
  "timer_inv timer_init \<and> 0 \<le> now \<lparr>now = 1000, hidden = False, granted = False\<rparr>
   \<and> spec_step (phase timer_init)
       (phase (fst (timer_step \<lparr>now = 1000, hidden = False, granted = False\<rparr> timer_init ToggleTimer)))"
  using timer_step_refines_phases [OF timer_init_inv, of "\<lparr>now = 1000, hidden = False, granted = False\<rparr>"]
  by (simp add: timer_init_inv)

subsection \<open>The handlers, branch by branch\<close>

text \<open>
  C6.  Starting from an idle, silent timer: the toggle starts it exactly when there
  is time left or the mode's configured duration is positive (so a custom duration
  of 0 never starts a countdown from 00:00), and a started timer has a positive
  number of seconds, an end instant that many seconds after the click, and a
  scheduled interval.
\<close>

theorem toggle_starts:
  assumes "timer_inv s" "\<not> isActive s" "\<not> isAlarmRinging s" "0 \<le> now e"
  shows "(isActive (fst (timer_step e s ToggleTimer)) \<longleftrightarrow>
            0 < timeLeft s \<or> 0 < duration_of (mode s) (customTime s))
       \<and> (isActive (fst (timer_step e s ToggleTimer)) \<longrightarrow>
           0 < timeLeft (fst (timer_step e s ToggleTimer))
         \<and> fst (timer_step e s ToggleTimer) =
             s\<lparr>timeLeft := (if timeLeft s = 0 then duration_of (mode s) (customTime s) else timeLeft s),
               isActive := True, timerRef := True,
               endTimeRef := Some (now e + (if timeLeft s = 0 then duration_of (mode s) (customTime s)
                                           else timeLeft s) * 1000)\<rparr>)"
  using assms
  by (auto simp: timer_step_handler toggleTimer_def timer_inv_def base_inv_def timer_commit_def
      timer_effect_def Let_def add_pos_nonneg)

theorem toggle_starts_witness:
  "timer_inv (timer_init\<lparr>mode := Custom\<rparr>) \<and> \<not> isActive (timer_init\<lparr>mode := Custom\<rparr>)
   \<and> \<not> isAlarmRinging (timer_init\<lparr>mode := Custom\<rparr>) \<and> 0 \<le> now \<lparr>now = 1000, hidden = False, granted = False\<rparr>
   \<and> \<not> isActive (fst (timer_step \<lparr>now = 1000, hidden = False, granted = False\<rparr> (timer_init\<lparr>mode := Custom, timeLeft := 0\<rparr>) ToggleTimer))"
proof -
  have inv: "timer_inv (timer_init\<lparr>mode := Custom, timeLeft := 0\<rparr>)"
    by (simp add: timer_inv_def base_inv_def timer_init_def)
  have inv': "timer_inv (timer_init\<lparr>mode := Custom\<rparr>)"
    by (simp add: timer_inv_def base_inv_def timer_init_def)
  show ?thesis
    using toggle_starts [OF inv, of "\<lparr>now = 1000, hidden = False, granted = False\<rparr>"] inv'
    by (simp add: timer_init_def)
qed

text \<open>
  C7.  Pausing a running timer keeps the seconds shown, stores no end instant,
  clears the interval and emits nothing.
\<close>

theorem toggle_pauses:
  "timer_inv s \<Longrightarrow> isActive s \<Longrightarrow>
   timer_step e s ToggleTimer = (s\<lparr>isActive := False, endTimeRef := None, timerRef := False\<rparr>, [])"
  by (simp add: timer_step_handler toggleTimer_def timer_inv_def base_inv_def timer_commit_def
      timer_effect_def Let_def)

theorem toggle_pauses_witness:
  "timer_inv (timer_init\<lparr>isActive := True, timerRef := True, endTimeRef := Some 5000\<rparr>)
   \<and> isActive (timer_init\<lparr>isActive := True, timerRef := True, endTimeRef := Some 5000\<rparr>)
   \<and> timeLeft (fst (timer_step \<lparr>now = 3000, hidden = False, granted = False\<rparr>
        (timer_init\<lparr>isActive := True, timerRef := True, endTimeRef := Some 5000\<rparr>) ToggleTimer)) = 1500"
proof -
  have inv: "timer_inv (timer_init\<lparr>isActive := True, timerRef := True, endTimeRef := Some 5000\<rparr>)"
    by (simp add: timer_inv_def base_inv_def timer_init_def)
  show ?thesis using toggle_pauses [OF inv, of "\<lparr>now = 3000, hidden = False, granted = False\<rparr>"] inv
    by (simp add: timer_init_def)
qed

text \<open>
  C8.  While the alarm rings, the primary control only dismisses it: it stops the
  sound and rewinds it, and changes nothing else.
\<close>

theorem toggle_dismisses_alarm:
  "isAlarmRinging s \<Longrightarrow>
   timer_step e s ToggleTimer = (s\<lparr>isAlarmRinging := False\<rparr>, [AudioCmd APause, AudioCmd ARewind])"
  by (simp add: timer_step_handler toggleTimer_def stopAlarm_def)

theorem toggle_dismisses_alarm_witness:
  "isAlarmRinging (timer_init\<lparr>timeLeft := 0, isAlarmRinging := True\<rparr>)
   \<and> \<not> isActive (fst (timer_step \<lparr>now = 3000, hidden = False, granted = False\<rparr>
        (timer_init\<lparr>timeLeft := 0, isAlarmRinging := True\<rparr>) ToggleTimer))
   \<and> timeLeft (fst (timer_step \<lparr>now = 3000, hidden = False, granted = False\<rparr>
        (timer_init\<lparr>timeLeft := 0, isAlarmRinging := True\<rparr>) ToggleTimer)) = 0"
  using toggle_dismisses_alarm [of "timer_init\<lparr>timeLeft := 0, isAlarmRinging := True\<rparr>"]
  by (simp add: timer_init_def)

text \<open>
  C9.  Switching mode, from any state, stops the alarm, stops the timer and shows
  the new mode's duration (the persisted custom time for the custom mode).
\<close>

theorem switchMode_resets:
  "timeLeft (fst (timer_step e s (SwitchMode m))) = duration_of m (customTime s)
   \<and> \<not> isActive (fst (timer_step e s (SwitchMode m)))
   \<and> \<not> isAlarmRinging (fst (timer_step e s (SwitchMode m)))
   \<and> mode (fst (timer_step e s (SwitchMode m))) = m
   \<and> snd (timer_step e s (SwitchMode m)) = [AudioCmd APause, AudioCmd ARewind]"
  by (simp add: timer_step_handler switchMode_def stopAlarm_def duration_of_def)

text \<open>The specification's example: switching to the short break shows 300 seconds.\<close>

theorem switchMode_resets_witness:
  "timeLeft (fst (timer_step \<lparr>now = 7, hidden = False, granted = False\<rparr>
      (timer_init\<lparr>isActive := True, timerRef := True, endTimeRef := Some 9\<rparr>) (SwitchMode Short))) = 300
   \<and> \<not> isActive (fst (timer_step \<lparr>now = 7, hidden = False, granted = False\<rparr>
      (timer_init\<lparr>isActive := True, timerRef := True, endTimeRef := Some 9\<rparr>) (SwitchMode Short)))"
  using switchMode_resets [of "\<lparr>now = 7, hidden = False, granted = False\<rparr>"
      "timer_init\<lparr>isActive := True, timerRef := True, endTimeRef := Some 9\<rparr>" Short]
  by simp

text \<open>
  C10.  Reset, from any state, stops the alarm and the timer, forgets the end
  instant and restores the current mode's duration.
\<close>

theorem resetTimer_restores:
  "timeLeft (fst (timer_step e s ResetTimer)) = duration_of (mode s) (customTime s)
   \<and> \<not> isActive (fst (timer_step e s ResetTimer))
   \<and> \<not> isAlarmRinging (fst (timer_step e s ResetTimer))
   \<and> endTimeRef (fst (timer_step e s ResetTimer)) = None
   \<and> snd (timer_step e s ResetTimer) = [AudioCmd APause, AudioCmd ARewind]"
  by (simp add: timer_step_handler resetTimer_def stopAlarm_def duration_of_def timer_commit_def
      timer_effect_def Let_def)

theorem resetTimer_restores_witness:
  "timeLeft (fst (timer_step \<lparr>now = 7, hidden = False, granted = False\<rparr>
      (timer_init\<lparr>mode := Long, timeLeft := 0, isAlarmRinging := True\<rparr>) ResetTimer)) = 900
   \<and> \<not> isAlarmRinging (fst (timer_step \<lparr>now = 7, hidden = False, granted = False\<rparr>
      (timer_init\<lparr>mode := Long, timeLeft := 0, isAlarmRinging := True\<rparr>) ResetTimer))"
  using resetTimer_restores [of "\<lparr>now = 7, hidden = False, granted = False\<rparr>"
      "timer_init\<lparr>mode := Long, timeLeft := 0, isAlarmRinging := True\<rparr>"]
  by simp

text \<open>
  C11.  Adjusting the custom duration acts only in the custom mode on an inactive
  timer, and then sets both the custom time and the display to the sum clamped at
  0; otherwise the state is unchanged.
\<close>

theorem adjustTime_clamps:
  "timer_step e s (AdjustTime a) =
     (if mode s = Custom \<and> \<not> isActive s
      then s\<lparr>customTime := max 0 (customTime s + a), timeLeft := max 0 (customTime s + a)\<rparr>
      else s, [])"
  by (simp add: timer_step_handler adjustTime_def Let_def)

text \<open>The specification's example: -999999 seconds from a custom time of 30 gives 0.\<close>

theorem adjustTime_clamps_witness:
  "customTime (fst (timer_step \<lparr>now = 7, hidden = False, granted = False\<rparr>
      (timer_init\<lparr>mode := Custom, customTime := 30, timeLeft := 30\<rparr>) (AdjustTime (-999999)))) = 0"
  using adjustTime_clamps [of "\<lparr>now = 7, hidden = False, granted = False\<rparr>"
      "timer_init\<lparr>mode := Custom, customTime := 30, timeLeft := 30\<rparr>" "-999999"]
  by (simp add: timer_init_def)

end
