(* ===== verification/Json.thy ===== *)
theory Json
  imports Prelude
begin

text \<open>
  The part of the browser's \<open>JSON.stringify\<close> and \<open>JSON.parse\<close> the settings store
  relies on (\<open>src/src/App.jsx\<close> lines 48--51 and 69--71): a list of alarm records
  with three string fields \<open>id\<close>, \<open>name\<close>, \<open>data\<close>, serialised without whitespace
  and with the fields in that order.  String escaping follows \<open>QuoteJSONString\<close>:
  \<open>"\<close> and \<open>\\\<close> and the control characters \<open>\b \t \n \f \r\<close> get a short
  escape, the other characters below 0x20 a \<open>\u00xx\<close> escape, every other character is
  copied (characters are modelled as bytes, so a non-ASCII name is its UTF-8 bytes,
  each copied).  The reader accepts the canonical text the writer produces and reads
  every escape of the JSON grammar; text with whitespace, other key orders or other
  values is outside the model and read as malformed.
\<close>

record custom_alarm =
  alarm_id :: string
  name :: string
  data :: string

definition bslash :: char where "bslash = CHR 0x5C"
definition dquote :: char where "dquote = CHR 0x22"

definition hex_digit :: "nat \<Rightarrow> char" where
  "hex_digit d = (if d < 10 then char_of (48 + d) else char_of (87 + d))"

definition json_escape :: "char \<Rightarrow> string" where
  "json_escape c =
     (let n = (of_char c :: nat) in
      if n = 8 then [bslash, CHR ''b''] else if n = 9 then [bslash, CHR ''t'']
      else if n = 10 then [bslash, CHR ''n''] else if n = 12 then [bslash, CHR ''f'']
      else if n = 13 then [bslash, CHR ''r''] else if n = 34 then [bslash, dquote]
      else if n = 92 then [bslash, bslash]
      else if n < 32 then [bslash, CHR ''u'', CHR ''0'', CHR ''0'', hex_digit (n div 16), hex_digit (n mod 16)]
      else [c])"

definition json_str :: "string \<Rightarrow> string" where
  "json_str s = dquote # concat (map json_escape s) @ [dquote]"

text \<open>The text before each field value: \<open>{"id":\<close>, \<open>,"name":\<close> and \<open>,"data":\<close>.\<close>

definition key_id :: string where "key_id = ''{'' @ json_str ''id'' @ '':''"
definition key_name :: string where "key_name = '','' @ json_str ''name'' @ '':''"
definition key_data :: string where "key_data = '','' @ json_str ''data'' @ '':''"

definition json_alarm :: "custom_alarm \<Rightarrow> string" where
  "json_alarm a =
     key_id @ json_str (alarm_id a) @ key_name @ json_str (name a) @ key_data @ json_str (data a) @ ''}''"

text \<open>The elements after the opening bracket: separated by commas, then the closing bracket.\<close>

fun json_items :: "custom_alarm list \<Rightarrow> string" where
  "json_items [] = '']''"
| "json_items [a] = json_alarm a @ '']''"
| "json_items (a # as) = json_alarm a @ '','' @ json_items as"

definition json_alarms :: "custom_alarm list \<Rightarrow> string" where
  "json_alarms as = ''['' @ json_items as"

subsection \<open>Reading\<close>

definition hex_val :: "char \<Rightarrow> nat option" where
  "hex_val c =
     (let n = (of_char c :: nat) in
      if 48 \<le> n \<and> n \<le> 57 then Some (n - 48)
      else if 97 \<le> n \<and> n \<le> 102 then Some (n - 87)
      else if 65 \<le> n \<and> n \<le> 70 then Some (n - 55) else None)"

definition short_unescape :: "char \<Rightarrow> char option" where
  "short_unescape e =
     (if e = CHR ''b'' then Some (char_of (8::nat)) else if e = CHR ''t'' then Some (char_of (9::nat))
      else if e = CHR ''n'' then Some (char_of (10::nat)) else if e = CHR ''f'' then Some (char_of (12::nat))
      else if e = CHR ''r'' then Some (char_of (13::nat)) else if e = dquote then Some dquote
      else if e = bslash then Some bslash else if e = CHR ''/'' then Some (CHR ''/'') else None)"

definition unicode_char :: "char \<Rightarrow> char \<Rightarrow> char \<Rightarrow> char \<Rightarrow> char option" where
  "unicode_char a b c d =
     (case (hex_val a, hex_val b, hex_val c, hex_val d) of
        (Some x, Some y, Some z, Some w) \<Rightarrow>
          let n = ((x * 16 + y) * 16 + z) * 16 + w in if n < 256 then Some (char_of n) else None
      | _ \<Rightarrow> None)"

definition cons_fst :: "char \<Rightarrow> (string \<times> string) option \<Rightarrow> (string \<times> string) option" where
  "cons_fst d x = map_option (\<lambda>(s, r). (d # s, r)) x"

text \<open>The body of a string literal after its opening quote: the decoded text and the
  rest after the closing quote.\<close>

fun json_unstr :: "string \<Rightarrow> (string \<times> string) option" where
  "json_unstr [] = None"
| "json_unstr (c # cs) =
     (if c = dquote then Some ([], cs)
      else if c = bslash then
        (case cs of
           [] \<Rightarrow> None
         | e # cs1 \<Rightarrow>
             (case short_unescape e of
                Some d \<Rightarrow> cons_fst d (json_unstr cs1)
              | None \<Rightarrow>
                  if e = CHR ''u'' then
                    (case cs1 of
                       a # b # x # y # cs2 \<Rightarrow>
                         (case unicode_char a b x y of
                            Some d \<Rightarrow> cons_fst d (json_unstr cs2)
                          | None \<Rightarrow> None)
                     | _ \<Rightarrow> None)
                  else None))
      else if (of_char c :: nat) < 32 then None
      else cons_fst c (json_unstr cs))"

definition json_field :: "string \<Rightarrow> string \<Rightarrow> (string \<times> string) option" where
  "json_field key inp =
     (if take (length key) inp = key then
        (case drop (length key) inp of
           c # r \<Rightarrow> if c = dquote then json_unstr r else None
         | [] \<Rightarrow> None)
      else None)"

definition json_read_alarm :: "string \<Rightarrow> (custom_alarm \<times> string) option" where
  "json_read_alarm inp =
     (case json_field key_id inp of
        None \<Rightarrow> None
      | Some (i, r1) \<Rightarrow>
          (case json_field key_name r1 of
             None \<Rightarrow> None
           | Some (n, r2) \<Rightarrow>
               (case json_field key_data r2 of
                  None \<Rightarrow> None
                | Some (d, r3) \<Rightarrow>
                    (case r3 of
                       c # r4 \<Rightarrow> if c = CHR ''}'' then Some (\<lparr>alarm_id = i, name = n, data = d\<rparr>, r4) else None
                     | [] \<Rightarrow> None))))"

lemma cons_fst_Some [simp]: "cons_fst d x = Some (s, r) \<longleftrightarrow> (\<exists>s'. x = Some (s', r) \<and> s = d # s')"
  by (cases x) (auto simp: cons_fst_def)

lemma cons_fst_None [simp]: "cons_fst d x = None \<longleftrightarrow> x = None"
  by (simp add: cons_fst_def)

lemma json_unstr_shorter: "json_unstr inp = Some (s, r) \<Longrightarrow> length r < length inp"
proof (induction inp arbitrary: s rule: json_unstr.induct)
  case 1
  then show ?case by simp
next
  case (2 c cs)
  show ?case
  proof (cases "c = dquote \<or> c \<noteq> bslash")
    case True
    with "2.prems" "2.IH"(3) show ?thesis by (fastforce split: if_splits)
  next
    case False
    then obtain e cs1 where cs: "cs = e # cs1" using "2.prems" by (cases cs) auto
    show ?thesis
    proof (cases "short_unescape e")
      case (Some d)
      with False cs "2.prems" "2.IH"(2) [of e cs1 d] show ?thesis by fastforce
    next
      case None
      with False cs "2.prems" obtain a b x y cs2 d where
        cs1: "cs1 = a # b # x # y # cs2" and u: "e = CHR ''u''" and d: "unicode_char a b x y = Some d"
        by (auto split: if_splits list.splits option.splits)
      with False cs None "2.prems" "2.IH"(1) [of e cs1 a _ b _ x _ y cs2 d] show ?thesis by fastforce
    qed
  qed
qed

lemma json_field_shorter:
  assumes "json_field key inp = Some (s, r)"
  shows "length r < length inp"
proof -
  obtain c r0 where d: "drop (length key) inp = c # r0" and u: "json_unstr r0 = Some (s, r)"
    using assms by (auto simp: json_field_def split: if_splits list.split_asm)
  have "length r < length r0" using u by (rule json_unstr_shorter)
  moreover have "length r0 < length inp" using arg_cong [OF d, of length] by simp
  ultimately show ?thesis by simp
qed

lemma json_read_alarm_shorter:
  assumes "json_read_alarm inp = Some (a, r)"
  shows "length r < length inp"
proof -
  obtain i r1 n r2 d r3 c where
    f1: "json_field key_id inp = Some (i, r1)" and
    f2: "json_field key_name r1 = Some (n, r2)" and
    f3: "json_field key_data r2 = Some (d, r3)" and
    r3: "r3 = c # r"
    using assms by (auto simp: json_read_alarm_def split: option.split_asm list.split_asm if_splits)
  from f1 f2 f3 r3 show ?thesis by (auto dest!: json_field_shorter)
qed

function json_read_items :: "string \<Rightarrow> (custom_alarm list \<times> string) option" where
  "json_read_items inp =
     (case json_read_alarm inp of
        None \<Rightarrow> None
      | Some (a, r) \<Rightarrow>
          (case r of
             c # r' \<Rightarrow>
               if c = CHR '','' then map_option (\<lambda>(as, r''). (a # as, r'')) (json_read_items r')
               else if c = CHR '']'' then Some ([a], r')
               else None
           | [] \<Rightarrow> None))"
  by pat_completeness auto
termination
  by (relation "measure length") (auto dest: json_read_alarm_shorter)

definition json_read_alarms :: "string \<Rightarrow> custom_alarm list option" where
  "json_read_alarms inp =
     (if inp = ''[]'' then Some []
      else case inp of
             c # r \<Rightarrow>
               if c = CHR ''['' then
                 (case json_read_items r of Some (as, []) \<Rightarrow> Some as | _ \<Rightarrow> None)
               else None
           | [] \<Rightarrow> None)"

subsection \<open>Writing then reading gives back the value\<close>

lemma hex_val_hex_digit [simp]: "d < 16 \<Longrightarrow> hex_val (hex_digit d) = Some d"
  by (simp add: hex_val_def hex_digit_def Let_def)

lemma hex_val_zero [simp]: "hex_val (CHR ''0'') = Some 0"
  by (simp add: hex_val_def)

lemma of_char_dquote [simp]: "(of_char dquote :: nat) = 34"
  by (simp add: dquote_def)

lemma of_char_bslash [simp]: "(of_char bslash :: nat) = 92"
  by (simp add: bslash_def)

lemma bslash_neq_dquote [simp]: "bslash \<noteq> dquote"
  by (simp add: bslash_def dquote_def)

lemma char_of_quote_bslash: "char_of (34::nat) = CHR 0x22" "char_of (92::nat) = CHR 0x5C"
  by (simp_all add: char_of_eq_iff)

lemma json_unstr_plain:
  "(of_char c :: nat) \<ge> 32 \<Longrightarrow> c \<noteq> dquote \<Longrightarrow> c \<noteq> bslash \<Longrightarrow> json_unstr (c # rest) = cons_fst c (json_unstr rest)"
  by simp

lemma json_unstr_escape:
  "json_unstr (json_escape c @ rest) = cons_fst c (json_unstr rest)"
proof -
  define n where "n = (of_char c :: nat)"
  have c: "c = char_of n" by (simp add: n_def)
  have n256: "n < 256" by (simp add: n_def)
  have dq: "c = dquote \<longleftrightarrow> n = 34"
  proof
    assume "n = 34"
    then have "(of_char c :: nat) = of_char dquote" by (simp add: n_def)
    then show "c = dquote" by (simp only: of_char_eq_iff)
  qed (simp add: n_def)
  have bs: "c = bslash \<longleftrightarrow> n = 92"
  proof
    assume "n = 92"
    then have "(of_char c :: nat) = of_char bslash" by (simp add: n_def)
    then show "c = bslash" by (simp only: of_char_eq_iff)
  qed (simp add: n_def)
  consider "n \<in> {8, 9, 10, 12, 13, 34, 92}" | "n < 32" "n \<notin> {8, 9, 10, 12, 13}"
    | "32 \<le> n" "n \<noteq> 34" "n \<noteq> 92" by force
  then show ?thesis
  proof cases
    case 1
    then show ?thesis using c
      by (auto simp: json_escape_def short_unescape_def bslash_def dquote_def n_def [symmetric]
          char_of_quote_bslash)
  next
    case 2
    have "n div 16 < 16" and "(n div 16) * 16 + n mod 16 = n" using 2 by simp_all
    then show ?thesis using 2 c
      by (simp add: json_escape_def Let_def n_def [symmetric] short_unescape_def unicode_char_def
          bslash_def dquote_def)
  next
    case 3
    then have "json_escape c = [c]" by (simp add: json_escape_def n_def [symmetric])
    with 3 dq bs show ?thesis by (simp add: json_unstr_plain n_def [symmetric])
  qed
qed

lemma json_unstr_str: "json_unstr (concat (map json_escape s) @ dquote # rest) = Some (s, rest)"
  by (induction s) (simp_all add: json_unstr_escape)

lemma json_field_str: "json_field key (key @ json_str s @ rest) = Some (s, rest)"
  by (simp add: json_field_def json_str_def json_unstr_str)

lemma json_read_alarm_json: "json_read_alarm (json_alarm a @ rest) = Some (a, rest)"
proof -
  have "json_alarm a @ rest =
          key_id @ json_str (alarm_id a) @ (key_name @ json_str (name a) @
            (key_data @ json_str (data a) @ (CHR ''}'' # rest)))"
    by (simp add: json_alarm_def)
  then show ?thesis by (simp add: json_read_alarm_def json_field_str)
qed

lemma json_read_items_json: "as \<noteq> [] \<Longrightarrow> json_read_items (json_items as @ rest) = Some (as, rest)"
proof (induction as rule: json_items.induct)
  case 1
  then show ?case by simp
next
  case (2 a)
  have "json_items [a] @ rest = json_alarm a @ CHR '']'' # rest" by simp
  then show ?case by (simp add: json_read_items.simps [of "json_items [a] @ rest"] json_read_alarm_json)
next
  case (3 a b as)
  have e: "json_items (a # b # as) @ rest = json_alarm a @ CHR '','' # (json_items (b # as) @ rest)" by simp
  have "json_read_items (json_items (b # as) @ rest) = Some (b # as, rest)" using "3.IH" by simp
  then show ?case
    by (simp add: e json_read_items.simps [of "json_alarm a @ CHR '','' # (json_items (b # as) @ rest)"]
        json_read_alarm_json)
qed

lemma json_items_hd: "as \<noteq> [] \<Longrightarrow> hd (json_items as) = CHR ''{''"
  by (cases as rule: json_items.cases) (simp_all add: json_alarm_def key_id_def)

lemma json_read_alarms_json: "json_read_alarms (json_alarms as) = Some as"
proof (cases "as = []")
  case True
  then show ?thesis by (simp add: json_alarms_def json_read_alarms_def)
next
  case False
  then have "json_items as \<noteq> '']''" using json_items_hd [OF False] by auto
  moreover have "json_read_items (json_items as @ []) = Some (as, [])"
    using False by (rule json_read_items_json)
  ultimately show ?thesis by (simp add: json_alarms_def json_read_alarms_def)
qed

end
