(* ===== verification/Format.thy ===== *)
theory Format
  imports Prelude
begin

text \<open>
  \<open>formatTime\<close> of \<open>src/src/App.jsx\<close> (lines 28--37), the clock display: \<open>H:MM:SS\<close>
  from one hour on, \<open>MM:SS\<close> below.  The JavaScript it uses is written out:
  \<open>Number.prototype.toString()\<close> on an integral number is \<open>int_str\<close> (decimal digits,
  a minus sign for a negative number; exact below \<open>10^21\<close>), \<open>padStart(2, '0')\<close> is
  \<open>padStart2\<close>, \<open>Math.floor(a / b)\<close> on integral numbers is \<open>div\<close> and \<open>%\<close> is
  \<open>js_rem\<close>.  \<open>parse_time\<close> is a reference reader of the display format (not part
  of the program) against which the display is shown to lose no information.
\<close>

definition digit_char :: "nat \<Rightarrow> char" where
  "digit_char d = char_of (48 + d)"

fun nat_str :: "nat \<Rightarrow> string" where
  "nat_str n = (if n < 10 then [digit_char n] else nat_str (n div 10) @ [digit_char (n mod 10)])"

definition int_str :: "int \<Rightarrow> string" where
  "int_str i = (if i < 0 then CHR ''-'' # nat_str (nat (- i)) else nat_str (nat i))"

definition padStart2 :: "string \<Rightarrow> string" where
  "padStart2 str = replicate (2 - length str) (CHR ''0'') @ str"

definition formatTime :: "int \<Rightarrow> string" where
  "formatTime seconds =
     (let h = seconds div 3600;
          m = js_rem seconds 3600 div 60;
          s = js_rem seconds 60
      in if h > 0 then int_str h @ '':'' @ padStart2 (int_str m) @ '':'' @ padStart2 (int_str s)
         else padStart2 (int_str m) @ '':'' @ padStart2 (int_str s))"

subsection \<open>A reference reader of the display\<close>

definition is_digit :: "char \<Rightarrow> bool" where
  "is_digit c \<longleftrightarrow> 48 \<le> (of_char c :: nat) \<and> (of_char c :: nat) \<le> 57"

fun digits_val :: "string \<Rightarrow> nat \<Rightarrow> nat option" where
  "digits_val [] acc = Some acc"
| "digits_val (c # cs) acc =
     (if is_digit c then digits_val cs (10 * acc + (of_char c - 48)) else None)"

definition parse_nat :: "string \<Rightarrow> nat option" where
  "parse_nat str = (if str = [] then None else digits_val str 0)"

fun split_colon :: "string \<Rightarrow> string list" where
  "split_colon [] = [[]]"
| "split_colon (c # cs) =
     (let fs = split_colon cs in if c = CHR '':'' then [] # fs else (c # hd fs) # tl fs)"

definition parse_time :: "string \<Rightarrow> int option" where
  "parse_time str =
     (case split_colon str of
        [mm, ss] \<Rightarrow>
          (case (parse_nat mm, parse_nat ss) of
             (Some m, Some s) \<Rightarrow> if m < 60 \<and> s < 60 then Some (int (m * 60 + s)) else None
           | _ \<Rightarrow> None)
      | [hh, mm, ss] \<Rightarrow>
          (case (parse_nat hh, parse_nat mm, parse_nat ss) of
             (Some h, Some m, Some s) \<Rightarrow>
               if 0 < h \<and> m < 60 \<and> s < 60 then Some (int (h * 3600 + m * 60 + s)) else None
           | _ \<Rightarrow> None)
      | _ \<Rightarrow> None)"

declare nat_str.simps [simp del]

subsection \<open>Digits\<close>

lemma of_char_digit_char [simp]: "d < 10 \<Longrightarrow> (of_char (digit_char d) :: nat) = 48 + d"
  by (simp add: digit_char_def)

lemma is_digit_digit_char [simp]: "d < 10 \<Longrightarrow> is_digit (digit_char d)"
  by (simp add: is_digit_def)

lemma digit_char_not_colon [simp]: "d < 10 \<Longrightarrow> digit_char d \<noteq> CHR '':''"
proof
  assume "d < 10" "digit_char d = CHR '':''"
  then have "(of_char (digit_char d) :: nat) = of_char (CHR '':'')" by simp
  with \<open>d < 10\<close> show False by simp
qed

lemma nat_str_digits: "c \<in> set (nat_str n) \<Longrightarrow> is_digit c \<and> c \<noteq> CHR '':''"
proof (induction n rule: nat_str.induct)
  case (1 n)
  show ?case
  proof (cases "n < 10")
    case True
    with "1.prems" show ?thesis by (simp add: nat_str.simps [of n])
  next
    case False
    with "1.prems" have "c \<in> set (nat_str (n div 10)) \<or> c = digit_char (n mod 10)"
      by (auto simp: nat_str.simps [of n])
    with "1.IH" False show ?thesis by auto
  qed
qed

lemma colon_notin_nat_str [simp]: "CHR '':'' \<notin> set (nat_str n)"
  using nat_str_digits by blast

lemma nat_str_not_Nil [simp]: "nat_str n \<noteq> []"
  by (simp add: nat_str.simps [of n])

lemma digits_val_append:
  "digits_val (xs @ ys) acc = (case digits_val xs acc of None \<Rightarrow> None | Some a \<Rightarrow> digits_val ys a)"
  by (induction xs acc rule: digits_val.induct) simp_all

lemma digits_val_nat_str: "digits_val (nat_str n) 0 = Some n"
proof (induction n rule: nat_str.induct)
  case (1 n)
  show ?case
  proof (cases "n < 10")
    case True
    then show ?thesis by (simp add: nat_str.simps [of n])
  next
    case False
    with "1.IH" have "digits_val (nat_str (n div 10)) 0 = Some (n div 10)" by simp
    then show ?thesis using False by (simp add: nat_str.simps [of n] digits_val_append)
  qed
qed

lemma length_nat_str_small: "n < 100 \<Longrightarrow> length (nat_str n) = (if n < 10 then 1 else 2)"
proof -
  assume "n < 100"
  then have "n div 10 < 10" by presburger
  then show ?thesis by (simp add: nat_str.simps [of n] nat_str.simps [of "n div 10"])
qed

lemma parse_nat_padStart2:
  assumes "n < 100"
  shows "parse_nat (padStart2 (nat_str n)) = Some n"
proof (cases "n < 10")
  case True
  then have "padStart2 (nat_str n) = CHR ''0'' # nat_str n"
    by (simp add: padStart2_def length_nat_str_small)
  then show ?thesis
    using digits_val_nat_str [of n] by (simp add: parse_nat_def is_digit_def)
next
  case False
  with assms have "padStart2 (nat_str n) = nat_str n"
    by (simp add: padStart2_def length_nat_str_small)
  then show ?thesis using digits_val_nat_str [of n] by (simp add: parse_nat_def)
qed

lemma colon_notin_padStart2 [simp]: "CHR '':'' \<notin> set (padStart2 (nat_str n))"
  by (simp add: padStart2_def)

lemma split_colon_no_colon: "CHR '':'' \<notin> set xs \<Longrightarrow> split_colon xs = [xs]"
  by (induction xs) (auto simp: Let_def)

lemma split_colon_append:
  "CHR '':'' \<notin> set xs \<Longrightarrow> split_colon (xs @ CHR '':'' # ys) = xs # split_colon ys"
  by (induction xs) (auto simp: Let_def)

lemma int_str_nonneg [simp]: "0 \<le> i \<Longrightarrow> int_str i = nat_str (nat i)"
  by (simp add: int_str_def)

lemma parse_nat_nat_str [simp]: "parse_nat (nat_str n) = Some n"
  by (simp add: parse_nat_def digits_val_nat_str)

lemma nat_str_inj [simp]: "nat_str a = nat_str b \<longleftrightarrow> a = b"
  by (metis parse_nat_nat_str option.inject)

lemma seconds_split:
  fixes n :: int
  assumes "0 \<le> n"
  shows "n = n div 3600 * 3600 + n mod 3600 div 60 * 60 + n mod 60"
    and "n mod 3600 div 60 < 60" and "n mod 60 < 60"
proof -
  have "n mod 60 = n mod 3600 mod 60" by (simp add: mod_mod_cancel)
  then have "n mod 3600 = n mod 3600 div 60 * 60 + n mod 60" by simp
  then show "n = n div 3600 * 3600 + n mod 3600 div 60 * 60 + n mod 60"
    using div_mult_mod_eq [of n 3600] by linarith
  show "n mod 3600 div 60 < 60" by simp
  show "n mod 60 < 60" by simp
qed

lemma padStart2_small_length: "n < 60 \<Longrightarrow> length (padStart2 (nat_str n)) = 2"
  by (simp add: padStart2_def length_nat_str_small)

lemma formatTime_nonneg:
  assumes "0 \<le> n"
  shows "formatTime n =
     (if 0 < n div 3600
      then nat_str (nat (n div 3600)) @ CHR '':'' # padStart2 (nat_str (nat (n mod 3600 div 60)))
             @ CHR '':'' # padStart2 (nat_str (nat (n mod 60)))
      else padStart2 (nat_str (nat (n mod 3600 div 60))) @ CHR '':'' # padStart2 (nat_str (nat (n mod 60))))"
  using assms by (simp add: formatTime_def Let_def)

subsection \<open>Properties of the display\<close>

text \<open>
  C12.  Round trip: the display of any non-negative number of seconds reads back,
  with the reference reader, as that number; in particular two different counts are
  never displayed alike.
\<close>

theorem formatTime_roundtrip: "0 \<le> n \<Longrightarrow> parse_time (formatTime n) = Some n"
proof -
  assume n: "0 \<le> n"
  define h where "h = nat (n div 3600)"
  define m where "m = nat (n mod 3600 div 60)"
  define s where "s = nat (n mod 60)"
  have m60: "m < 60" and s60: "s < 60" using seconds_split [OF n] by (simp_all add: m_def s_def)
  have "0 \<le> n div 3600" and "0 \<le> n mod 3600 div 60" and "0 \<le> n mod 60" using n by simp_all
  then have "int (h * 3600 + m * 60 + s) = n div 3600 * 3600 + n mod 3600 div 60 * 60 + n mod 60"
    by (simp add: h_def m_def s_def)
  then have val: "int h * 3600 + int m * 60 + int s = n" using seconds_split(1) [OF n] by simp
  have pm: "parse_nat (padStart2 (nat_str m)) = Some m" using m60 by (simp add: parse_nat_padStart2)
  have ps: "parse_nat (padStart2 (nat_str s)) = Some s" using s60 by (simp add: parse_nat_padStart2)
  show ?thesis
  proof (cases "0 < n div 3600")
    case True
    then have "0 < h" by (simp add: h_def)
    have "formatTime n = nat_str h @ CHR '':'' # padStart2 (nat_str m) @ CHR '':'' # padStart2 (nat_str s)"
      using True by (simp add: formatTime_nonneg [OF n] h_def m_def s_def)
    with \<open>0 < h\<close> show ?thesis using m60 s60 pm ps val
      by (simp add: parse_time_def split_colon_append split_colon_no_colon)
  next
    case False
    then have "h = 0" by (simp add: h_def)
    have "formatTime n = padStart2 (nat_str m) @ CHR '':'' # padStart2 (nat_str s)"
      using False by (simp add: formatTime_nonneg [OF n] m_def s_def)
    with \<open>h = 0\<close> show ?thesis using m60 s60 pm ps val
      by (simp add: parse_time_def split_colon_append split_colon_no_colon)
  qed
qed

theorem formatTime_roundtrip_witness: "0 \<le> (3725::int) \<and> parse_time (formatTime 3725) = Some 3725"
  using formatTime_roundtrip [of 3725] by simp

text \<open>
  C13.  From one hour on, the display is the number of whole hours, a colon, and the
  display of the remainder below one hour.
\<close>

theorem formatTime_hours:
  "3600 \<le> n \<Longrightarrow> formatTime n = int_str (n div 3600) @ CHR '':'' # formatTime (n mod 3600)"
proof -
  assume "3600 \<le> n"
  then have n: "0 \<le> n" and h: "0 < n div 3600" by simp_all
  have r: "0 \<le> n mod 3600" by simp
  have "n mod 3600 div 3600 = 0" and "n mod 3600 mod 3600 = n mod 3600"
    and "n mod 3600 mod 60 = n mod 60" by (simp_all add: mod_mod_cancel)
  then show ?thesis using h n by (simp add: formatTime_nonneg [OF n] formatTime_nonneg [OF r])
qed

theorem formatTime_hours_witness:
  "3600 \<le> (3725::int) \<and> formatTime 3725 = ''1:02:05''"
  using formatTime_hours [of 3725]
  by (simp add: formatTime_def padStart2_def nat_str.simps digit_char_def char_of_eq_iff int_str_def)

text \<open>
  C14.  Below one hour the display has the fixed shape \<open>MM:SS\<close>: five characters
  with the colon in the middle, the minutes and the seconds each two digits.
\<close>

theorem formatTime_below_hour:
  assumes "0 \<le> n" and "n < 3600"
  shows "length (formatTime n) = 5 \<and> formatTime n ! 2 = CHR '':''
         \<and> (\<forall>i \<in> {0, 1, 3, 4}. is_digit (formatTime n ! i))"
proof -
  have h: "\<not> 0 < n div 3600" using assms by simp
  have m60: "nat (n mod 3600 div 60) < 60" and s60: "nat (n mod 60) < 60"
    using seconds_split [OF assms(1)] by simp_all
  obtain a b where ab: "padStart2 (nat_str (nat (n mod 3600 div 60))) = [a, b]"
    using padStart2_small_length [OF m60] by (auto simp: length_Suc_conv numeral_2_eq_2)
  obtain c d where cd: "padStart2 (nat_str (nat (n mod 60))) = [c, d]"
    using padStart2_small_length [OF s60] by (auto simp: length_Suc_conv numeral_2_eq_2)
  have "\<forall>x \<in> set (padStart2 (nat_str k)). is_digit x" for k
    using nat_str_digits by (auto simp: padStart2_def is_digit_def)
  then have "is_digit a \<and> is_digit b \<and> is_digit c \<and> is_digit d"
    using ab cd by (metis list.set_intros(1) list.set_intros(2))
  then show ?thesis using h ab cd by (simp add: formatTime_nonneg [OF assms(1)])
qed

theorem formatTime_below_hour_witness:
  "0 \<le> (1500::int) \<and> 1500 < (3600::int) \<and> length (formatTime 1500) = 5 \<and> formatTime 1500 ! 2 = CHR '':''"
  using formatTime_below_hour [of 1500] by simp

end
