(* ===== verification/Settings.thy ===== *)
theory Settings
  imports Json Format Audio
begin

text \<open>
  The settings store of \<open>src/src/App.jsx\<close>: the custom alarm list and the selected
  alarm (React state initialised from \<open>localStorage\<close>, lines 47--54), the options
  modal flag, the effects that persist both and point the audio element at the
  selected sound (lines 68--88), and the handlers of the options modal: selecting,
  uploading (lines 235--255) and deleting (lines 257--262) alarms.

  \<^item> \<open>localStorage\<close> is a map from keys to strings.
  \<^item> React compares the alarm array by reference: every \<open>setCustomAlarms\<close> call
    passes a new array, so its effects run even when the contents are equal.  The
    model counts array identities in \<open>alarmsRef\<close>, bumped by every such call.
  \<^item> \<open>FileReader\<close> is asynchronous: \<open>handleFileChange\<close> starts a read whose
    \<open>onload\<close> closure holds the file name and the \<open>customAlarms\<close> array of the
    render that created the handler.  Pending reads are the list \<open>readers\<close>; they
    complete (or fail) in any order, as the events \<open>ReaderLoad\<close> and
    \<open>ReaderError\<close> with the position of the read.
  \<^item> The controls of the modal exist only while it is open and only for the
    alarms it lists, so an event for a control that is not rendered does nothing.
  \<^item> \<open>JSON.parse\<close> of malformed text throws inside the state initialiser, which
    aborts the mount: \<open>load_settings\<close> returns \<open>Inl JsonParseError\<close> then.  The
    reader \<open>json_read_alarms\<close> accepts exactly the text \<open>json_alarms\<close> writes, so the
    loading functions are exact on storage the program wrote; other valid JSON
    (spaces between tokens, another key order) is rejected by the model.
  \<^item> \<open>localStorage.setItem\<close> throws \<open>QuotaExceededError\<close> when the storage area
    would exceed its quota.  The throw happens inside a persisting effect, where
    nothing catches it, so React unmounts the application.  \<open>settings_commit\<close>
    is the commit in which every save succeeds; \<open>settings_commit_checked\<close> adds
    the quota check and returns \<open>Inl QuotaExceededError\<close> for the crash.
\<close>

type_synonym storage = "string \<Rightarrow> string option"

datatype settings_error = JsonParseError | QuotaExceededError

record file_info =
  fname :: string
  fsize :: nat

record settings =
  customAlarms :: "custom_alarm list"
  alarmsRef :: nat
  selectedAlarm :: string
  isOptionsOpen :: bool
  readers :: "(string \<times> custom_alarm list) list"
  storage :: storage

text \<open>The message of \<open>alert\<close> on an oversized file (line 239).\<close>

definition too_large_msg :: string where
  "too_large_msg = ''File is too large! Please choose a file under 2MB.''"

definition max_alarm_size :: nat where
  "max_alarm_size = 2 * 1024 * 1024"

subsection \<open>Loading and saving\<close>

text \<open>The \<open>useState\<close> initialisers (lines 48--54): a missing or empty entry gives
  the default; \<open>getItem(...) || 'default'\<close> also replaces an empty string.\<close>

definition load_alarms :: "storage \<Rightarrow> settings_error + custom_alarm list" where
  "load_alarms st =
     (case st ''customAlarms'' of
        None \<Rightarrow> Inr []
      | Some saved \<Rightarrow>
          if saved = [] then Inr []
          else (case json_read_alarms saved of None \<Rightarrow> Inl JsonParseError | Some as \<Rightarrow> Inr as))"

definition load_selected :: "storage \<Rightarrow> string" where
  "load_selected st =
     (case st ''selectedAlarm'' of None \<Rightarrow> ''default'' | Some v \<Rightarrow> if v = [] then ''default'' else v)"

definition load_settings :: "storage \<Rightarrow> settings_error + custom_alarm list \<times> string" where
  "load_settings st =
     (case load_alarms st of Inl err \<Rightarrow> Inl err | Inr as \<Rightarrow> Inr (as, load_selected st))"

text \<open>The two persisting effects (lines 69--71 and 74--76).\<close>

definition save_alarms :: "custom_alarm list \<Rightarrow> storage \<Rightarrow> storage" where
  "save_alarms as st = st(''customAlarms'' \<mapsto> json_alarms as)"

definition save_selected :: "string \<Rightarrow> storage \<Rightarrow> storage" where
  "save_selected sel st = st(''selectedAlarm'' \<mapsto> sel)"

text \<open>The space the application's entries take in the storage area: the characters
  of each key and its value.  The origin of the packaged page holds no other
  entries, so this is what the quota limits.\<close>

definition entry_size :: "storage \<Rightarrow> string \<Rightarrow> nat" where
  "entry_size st k = (case st k of None \<Rightarrow> 0 | Some v \<Rightarrow> length k + length v)"

definition storage_used :: "storage \<Rightarrow> nat" where
  "storage_used st = entry_size st ''customAlarms'' + entry_size st ''selectedAlarm''"

text \<open>\<open>localStorage.setItem(k, v)\<close> (lines 70 and 75) with a quota of \<open>q\<close>
  characters: the entry is written, or \<open>QuotaExceededError\<close> is thrown and the
  storage is left as it was.\<close>

definition setItem :: "nat \<Rightarrow> string \<Rightarrow> string \<Rightarrow> storage \<Rightarrow> settings_error + storage" where
  "setItem q k v st = (if storage_used (st(k \<mapsto> v)) \<le> q then Inr (st(k \<mapsto> v)) else Inl QuotaExceededError)"

text \<open>The effect that points the audio element at the selected sound (lines 79--88):
  an unknown id leaves the source as it was.\<close>

definition audio_src_effect :: "custom_alarm list \<Rightarrow> string \<Rightarrow> effect list" where
  "audio_src_effect as sel =
     (if sel = ''default'' then [AudioCmd (ASetSrc DefaultSound)]
      else (case find (\<lambda>a. alarm_id a = sel) as of
              Some a \<Rightarrow> [AudioCmd (ASetSrc (DataUrl (data a)))]
            | None \<Rightarrow> []))"

subsection \<open>Handlers\<close>

text \<open>\<open>handleFileChange\<close> (lines 235--255) up to the start of the read.\<close>

definition handleFileChange :: "file_info option \<Rightarrow> settings \<Rightarrow> settings \<times> effect list" where
  "handleFileChange file st =
     (case file of
        None \<Rightarrow> (st, [])
      | Some f \<Rightarrow>
          if fsize f > max_alarm_size then (st, [Alert too_large_msg])
          else (st\<lparr>readers := readers st @ [(fname f, customAlarms st)]\<rparr>, []))"

text \<open>\<open>reader.onload\<close> (lines 244--252): the new alarm gets \<open>Date.now().toString()\<close>
  as its id, is appended to the array the closure holds, and is selected.\<close>

definition reader_onload :: "ms \<Rightarrow> nat \<Rightarrow> string \<Rightarrow> settings \<Rightarrow> settings \<times> effect list" where
  "reader_onload t i url st =
     (if i < length (readers st) then
        (let (nm, snapshot) = readers st ! i;
             newAlarm = \<lparr>alarm_id = int_str t, name = nm, data = url\<rparr>
         in (st\<lparr>customAlarms := snapshot @ [newAlarm], alarmsRef := Suc (alarmsRef st),
                selectedAlarm := alarm_id newAlarm, readers := take i (readers st) @ drop (Suc i) (readers st)\<rparr>, []))
      else (st, []))"

text \<open>A read that fails fires no \<open>onload\<close> (the code sets no \<open>onerror\<close>).\<close>

definition reader_onerror :: "nat \<Rightarrow> settings \<Rightarrow> settings \<times> effect list" where
  "reader_onerror i st =
     (if i < length (readers st) then (st\<lparr>readers := take i (readers st) @ drop (Suc i) (readers st)\<rparr>, [])
      else (st, []))"

text \<open>\<open>deleteAlarm\<close> (lines 257--262).\<close>

definition deleteAlarm :: "string \<Rightarrow> settings \<Rightarrow> settings \<times> effect list" where
  "deleteAlarm i st =
     (st\<lparr>customAlarms := filter (\<lambda>a. alarm_id a \<noteq> i) (customAlarms st), alarmsRef := Suc (alarmsRef st),
         selectedAlarm := (if selectedAlarm st = i then ''default'' else selectedAlarm st)\<rparr>, [])"

text \<open>The alarm items' \<open>onClick\<close> (lines 603 and 612) and the modal's open and close
  controls (lines 305, 588, 593).\<close>

definition selectAlarm :: "string \<Rightarrow> settings \<Rightarrow> settings \<times> effect list" where
  "selectAlarm i st = (st\<lparr>selectedAlarm := i\<rparr>, [])"

definition setOptionsOpen :: "bool \<Rightarrow> settings \<Rightarrow> settings \<times> effect list" where
  "setOptionsOpen b st = (st\<lparr>isOptionsOpen := b\<rparr>, [])"

subsection \<open>Effects after a render, events and steps\<close>

text \<open>After a render, in declaration order: save the list if its array changed, save
  the selection if it changed, re-point the audio element if either changed.\<close>

definition settings_commit :: "settings \<Rightarrow> settings \<Rightarrow> settings \<times> effect list" where
  "settings_commit old st =
     (let listChanged = alarmsRef st \<noteq> alarmsRef old;
          selChanged = selectedAlarm st \<noteq> selectedAlarm old;
          st1 = (if listChanged then st\<lparr>storage := save_alarms (customAlarms st) (storage st)\<rparr> else st);
          st2 = (if selChanged then st1\<lparr>storage := save_selected (selectedAlarm st) (storage st1)\<rparr> else st1)
      in (st2, if listChanged \<or> selChanged then audio_src_effect (customAlarms st) (selectedAlarm st) else []))"

text \<open>The same commit with the quota of the storage area: the list is saved first,
  then the selection; a save that throws aborts the commit.\<close>

definition settings_commit_checked :: "nat \<Rightarrow> settings \<Rightarrow> settings \<Rightarrow> settings_error + settings \<times> effect list" where
  "settings_commit_checked q old st =
     (let listChanged = alarmsRef st \<noteq> alarmsRef old;
          selChanged = selectedAlarm st \<noteq> selectedAlarm old
      in case (if listChanged then setItem q ''customAlarms'' (json_alarms (customAlarms st)) (storage st)
               else Inr (storage st)) of
           Inl err \<Rightarrow> Inl err
         | Inr stg1 \<Rightarrow>
             (case (if selChanged then setItem q ''selectedAlarm'' (selectedAlarm st) stg1 else Inr stg1) of
                Inl err \<Rightarrow> Inl err
              | Inr stg2 \<Rightarrow> Inr (st\<lparr>storage := stg2\<rparr>,
                    if listChanged \<or> selChanged then audio_src_effect (customAlarms st) (selectedAlarm st) else [])))"

datatype settings_event =
    OpenOptions
  | CloseOptions
  | SelectAlarm string
  | FileChange "file_info option"
  | ReaderLoad nat string
  | ReaderError nat
  | DeleteAlarm string

text \<open>Whether the control that raises an event is rendered: the modal's controls
  exist while it is open, one select and one delete control per listed alarm plus
  the default item (lines 586--641).\<close>

definition settings_control :: "settings \<Rightarrow> settings_event \<Rightarrow> bool" where
  "settings_control st ev =
     (case ev of
        OpenOptions \<Rightarrow> True
      | CloseOptions \<Rightarrow> isOptionsOpen st
      | SelectAlarm i \<Rightarrow> isOptionsOpen st \<and> (i = ''default'' \<or> i \<in> alarm_id ` set (customAlarms st))
      | FileChange f \<Rightarrow> isOptionsOpen st
      | ReaderLoad i u \<Rightarrow> True
      | ReaderError i \<Rightarrow> True
      | DeleteAlarm i \<Rightarrow> isOptionsOpen st \<and> i \<in> alarm_id ` set (customAlarms st))"

fun settings_handler :: "env \<Rightarrow> settings_event \<Rightarrow> settings \<Rightarrow> settings \<times> effect list" where
  "settings_handler e OpenOptions st = setOptionsOpen True st"
| "settings_handler e CloseOptions st = setOptionsOpen False st"
| "settings_handler e (SelectAlarm i) st = selectAlarm i st"
| "settings_handler e (FileChange f) st = handleFileChange f st"
| "settings_handler e (ReaderLoad i u) st = reader_onload (now e) i u st"
| "settings_handler e (ReaderError i) st = reader_onerror i st"
| "settings_handler e (DeleteAlarm i) st = deleteAlarm i st"

definition settings_step :: "env \<Rightarrow> settings \<Rightarrow> settings_event \<Rightarrow> settings \<times> effect list" where
  "settings_step e st ev =
     (if settings_control st ev then
        (let (st', fx) = settings_handler e ev st; (st'', gx) = settings_commit st st' in (st'', fx @ gx))
      else (st, []))"

fun settings_run :: "settings \<Rightarrow> (env \<times> settings_event) list \<Rightarrow> settings \<times> effect list" where
  "settings_run st [] = (st, [])"
| "settings_run st ((e, ev) # evs) =
     (let (st1, fx1) = settings_step e st ev; (st2, fx2) = settings_run st1 evs in (st2, fx1 @ fx2))"

text \<open>The events that edit the list or the selection, or open or close the modal,
  without starting or completing a file read.\<close>

definition edit_event :: "settings_event \<Rightarrow> bool" where
  "edit_event ev =
     (case ev of OpenOptions \<Rightarrow> True | CloseOptions \<Rightarrow> True | SelectAlarm i \<Rightarrow> True | DeleteAlarm i \<Rightarrow> True
      | FileChange f \<Rightarrow> False | ReaderLoad i u \<Rightarrow> False | ReaderError i \<Rightarrow> False)"

text \<open>A step and a run with the quota: \<open>Inl\<close> is the crash of the application.\<close>

definition settings_step_checked :: "nat \<Rightarrow> env \<Rightarrow> settings \<Rightarrow> settings_event \<Rightarrow> settings_error + settings \<times> effect list" where
  "settings_step_checked q e st ev =
     (if settings_control st ev then
        (let (st', fx) = settings_handler e ev st
         in case settings_commit_checked q st st' of Inl err \<Rightarrow> Inl err | Inr (st'', gx) \<Rightarrow> Inr (st'', fx @ gx))
      else Inr (st, []))"

fun settings_run_checked :: "nat \<Rightarrow> settings \<Rightarrow> (env \<times> settings_event) list \<Rightarrow> settings_error + settings \<times> effect list" where
  "settings_run_checked q st [] = Inr (st, [])"
| "settings_run_checked q st ((e, ev) # evs) =
     (case settings_step_checked q e st ev of
        Inl err \<Rightarrow> Inl err
      | Inr (st1, fx1) \<Rightarrow>
          (case settings_run_checked q st1 evs of Inl err \<Rightarrow> Inl err | Inr (st2, fx2) \<Rightarrow> Inr (st2, fx1 @ fx2)))"

text \<open>Mounting: the initialisers read the storage, then every effect runs once.\<close>

definition settings_mount :: "storage \<Rightarrow> settings_error + settings \<times> effect list" where
  "settings_mount stg =
     (case load_settings stg of
        Inl err \<Rightarrow> Inl err
      | Inr (as, sel) \<Rightarrow>
          Inr (\<lparr>customAlarms = as, alarmsRef = 0, selectedAlarm = sel, isOptionsOpen = False, readers = [],
                 storage = save_selected sel (save_alarms as stg)\<rparr>,
               audio_src_effect as sel))"

declare handleFileChange_def [handler_defs] reader_onload_def [handler_defs] reader_onerror_def [handler_defs]
  deleteAlarm_def [handler_defs] selectAlarm_def [handler_defs] setOptionsOpen_def [handler_defs]

subsection \<open>Invariant and reachable states\<close>

text \<open>The selection names a listed alarm or the default sound; the storage holds
  the current list and selection.\<close>
definition selection_valid :: "settings \<Rightarrow> bool" where
  "selection_valid st \<longleftrightarrow> selectedAlarm st = ''default'' \<or> selectedAlarm st \<in> alarm_id ` set (customAlarms st)"

definition settings_inv :: "settings \<Rightarrow> bool" where
  "settings_inv st \<longleftrightarrow> storage st ''customAlarms'' = Some (json_alarms (customAlarms st))
     \<and> storage st ''selectedAlarm'' = Some (selectedAlarm st) \<and> selection_valid st"

inductive settings_reachable :: "settings \<Rightarrow> bool" where
  mount: "settings_mount stg = Inr (st, fx) \<Longrightarrow> selection_valid st \<Longrightarrow> settings_reachable st"
| step: "settings_reachable st \<Longrightarrow> settings_reachable (fst (settings_step e st ev))"

subsection \<open>Effects, steps and the invariant\<close>

lemma settings_commit_frame [simp]:
  "customAlarms (fst (settings_commit old st)) = customAlarms st"
  "selectedAlarm (fst (settings_commit old st)) = selectedAlarm st"
  "alarmsRef (fst (settings_commit old st)) = alarmsRef st"
  "isOptionsOpen (fst (settings_commit old st)) = isOptionsOpen st"
  "readers (fst (settings_commit old st)) = readers st"
  by (simp_all add: settings_commit_def Let_def)

lemma settings_step_split:
  "settings_step e st ev =
     (if settings_control st ev
      then (fst (settings_commit st (fst (settings_handler e ev st))),
            snd (settings_handler e ev st) @ snd (settings_commit st (fst (settings_handler e ev st))))
      else (st, []))"
  by (simp add: settings_step_def split: prod.splits)

lemma storage_commit:
  "storage (fst (settings_commit old st)) ''customAlarms'' =
     (if alarmsRef st \<noteq> alarmsRef old then Some (json_alarms (customAlarms st)) else storage st ''customAlarms'')"
  "storage (fst (settings_commit old st)) ''selectedAlarm'' =
     (if selectedAlarm st \<noteq> selectedAlarm old then Some (selectedAlarm st) else storage st ''selectedAlarm'')"
  by (simp_all add: settings_commit_def Let_def save_alarms_def save_selected_def)

lemma handler_keeps_storage: "storage (fst (settings_handler e ev st)) = storage st"
  by (cases ev) (simp_all add: handler_defs Let_def split: option.splits prod.splits)

lemma handler_list_changes_ref:
  "alarmsRef (fst (settings_handler e ev st)) = alarmsRef st \<Longrightarrow>
   customAlarms (fst (settings_handler e ev st)) = customAlarms st"
  by (cases ev) (auto simp: handler_defs Let_def split: option.splits prod.splits if_splits)

lemma handler_selection_valid:
  "selection_valid st \<Longrightarrow> settings_control st ev \<Longrightarrow> selection_valid (fst (settings_handler e ev st))"
  by (cases ev)
    (auto simp: selection_valid_def settings_control_def handler_defs Let_def
      split: option.splits prod.splits if_splits)

lemma settings_step_inv:
  assumes "settings_inv st"
  shows "settings_inv (fst (settings_step e st ev))"
proof (cases "settings_control st ev")
  case True
  let ?h = "fst (settings_handler e ev st)"
  have "selection_valid ?h" using assms True handler_selection_valid by (auto simp: settings_inv_def)
  moreover have "storage ?h = storage st" by (rule handler_keeps_storage)
  moreover have "storage (fst (settings_commit st ?h)) ''customAlarms'' = Some (json_alarms (customAlarms ?h))"
    using assms handler_list_changes_ref [of e ev st] \<open>storage ?h = storage st\<close>
    by (auto simp: storage_commit settings_inv_def)
  moreover have "storage (fst (settings_commit st ?h)) ''selectedAlarm'' = Some (selectedAlarm ?h)"
    using assms \<open>storage ?h = storage st\<close> by (auto simp: storage_commit settings_inv_def)
  ultimately show ?thesis using True
    by (simp add: settings_step_split settings_inv_def selection_valid_def)
next
  case False
  with assms show ?thesis by (simp add: settings_step_def)
qed

lemma settings_mount_inv:
  "settings_mount stg = Inr (st, fx) \<Longrightarrow> selection_valid st \<Longrightarrow> settings_inv st"
  by (auto simp: settings_mount_def settings_inv_def save_alarms_def save_selected_def
      split: sum.splits prod.splits)

text \<open>One step of a pending read and of a file change, in terms of the fields they
  touch: a completed read appends to the snapshot the first pending read holds.\<close>

lemma settings_run_fst:
  "fst (settings_run st ((e, ev) # evs)) = fst (settings_run (fst (settings_step e st ev)) evs)"
  by (simp add: Let_def split_def)

lemma file_change_step [simp]:
  "customAlarms (fst (settings_step e st (FileChange f))) = customAlarms st"
  "isOptionsOpen (fst (settings_step e st (FileChange f))) = isOptionsOpen st"
  "isOptionsOpen st \<Longrightarrow> fsize g \<le> max_alarm_size \<Longrightarrow>
   readers (fst (settings_step e st (FileChange (Some g)))) = readers st @ [(fname g, customAlarms st)]"
  by (simp_all add: settings_step_split settings_control_def handleFileChange_def split: option.split)

lemma reader_load_step [simp]:
  "isOptionsOpen (fst (settings_step e st (ReaderLoad 0 u))) = isOptionsOpen st"
  "readers st \<noteq> [] \<Longrightarrow> readers (fst (settings_step e st (ReaderLoad 0 u))) = tl (readers st)"
  "readers st \<noteq> [] \<Longrightarrow> customAlarms (fst (settings_step e st (ReaderLoad 0 u)))
     = snd (hd (readers st)) @ [\<lparr>alarm_id = int_str (now e), name = fst (hd (readers st)), data = u\<rparr>]"
  by (simp_all add: settings_step_split settings_control_def reader_onload_def split_def
      drop_Suc hd_conv_nth Let_def)

subsection \<open>Loading what was saved\<close>

lemma json_alarms_not_Nil [simp]: "json_alarms as \<noteq> []"
  by (simp add: json_alarms_def)

lemma load_alarms_saved: "st ''customAlarms'' = Some (json_alarms as) \<Longrightarrow> load_alarms st = Inr as"
  by (simp add: load_alarms_def json_read_alarms_json)

lemma load_selected_saved:
  "st ''selectedAlarm'' = Some sel \<Longrightarrow> load_selected st = (if sel = [] then ''default'' else sel)"
  by (simp add: load_selected_def)

lemma int_str_not_default: "int_str t \<noteq> ''default''"
proof
  assume a: "int_str t = ''default''"
  show False
  proof (cases "t < 0")
    case True
    with a show False by (simp add: int_str_def)
  next
    case False
    with a have "CHR ''d'' \<in> set (nat_str (nat t))" by simp
    then have "is_digit (CHR ''d'')" using nat_str_digits by blast
    then show False by (simp add: is_digit_def)
  qed
qed

subsection \<open>The quota and the model without it\<close>

text \<open>A commit, a step or a run that does not crash is the one of the model without
  the quota; a crash is always the quota error.\<close>

lemma settings_commit_checked_Inr: "settings_commit_checked q old st = Inr r \<Longrightarrow> r = settings_commit old st"
  by (auto simp: settings_commit_checked_def settings_commit_def setItem_def save_alarms_def save_selected_def
      Let_def split: if_splits sum.splits)

lemma settings_commit_checked_Inl: "settings_commit_checked q old st = Inl err \<Longrightarrow> err = QuotaExceededError"
  by (auto simp: settings_commit_checked_def setItem_def Let_def split: if_splits sum.splits)

lemma settings_step_checked_Inr: "settings_step_checked q e st ev = Inr r \<Longrightarrow> r = settings_step e st ev"
  by (auto simp: settings_step_checked_def settings_step_def dest: settings_commit_checked_Inr
      split: if_splits prod.splits sum.splits)

lemma settings_run_checked_Inr: "settings_run_checked q st evs = Inr r \<Longrightarrow> r = settings_run st evs"
  by (induction q st evs arbitrary: r rule: settings_run_checked.induct)
    (auto dest: settings_step_checked_Inr split: sum.splits prod.splits)

subsection \<open>Runs with pending reads\<close>

lemma settings_run_append_fst:
  "fst (settings_run st (xs @ ys)) = fst (settings_run (fst (settings_run st xs)) ys)"
proof (induction xs arbitrary: st)
  case (Cons x xs)
  then show ?case by (cases x) (simp only: append_Cons settings_run_fst)
qed simp

lemma edit_step_readers: "edit_event ev \<Longrightarrow> readers (fst (settings_step e st ev)) = readers st"
  by (cases ev) (simp_all add: edit_event_def settings_step_split handler_defs)

lemma edit_run_readers:
  "list_all (\<lambda>(e, ev). edit_event ev) evs \<Longrightarrow> readers (fst (settings_run st evs)) = readers st"
proof (induction evs arbitrary: st)
  case (Cons x evs)
  then show ?case by (cases x) (simp add: settings_run_fst edit_step_readers del: settings_run.simps)
qed simp

text \<open>Completing the read at position \<open>i\<close>: the list becomes the snapshot that read
  holds plus the new alarm, which is selected and saved.\<close>

lemma reader_load_nth [simp]:
  assumes "i < length (readers st)"
  shows "customAlarms (fst (settings_step e st (ReaderLoad i u)))
           = snd (readers st ! i) @ [\<lparr>alarm_id = int_str (now e), name = fst (readers st ! i), data = u\<rparr>]"
    and "readers (fst (settings_step e st (ReaderLoad i u))) = take i (readers st) @ drop (Suc i) (readers st)"
    and "selectedAlarm (fst (settings_step e st (ReaderLoad i u))) = int_str (now e)"
    and "storage (fst (settings_step e st (ReaderLoad i u))) ''customAlarms''
           = Some (json_alarms (customAlarms (fst (settings_step e st (ReaderLoad i u)))))"
  using assms by (simp_all add: settings_step_split settings_control_def reader_onload_def split_def Let_def
      storage_commit)

text \<open>
  C15.  An upload larger than 2 MiB is refused with an alert and changes nothing:
  no read starts, the list and the storage stay as they were.
\<close>

theorem upload_rejects_large:
  "isOptionsOpen st \<Longrightarrow> max_alarm_size < fsize f \<Longrightarrow>
   settings_step e st (FileChange (Some f)) = (st, [Alert too_large_msg])"
  by (simp add: settings_step_def settings_control_def handleFileChange_def settings_commit_def Let_def)

theorem upload_rejects_large_witness:
  "isOptionsOpen \<lparr>customAlarms = [], alarmsRef = 0, selectedAlarm = ''default'', isOptionsOpen = True,
      readers = [], storage = Map.empty\<rparr>
   \<and> max_alarm_size < fsize \<lparr>fname = ''big.wav'', fsize = 3 * 1024 * 1024\<rparr>
   \<and> customAlarms (fst (settings_step \<lparr>now = 1, hidden = False, granted = False\<rparr>
       \<lparr>customAlarms = [], alarmsRef = 0, selectedAlarm = ''default'', isOptionsOpen = True,
        readers = [], storage = Map.empty\<rparr> (FileChange (Some \<lparr>fname = ''big.wav'', fsize = 3 * 1024 * 1024\<rparr>)))) = []"
  using upload_rejects_large [of "\<lparr>customAlarms = [], alarmsRef = 0, selectedAlarm = ''default'', isOptionsOpen = True,
      readers = [], storage = Map.empty\<rparr>" "\<lparr>fname = ''big.wav'', fsize = 3 * 1024 * 1024\<rparr>"
      "\<lparr>now = 1, hidden = False, granted = False\<rparr>"]
  by (simp add: max_alarm_size_def)

text \<open>
  C16.  An accepted upload that completes is appended, selected, saved and played
  from, unless saving it exceeds the storage quota: with the modal open, no read
  pending, a file of at most 2 MiB and a clock value no alarm has as its id, the
  change event followed by the read's completion at instant \<open>t\<close> gives the state
  with the list extended by the alarm with id \<open>t\<close>, that alarm selected, both
  saved, and the audio element pointed at its data, when the saved list and then
  the saved selection fit in the quota \<open>q\<close>; otherwise \<open>setItem\<close> throws and the
  application crashes with \<open>QuotaExceededError\<close>.
\<close>

theorem upload_selects_new_alarm:
  assumes valid: "selection_valid st" and opn: "isOptionsOpen st" and nr: "readers st = []"
    and small: "fsize f \<le> max_alarm_size" and fresh: "int_str (now e2) \<notin> alarm_id ` set (customAlarms st)"
  shows "settings_run_checked q st [(e1, FileChange (Some f)), (e2, ReaderLoad 0 url)] =
    (let as = customAlarms st @ [\<lparr>alarm_id = int_str (now e2), name = fname f, data = url\<rparr>];
         stg = save_selected (int_str (now e2)) (save_alarms as (storage st))
     in if storage_used (save_alarms as (storage st)) \<le> q \<and> storage_used stg \<le> q
        then Inr (st\<lparr>customAlarms := as, alarmsRef := Suc (alarmsRef st), selectedAlarm := int_str (now e2),
                    storage := stg\<rparr>, [AudioCmd (ASetSrc (DataUrl url))])
        else Inl QuotaExceededError)"
proof -
  define a where "a = \<lparr>alarm_id = int_str (now e2), name = fname f, data = url\<rparr>"
  define st1 where "st1 = st\<lparr>readers := [(fname f, customAlarms st)]\<rparr>"
  have s1: "settings_step_checked q e1 st (FileChange (Some f)) = Inr (st1, [])"
    using opn small nr by (simp add: settings_step_checked_def settings_control_def handleFileChange_def
        settings_commit_checked_def Let_def st1_def)
  have sel: "selectedAlarm st \<noteq> int_str (now e2)"
  proof
    assume "selectedAlarm st = int_str (now e2)"
    with valid fresh int_str_not_default [of "now e2"] show False by (simp add: selection_valid_def)
  qed
  have find: "find (\<lambda>a. alarm_id a = int_str (now e2)) (customAlarms st @ [a]) = Some a"
  proof -
    have "find (\<lambda>a. alarm_id a = int_str (now e2)) (customAlarms st) = None"
      using fresh by (force simp: find_None_iff)
    then show ?thesis by (simp add: find_append a_def)
  qed
  have fx: "audio_src_effect (customAlarms st @ [a]) (int_str (now e2)) = [AudioCmd (ASetSrc (DataUrl url))]"
    using find by (simp add: audio_src_effect_def int_str_not_default a_def)
  have s2: "settings_step_checked q e2 st1 (ReaderLoad 0 url) =
    (let stg = save_selected (int_str (now e2)) (save_alarms (customAlarms st @ [a]) (storage st))
     in if storage_used (save_alarms (customAlarms st @ [a]) (storage st)) \<le> q \<and> storage_used stg \<le> q
        then Inr (st\<lparr>customAlarms := customAlarms st @ [a], alarmsRef := Suc (alarmsRef st),
                    selectedAlarm := int_str (now e2), storage := stg\<rparr>, [AudioCmd (ASetSrc (DataUrl url))])
        else Inl QuotaExceededError)"
    using sel fx nr
    by (simp add: settings_step_checked_def settings_control_def reader_onload_def settings_commit_checked_def
        setItem_def save_alarms_def save_selected_def st1_def a_def Let_def split: prod.splits)
  show ?thesis using s1 s2 by (simp add: a_def Let_def split: sum.splits)
qed

theorem upload_selects_new_alarm_witness:
  "settings_run_checked 100 \<lparr>customAlarms = [], alarmsRef = 0, selectedAlarm = ''default'', isOptionsOpen = True,
      readers = [], storage = Map.empty(''customAlarms'' \<mapsto> json_alarms [], ''selectedAlarm'' \<mapsto> ''default'')\<rparr>
     [(\<lparr>now = 5, hidden = False, granted = False\<rparr>, FileChange (Some \<lparr>fname = ''bell.wav'', fsize = 1000\<rparr>)),
      (\<lparr>now = 7, hidden = False, granted = False\<rparr>, ReaderLoad 0 ''data:x'')]
   = Inr (\<lparr>customAlarms = [\<lparr>alarm_id = ''7'', name = ''bell.wav'', data = ''data:x''\<rparr>], alarmsRef = 1,
            selectedAlarm = ''7'', isOptionsOpen = True, readers = [],
            storage = Map.empty(''customAlarms'' \<mapsto> json_alarms [\<lparr>alarm_id = ''7'', name = ''bell.wav'', data = ''data:x''\<rparr>],
                                ''selectedAlarm'' \<mapsto> ''7'')\<rparr>, [AudioCmd (ASetSrc (DataUrl ''data:x''))])
   \<and> settings_run_checked 60 \<lparr>customAlarms = [], alarmsRef = 0, selectedAlarm = ''default'', isOptionsOpen = True,
      readers = [], storage = Map.empty(''customAlarms'' \<mapsto> json_alarms [], ''selectedAlarm'' \<mapsto> ''default'')\<rparr>
     [(\<lparr>now = 5, hidden = False, granted = False\<rparr>, FileChange (Some \<lparr>fname = ''bell.wav'', fsize = 1000\<rparr>)),
      (\<lparr>now = 7, hidden = False, granted = False\<rparr>, ReaderLoad 0 ''data:x'')]
   = Inl QuotaExceededError"
proof -
  have pre: "selection_valid \<lparr>customAlarms = [], alarmsRef = 0, selectedAlarm = ''default'', isOptionsOpen = True,
      readers = [], storage = Map.empty(''customAlarms'' \<mapsto> json_alarms [], ''selectedAlarm'' \<mapsto> ''default'')\<rparr>"
    by (simp add: selection_valid_def)
  have i7: "int_str 7 = ''7''" by code_simp
  show ?thesis
    using upload_selects_new_alarm [OF pre, of "\<lparr>fname = ''bell.wav'', fsize = 1000\<rparr>"
        "\<lparr>now = 7, hidden = False, granted = False\<rparr>" 100 "\<lparr>now = 5, hidden = False, granted = False\<rparr>" "''data:x''"]
      upload_selects_new_alarm [OF pre, of "\<lparr>fname = ''bell.wav'', fsize = 1000\<rparr>"
        "\<lparr>now = 7, hidden = False, granted = False\<rparr>" 60 "\<lparr>now = 5, hidden = False, granted = False\<rparr>" "''data:x''"]
    by (simp add: max_alarm_size_def i7 storage_used_def entry_size_def save_alarms_def save_selected_def
        json_alarms_def json_alarm_def json_str_def key_id_def key_name_def key_data_def json_escape_def
        del: settings_run_checked.simps)
qed

text \<open>
  C17.  Deleting a listed alarm removes every alarm with that id and keeps the
  others in order; the selection falls back to the default exactly when the deleted
  alarm was selected; the new list is saved.
\<close>

theorem deleteAlarm_resets_selection:
  "isOptionsOpen st \<Longrightarrow> i \<in> alarm_id ` set (customAlarms st) \<Longrightarrow>
   customAlarms (fst (settings_step e st (DeleteAlarm i))) = filter (\<lambda>a. alarm_id a \<noteq> i) (customAlarms st)
   \<and> selectedAlarm (fst (settings_step e st (DeleteAlarm i)))
       = (if selectedAlarm st = i then ''default'' else selectedAlarm st)
   \<and> storage (fst (settings_step e st (DeleteAlarm i))) ''customAlarms''
       = Some (json_alarms (filter (\<lambda>a. alarm_id a \<noteq> i) (customAlarms st)))"
  by (simp add: settings_step_split settings_control_def deleteAlarm_def storage_commit)

theorem deleteAlarm_resets_selection_witness:
  "isOptionsOpen \<lparr>customAlarms = [\<lparr>alarm_id = ''1'', name = ''a'', data = ''x''\<rparr>, \<lparr>alarm_id = ''2'', name = ''b'', data = ''y''\<rparr>],
      alarmsRef = 0, selectedAlarm = ''1'', isOptionsOpen = True, readers = [], storage = Map.empty\<rparr>
   \<and> ''1'' \<in> alarm_id ` set [\<lparr>alarm_id = ''1'', name = ''a'', data = ''x''\<rparr>, \<lparr>alarm_id = ''2'', name = ''b'', data = ''y''\<rparr>]
   \<and> selectedAlarm (fst (settings_step \<lparr>now = 1, hidden = False, granted = False\<rparr>
       \<lparr>customAlarms = [\<lparr>alarm_id = ''1'', name = ''a'', data = ''x''\<rparr>, \<lparr>alarm_id = ''2'', name = ''b'', data = ''y''\<rparr>],
        alarmsRef = 0, selectedAlarm = ''1'', isOptionsOpen = True, readers = [], storage = Map.empty\<rparr>
       (DeleteAlarm ''1''))) = ''default''"
  using deleteAlarm_resets_selection [of "\<lparr>customAlarms = [\<lparr>alarm_id = ''1'', name = ''a'', data = ''x''\<rparr>,
      \<lparr>alarm_id = ''2'', name = ''b'', data = ''y''\<rparr>], alarmsRef = 0, selectedAlarm = ''1'', isOptionsOpen = True,
      readers = [], storage = Map.empty\<rparr>" "''1''" "\<lparr>now = 1, hidden = False, granted = False\<rparr>"]
  by simp

text \<open>
  C18.  Round trip of the persisted settings: saving a list and a selection and
  loading them back gives the same list and the same selection, except that an
  empty selection string is read back as the default.
\<close>

theorem save_load_roundtrip:
  "load_settings (save_selected sel (save_alarms as stg)) = Inr (as, if sel = [] then ''default'' else sel)"
  by (simp add: load_settings_def load_alarms_saved load_selected_saved save_alarms_def save_selected_def)

theorem save_load_roundtrip_witness:
  "load_settings (save_selected ''17'' (save_alarms [\<lparr>alarm_id = ''17'', name = ''q\"x'', data = ''d''\<rparr>] Map.empty))
     = Inr ([\<lparr>alarm_id = ''17'', name = ''q\"x'', data = ''d''\<rparr>], ''17'')"
  using save_load_roundtrip [of "''17''" "[\<lparr>alarm_id = ''17'', name = ''q\"x'', data = ''d''\<rparr>]" Map.empty]
  by simp

text \<open>
  C19.  In every state reached from a mount whose selection names a listed alarm or
  the default: the storage holds the current list and selection, the selection
  names a listed alarm or the default, and reloading the application from the
  storage restores the list and the selection (an empty selection string reloads
  as the default).
\<close>

lemma settings_inv_reload:
  "settings_inv st \<Longrightarrow>
   load_settings (storage st) = Inr (customAlarms st, if selectedAlarm st = [] then ''default'' else selectedAlarm st)"
  by (simp add: settings_inv_def load_settings_def load_alarms_saved load_selected_saved)

theorem settings_reachable_inv:
  "settings_reachable st \<Longrightarrow> settings_inv st \<and>
   load_settings (storage st) = Inr (customAlarms st, if selectedAlarm st = [] then ''default'' else selectedAlarm st)"
proof (induction rule: settings_reachable.induct)
  case (mount stg st fx)
  then have "settings_inv st" by (rule settings_mount_inv)
  then show ?case by (simp add: settings_inv_reload)
next
  case (step st e ev)
  then have "settings_inv (fst (settings_step e st ev))" by (simp add: settings_step_inv)
  then show ?case by (simp add: settings_inv_reload)
qed

theorem settings_reachable_inv_witness:
  "settings_reachable \<lparr>customAlarms = [], alarmsRef = 0, selectedAlarm = ''default'', isOptionsOpen = False,
      readers = [], storage = Map.empty(''customAlarms'' \<mapsto> json_alarms [], ''selectedAlarm'' \<mapsto> ''default'')\<rparr>
   \<and> load_settings (Map.empty(''customAlarms'' \<mapsto> json_alarms [], ''selectedAlarm'' \<mapsto> ''default''))
       = Inr ([], ''default'')"
proof -
  have r: "settings_reachable \<lparr>customAlarms = [], alarmsRef = 0, selectedAlarm = ''default'', isOptionsOpen = False,
      readers = [], storage = Map.empty(''customAlarms'' \<mapsto> json_alarms [], ''selectedAlarm'' \<mapsto> ''default'')\<rparr>"
    by (rule settings_reachable.mount [of Map.empty _ "[AudioCmd (ASetSrc DefaultSound)]"])
      (simp_all add: settings_mount_def load_settings_def load_alarms_def load_selected_def
        save_alarms_def save_selected_def audio_src_effect_def selection_valid_def)
  show ?thesis using settings_reachable_inv [OF r] r by simp
qed

text \<open>
  C20.  The file reader's \<open>onload\<close> closure appends to the list of the render that
  started the read: whatever edits are made while a read is pending (deleting or
  selecting alarms, opening or closing the modal), its completion sets the list
  back to the list at the start of the read plus the new alarm, and saves that
  list.  In particular an alarm deleted meanwhile comes back.
\<close>

theorem stale_read_undoes_edits:
  assumes "readers st = []" and "isOptionsOpen st" and "fsize f \<le> max_alarm_size"
    and "list_all (\<lambda>(e, ev). edit_event ev) evs"
  shows "customAlarms (fst (settings_run st ((e1, FileChange (Some f)) # evs @ [(e2, ReaderLoad 0 url)])))
           = customAlarms st @ [\<lparr>alarm_id = int_str (now e2), name = fname f, data = url\<rparr>]
     \<and> storage (fst (settings_run st ((e1, FileChange (Some f)) # evs @ [(e2, ReaderLoad 0 url)]))) ''customAlarms''
           = Some (json_alarms (customAlarms st @ [\<lparr>alarm_id = int_str (now e2), name = fname f, data = url\<rparr>]))"
proof -
  let ?st1 = "fst (settings_step e1 st (FileChange (Some f)))"
  let ?st2 = "fst (settings_run ?st1 evs)"
  have r1: "readers ?st1 = [(fname f, customAlarms st)]" using assms(1-3) by simp
  have r2: "readers ?st2 = [(fname f, customAlarms st)]" using edit_run_readers [OF assms(4)] r1 by simp
  have run: "fst (settings_run st ((e1, FileChange (Some f)) # evs @ [(e2, ReaderLoad 0 url)]))
      = fst (settings_step e2 ?st2 (ReaderLoad 0 url))"
    by (simp only: append_Cons settings_run_fst settings_run_append_fst settings_run.simps(1) fst_conv)
  show ?thesis using r2 unfolding run by (simp add: reader_load_nth)
qed

theorem stale_read_undoes_edits_witness:
  "customAlarms (fst (settings_run
      \<lparr>customAlarms = [\<lparr>alarm_id = ''1'', name = ''a.wav'', data = ''x''\<rparr>], alarmsRef = 0, selectedAlarm = ''1'',
       isOptionsOpen = True, readers = [], storage = Map.empty\<rparr>
      [(\<lparr>now = 5, hidden = False, granted = False\<rparr>, FileChange (Some \<lparr>fname = ''b.wav'', fsize = 10\<rparr>)),
       (\<lparr>now = 6, hidden = False, granted = False\<rparr>, DeleteAlarm ''1''),
       (\<lparr>now = 7, hidden = False, granted = False\<rparr>, ReaderLoad 0 ''y'')]))
     = [\<lparr>alarm_id = ''1'', name = ''a.wav'', data = ''x''\<rparr>, \<lparr>alarm_id = int_str 7, name = ''b.wav'', data = ''y''\<rparr>]"
  using stale_read_undoes_edits [of "\<lparr>customAlarms = [\<lparr>alarm_id = ''1'', name = ''a.wav'', data = ''x''\<rparr>],
      alarmsRef = 0, selectedAlarm = ''1'', isOptionsOpen = True, readers = [], storage = Map.empty\<rparr>"
      "\<lparr>fname = ''b.wav'', fsize = 10\<rparr>" "[(\<lparr>now = 6, hidden = False, granted = False\<rparr>, DeleteAlarm ''1'')]"
      "\<lparr>now = 5, hidden = False, granted = False\<rparr>" "\<lparr>now = 7, hidden = False, granted = False\<rparr>" "''y''"]
  by (simp add: max_alarm_size_def edit_event_def del: settings_run.simps)

text \<open>
  C21.  Two uploads whose reads overlap: both closures hold the same list, so
  whichever read completes last overwrites the other's result and that other
  uploaded alarm is lost, in both completion orders.
\<close>

theorem concurrent_uploads_lose_one:
  "readers st = [] \<Longrightarrow> isOptionsOpen st \<Longrightarrow> fsize f \<le> max_alarm_size \<Longrightarrow> fsize g \<le> max_alarm_size \<Longrightarrow>
   customAlarms (fst (settings_run st [(e1, FileChange (Some f)), (e2, FileChange (Some g)),
       (e3, ReaderLoad 0 u), (e4, ReaderLoad 0 v)]))
     = customAlarms st @ [\<lparr>alarm_id = int_str (now e4), name = fname g, data = v\<rparr>]
   \<and> customAlarms (fst (settings_run st [(e1, FileChange (Some f)), (e2, FileChange (Some g)),
       (e3, ReaderLoad 1 v), (e4, ReaderLoad 0 u)]))
     = customAlarms st @ [\<lparr>alarm_id = int_str (now e4), name = fname f, data = u\<rparr>]"
  by (simp only: settings_run_fst settings_run.simps(1) fst_conv) simp

theorem concurrent_uploads_lose_one_witness:
  "customAlarms (fst (settings_run
      \<lparr>customAlarms = [], alarmsRef = 0, selectedAlarm = ''default'', isOptionsOpen = True, readers = [], storage = Map.empty\<rparr>
      [(\<lparr>now = 5, hidden = False, granted = False\<rparr>, FileChange (Some \<lparr>fname = ''a.wav'', fsize = 10\<rparr>)),
       (\<lparr>now = 6, hidden = False, granted = False\<rparr>, FileChange (Some \<lparr>fname = ''b.wav'', fsize = 10\<rparr>)),
       (\<lparr>now = 8, hidden = False, granted = False\<rparr>, ReaderLoad 0 ''x''),
       (\<lparr>now = 9, hidden = False, granted = False\<rparr>, ReaderLoad 0 ''y'')]))
     = [\<lparr>alarm_id = int_str 9, name = ''b.wav'', data = ''y''\<rparr>]"
  using concurrent_uploads_lose_one [of "\<lparr>customAlarms = [], alarmsRef = 0, selectedAlarm = ''default'',
      isOptionsOpen = True, readers = [], storage = Map.empty\<rparr>" "\<lparr>fname = ''a.wav'', fsize = 10\<rparr>"
      "\<lparr>fname = ''b.wav'', fsize = 10\<rparr>" "\<lparr>now = 5, hidden = False, granted = False\<rparr>"
      "\<lparr>now = 6, hidden = False, granted = False\<rparr>" "\<lparr>now = 8, hidden = False, granted = False\<rparr>" "''x''"
      "\<lparr>now = 9, hidden = False, granted = False\<rparr>" "''y''"]
  by (simp add: max_alarm_size_def del: settings_run.simps)

end
