(* ===== verification/View.thy ===== *)
theory View
  imports Timer Settings
begin

text \<open>
  The presentation layer: the JSX returned by \<open>App\<close> (\<open>src/src/App.jsx\<close>, lines
  301--363 and 586--641) as a function \<open>render\<close> from the timer and settings states
  to what is shown, and the controls as a datatype with \<open>rendered\<close> (is the control
  in the DOM) and \<open>click\<close> (the handler its \<open>onClick\<close> or \<open>onChange\<close> calls).  CSS,
  icons and the footer links carry no state and are left out.
\<close>

datatype primary_control = StopAlarmButton | PauseButton | StartButton

record alarm_item =
  item_id :: string
  item_name :: string
  item_selected :: bool

record modal_view =
  default_selected :: bool
  alarm_items :: "alarm_item list"

record view =
  title :: string
  tabs :: "(string \<times> bool) list"
  display :: string
  adjust_buttons :: "int list"
  primary :: primary_control
  theme :: string
  modal :: "modal_view option"

text \<open>The six buttons of the custom controls (lines 333--346), in order.\<close>

definition adjust_amounts :: "int list" where
  "adjust_amounts = [-3600, 3600, -60, 60, -10, 10]"

text \<open>The modal's alarm list (lines 598--622): the default item, then one item per
  custom alarm, highlighted when its id is the selection.\<close>

definition modal_of :: "settings \<Rightarrow> modal_view" where
  "modal_of s =
     \<lparr>default_selected = (selectedAlarm s = ''default''),
      alarm_items = map (\<lambda>a. \<lparr>item_id = alarm_id a, item_name = name a, item_selected = (selectedAlarm s = alarm_id a)\<rparr>)
                      (customAlarms s)\<rparr>"

text \<open>\<open>document.title\<close> is written in the interval callback (line 113), in
  \<open>handleTimerFinished\<close> (line 158) and by the effect of lines 165--170; every write
  is the constant \<open>Tomidoro\<close>, so the title does not depend on the state.\<close>

definition document_title :: "timer \<Rightarrow> string" where
  "document_title t = ''Tomidoro''"

definition render :: "timer \<Rightarrow> settings \<Rightarrow> view" where
  "render t s =
     \<lparr>title = document_title t,
      tabs = map (\<lambda>k. (label (MODES k), mode t = k)) mode_keys,
      display = formatTime (timeLeft t),
      adjust_buttons = (if mode t = Custom \<and> \<not> isActive t then adjust_amounts else []),
      primary = (if isAlarmRinging t then StopAlarmButton else if isActive t then PauseButton else StartButton),
      theme = color (MODES (mode t)),
      modal = (if isOptionsOpen s then Some (modal_of s) else None)\<rparr>"

text \<open>The interactive elements: the settings button (line 305), the tabs (line 320),
  the adjust buttons, the primary and reset buttons (lines 350--360), and inside the
  modal the overlay backdrop, the close button, the default item, each alarm item
  and its delete button (whose click does not reach the item: \<open>stopPropagation\<close>,
  line 614), and the file input.\<close>

datatype control =
    SettingsButton
  | TabButton mode
  | AdjustButton int
  | PrimaryButton
  | ResetButton
  | OverlayBackdrop
  | CloseButton
  | DefaultItem
  | AlarmItem string
  | DeleteButton string
  | FileInput "file_info option"

definition rendered :: "timer \<Rightarrow> settings \<Rightarrow> control \<Rightarrow> bool" where
  "rendered t s c =
     (case c of
        SettingsButton \<Rightarrow> True
      | TabButton k \<Rightarrow> True
      | AdjustButton a \<Rightarrow> a \<in> set (adjust_buttons (render t s))
      | PrimaryButton \<Rightarrow> True
      | ResetButton \<Rightarrow> True
      | OverlayBackdrop \<Rightarrow> isOptionsOpen s
      | CloseButton \<Rightarrow> isOptionsOpen s
      | DefaultItem \<Rightarrow> isOptionsOpen s
      | AlarmItem i \<Rightarrow> isOptionsOpen s \<and> i \<in> alarm_id ` set (customAlarms s)
      | DeleteButton i \<Rightarrow> isOptionsOpen s \<and> i \<in> alarm_id ` set (customAlarms s)
      | FileInput f \<Rightarrow> isOptionsOpen s)"

text \<open>What a control dispatches: an event of the timer or of the settings store.\<close>

datatype intent = TimerIntent timer_event | SettingsIntent settings_event

fun click :: "timer \<Rightarrow> control \<Rightarrow> intent" where
  "click t SettingsButton = SettingsIntent OpenOptions"
| "click t (TabButton k) = TimerIntent (SwitchMode k)"
| "click t (AdjustButton a) = TimerIntent (AdjustTime a)"
| "click t PrimaryButton = TimerIntent (if isAlarmRinging t then StopAlarm else ToggleTimer)"
| "click t ResetButton = TimerIntent ResetTimer"
| "click t OverlayBackdrop = SettingsIntent CloseOptions"
| "click t CloseButton = SettingsIntent CloseOptions"
| "click t DefaultItem = SettingsIntent (SelectAlarm ''default'')"
| "click t (AlarmItem i) = SettingsIntent (SelectAlarm i)"
| "click t (DeleteButton i) = SettingsIntent (DeleteAlarm i)"
| "click t (FileInput f) = SettingsIntent (FileChange f)"

lemma render_simps [simp]:
  "title (render t s) = ''Tomidoro''"
  "tabs (render t s) = map (\<lambda>k. (label (MODES k), mode t = k)) mode_keys"
  "display (render t s) = formatTime (timeLeft t)"
  "adjust_buttons (render t s) = (if mode t = Custom \<and> \<not> isActive t then adjust_amounts else [])"
  "primary (render t s) = (if isAlarmRinging t then StopAlarmButton else if isActive t then PauseButton else StartButton)"
  "modal (render t s) = (if isOptionsOpen s then Some (modal_of s) else None)"
  by (simp_all add: render_def document_title_def)

lemma length_filter_distinct_key:
  "distinct (map f xs) \<Longrightarrow> length (filter (\<lambda>a. x = f a) xs) = (if x \<in> f ` set xs then 1 else 0)"
  by (induction xs) (auto simp: filter_empty_conv)

text \<open>
  C22.  In the open modal, when the selection is the default or a listed alarm, the
  alarm ids are distinct and none is \<open>default\<close>, exactly one item is highlighted.
\<close>

theorem modal_one_highlighted:
  "selection_valid s \<Longrightarrow> distinct (map alarm_id (customAlarms s)) \<Longrightarrow>
   ''default'' \<notin> alarm_id ` set (customAlarms s) \<Longrightarrow>
   (if default_selected (modal_of s) then 1 else 0) + length (filter item_selected (alarm_items (modal_of s))) = (1::nat)"
  by (auto simp: selection_valid_def modal_of_def comp_def length_filter_distinct_key)

theorem modal_one_highlighted_witness:
  "selection_valid (\<lparr>customAlarms = [], alarmsRef = 0, selectedAlarm = ''default'', isOptionsOpen = False, readers = [], storage = Map.empty\<rparr>\<lparr>customAlarms := [\<lparr>alarm_id = ''7'', name = ''a'', data = ''x''\<rparr>], selectedAlarm := ''7''\<rparr>)
   \<and> length (filter item_selected (alarm_items (modal_of
        (\<lparr>customAlarms = [], alarmsRef = 0, selectedAlarm = ''default'', isOptionsOpen = False, readers = [], storage = Map.empty\<rparr>\<lparr>customAlarms := [\<lparr>alarm_id = ''7'', name = ''a'', data = ''x''\<rparr>], selectedAlarm := ''7''\<rparr>)))) = 1"
  using modal_one_highlighted [of "\<lparr>customAlarms = [], alarmsRef = 0, selectedAlarm = ''default'', isOptionsOpen = False, readers = [], storage = Map.empty\<rparr>\<lparr>customAlarms := [\<lparr>alarm_id = ''7'', name = ''a'', data = ''x''\<rparr>], selectedAlarm := ''7''\<rparr>"]
  by (simp add: selection_valid_def modal_of_def)

end
