(* ===== verification/App.thy ===== *)
theory App
  imports View
begin

text \<open>
  The component \<open>App\<close> of \<open>src/src/App.jsx\<close> as a whole: the timer state, the
  settings state and the audio element of \<open>audioRef\<close> side by side.  An event is a
  click on a control, the interval firing, a visibility change, or a pending file
  read completing or failing; a click is delivered only to a rendered control and
  runs the handler the control dispatches.  The effects a step returns are applied
  to the audio element in order.
\<close>

record app =
  tmr :: timer
  sts :: settings
  audioRef :: audio

datatype app_event = Click control | Interval | Visibility | ReadLoad nat string | ReadError nat

definition timer_part :: "env \<Rightarrow> app \<Rightarrow> timer_event \<Rightarrow> app \<times> effect list" where
  "timer_part e a ev =
     (let (t', fx) = timer_step e (tmr a) ev in (a\<lparr>tmr := t', audioRef := audio_exec (audioRef a) fx\<rparr>, fx))"

definition settings_part :: "env \<Rightarrow> app \<Rightarrow> settings_event \<Rightarrow> app \<times> effect list" where
  "settings_part e a ev =
     (let (s', fx) = settings_step e (sts a) ev in (a\<lparr>sts := s', audioRef := audio_exec (audioRef a) fx\<rparr>, fx))"

definition app_step :: "env \<Rightarrow> app \<Rightarrow> app_event \<Rightarrow> app \<times> effect list" where
  "app_step e a ev =
     (case ev of
        Click c \<Rightarrow>
          if rendered (tmr a) (sts a) c then
            (case click (tmr a) c of
               TimerIntent tev \<Rightarrow> timer_part e a tev
             | SettingsIntent sev \<Rightarrow> settings_part e a sev)
          else (a, [])
      | Interval \<Rightarrow> timer_part e a Tick
      | Visibility \<Rightarrow> timer_part e a VisibilityChange
      | ReadLoad i u \<Rightarrow> settings_part e a (ReaderLoad i u)
      | ReadError i \<Rightarrow> settings_part e a (ReaderError i))"

fun app_run :: "app \<Rightarrow> (env \<times> app_event) list \<Rightarrow> app \<times> effect list" where
  "app_run a [] = (a, [])"
| "app_run a ((e, ev) # evs) =
     (let (a1, fx1) = app_step e a ev; (a2, fx2) = app_run a1 evs in (a2, fx1 @ fx2))"

text \<open>The first render: the initialisers, then the effects in declaration order
  (persisting, the audio source, the audio configuration of lines 91--94; the timer
  effect finds the timer stopped and changes nothing).\<close>

definition app_mount :: "(alarm_src \<Rightarrow> bool) \<Rightarrow> storage \<Rightarrow> settings_error + app" where
  "app_mount dec stg =
     (case settings_mount stg of
        Inl err \<Rightarrow> Inl err
      | Inr (s, fx) \<Rightarrow> Inr \<lparr>tmr = timer_init, sts = s, audioRef = audio_configure (audio_exec (audio_init dec) fx)\<rparr>)"

text \<open>The source the element should hold: the selected custom alarm's data, or the
  bundled sound.\<close>

definition selected_src :: "settings \<Rightarrow> alarm_src" where
  "selected_src s =
     (if selectedAlarm s = ''default'' then DefaultSound
      else case find (\<lambda>a. alarm_id a = selectedAlarm s) (customAlarms s) of
             Some a \<Rightarrow> DataUrl (data a)
           | None \<Rightarrow> DefaultSound)"

definition app_inv :: "app \<Rightarrow> bool" where
  "app_inv a \<longleftrightarrow> timer_inv (tmr a) \<and> settings_inv (sts a) \<and> looping (audioRef a)
     \<and> src (audioRef a) = selected_src (sts a) \<and> (playing (audioRef a) \<longrightarrow> isAlarmRinging (tmr a))"

inductive app_reachable :: "app \<Rightarrow> bool" where
  mount: "app_mount dec stg = Inr a \<Longrightarrow> selection_valid (sts a) \<Longrightarrow> app_reachable a"
| step: "app_reachable a \<Longrightarrow> 0 \<le> now e \<Longrightarrow> app_reachable (fst (app_step e a ev))"

subsection \<open>How each part acts on the audio element\<close>

text \<open>Timer handlers only play, pause and rewind: the source and the loop flag stay,
  and the element plays afterwards only if the alarm rings afterwards.\<close>

lemma timer_handler_audio:
  "src (audio_exec el (snd (timer_handler e ev t))) = src el
   \<and> looping (audio_exec el (snd (timer_handler e ev t))) = looping el
   \<and> ((playing el \<longrightarrow> isAlarmRinging t) \<longrightarrow>
        playing (audio_exec el (snd (timer_handler e ev t))) \<longrightarrow> isAlarmRinging (fst (timer_handler e ev t)))"
  by (cases ev) (simp_all add: handler_defs Let_def split: prod.splits)

lemma timer_step_audio:
  "src (audio_exec el (snd (timer_step e t ev))) = src el
   \<and> looping (audio_exec el (snd (timer_step e t ev))) = looping el
   \<and> ((playing el \<longrightarrow> isAlarmRinging t) \<longrightarrow>
        playing (audio_exec el (snd (timer_step e t ev))) \<longrightarrow> isAlarmRinging (fst (timer_step e t ev)))"
  using timer_handler_audio [of el e ev t] by (simp add: timer_step_handler)

lemma settings_handler_effects:
  "snd (settings_handler e ev st) = [] \<or> snd (settings_handler e ev st) = [Alert too_large_msg]"
  by (cases ev) (simp_all add: handler_defs Let_def split: option.splits prod.splits)

lemma audio_src_effect_valid:
  "selection_valid s \<Longrightarrow> audio_src_effect (customAlarms s) (selectedAlarm s) = [AudioCmd (ASetSrc (selected_src s))]"
  by (auto simp: selection_valid_def audio_src_effect_def selected_src_def find_None_iff split: option.split)

lemma selected_src_frame:
  "customAlarms s' = customAlarms s \<Longrightarrow> selectedAlarm s' = selectedAlarm s \<Longrightarrow> selected_src s' = selected_src s"
  by (simp add: selected_src_def)

text \<open>A settings step re-points the element at the selected sound whenever the
  list or the selection changed, and otherwise leaves it alone; it never starts
  playback.\<close>

lemma settings_step_audio:
  assumes inv: "settings_inv st" and sync: "src el = selected_src st"
  shows "src (audio_exec el (snd (settings_step e st ev))) = selected_src (fst (settings_step e st ev))
   \<and> looping (audio_exec el (snd (settings_step e st ev))) = looping el
   \<and> (playing (audio_exec el (snd (settings_step e st ev))) \<longrightarrow> playing el)"
proof (cases "settings_control st ev")
  case True
  let ?h = "fst (settings_handler e ev st)"
  have hx: "audio_exec el (snd (settings_handler e ev st)) = el"
    using settings_handler_effects [of e ev st] by auto
  have "settings_inv (fst (settings_step e st ev))" using inv by (rule settings_step_inv)
  then have valid: "selection_valid ?h" using True by (simp add: settings_step_split settings_inv_def selection_valid_def)
  have fx: "snd (settings_step e st ev) = snd (settings_handler e ev st) @ snd (settings_commit st ?h)"
    and st': "fst (settings_step e st ev) = fst (settings_commit st ?h)"
    using True by (simp_all add: settings_step_split)
  have frame: "selected_src (fst (settings_commit st ?h)) = selected_src ?h"
    by (rule selected_src_frame) simp_all
  show ?thesis
  proof (cases "alarmsRef ?h \<noteq> alarmsRef st \<or> selectedAlarm ?h \<noteq> selectedAlarm st")
    case True
    then have "snd (settings_commit st ?h) = [AudioCmd (ASetSrc (selected_src ?h))]"
      using valid by (auto simp: settings_commit_def Let_def audio_src_effect_valid)
    then show ?thesis by (simp add: fx st' hx frame)
  next
    case False
    then have "snd (settings_commit st ?h) = []" by (simp add: settings_commit_def Let_def)
    moreover have "selected_src ?h = selected_src st"
      using False handler_list_changes_ref [of e ev st] by (auto intro: selected_src_frame)
    ultimately show ?thesis using sync by (simp add: fx st' hx frame)
  qed
next
  case False
  with sync show ?thesis by (simp add: settings_step_def)
qed

subsection \<open>The invariant of the composed state\<close>

lemma timer_part_inv:
  "app_inv a \<Longrightarrow> 0 \<le> now e \<Longrightarrow> app_inv (fst (timer_part e a ev))"
  using timer_step_inv [of "tmr a" e ev] timer_step_audio [of "audioRef a" e "tmr a" ev]
  by (simp add: app_inv_def timer_part_def split_def Let_def)

lemma settings_part_inv:
  "app_inv a \<Longrightarrow> app_inv (fst (settings_part e a ev))"
  using settings_step_inv [of "sts a" e ev] settings_step_audio [of "sts a" "audioRef a" e ev]
  by (auto simp: app_inv_def settings_part_def split_def Let_def)

lemma app_step_inv:
  "app_inv a \<Longrightarrow> 0 \<le> now e \<Longrightarrow> app_inv (fst (app_step e a ev))"
  by (cases ev) (auto simp: app_step_def timer_part_inv settings_part_inv split: intent.split)

lemma app_mount_inv:
  assumes "app_mount dec stg = Inr a" and "selection_valid (sts a)"
  shows "app_inv a"
proof -
  obtain s fx where m: "settings_mount stg = Inr (s, fx)" and a: "a = \<lparr>tmr = timer_init, sts = s,
      audioRef = audio_configure (audio_exec (audio_init dec) fx)\<rparr>"
    using assms(1) by (auto simp: app_mount_def split: sum.splits)
  have v: "selection_valid s" using assms(2) a by simp
  have "fx = audio_src_effect (customAlarms s) (selectedAlarm s)"
    using m by (auto simp: settings_mount_def split: sum.splits)
  then have "fx = [AudioCmd (ASetSrc (selected_src s))]" using v by (simp add: audio_src_effect_valid)
  with a show ?thesis using settings_mount_inv [OF m v]
    by (simp add: app_inv_def timer_init_inv audio_init_def audio_configure_def)
qed

text \<open>
  C23.  In every state of the application reached from a mount (with a valid
  stored selection) by events whose clock is at or after the epoch: the timer and
  the settings satisfy their invariants, the audio element loops, holds the source of
  the selected alarm, and plays only while the alarm is marked ringing.
\<close>

theorem app_reachable_inv:
  "app_reachable a \<Longrightarrow> timer_inv (tmr a) \<and> settings_inv (sts a) \<and> looping (audioRef a)
     \<and> src (audioRef a) = selected_src (sts a) \<and> (playing (audioRef a) \<longrightarrow> isAlarmRinging (tmr a))"
proof (induction rule: app_reachable.induct)
  case (mount dec stg a)
  then show ?case using app_mount_inv [of dec stg a] by (simp add: app_inv_def)
next
  case (step a e ev)
  then show ?case using app_step_inv [of a e ev] by (simp add: app_inv_def)
qed

theorem app_reachable_inv_witness:
  "app_reachable \<lparr>tmr = timer_init,
      sts = \<lparr>customAlarms = [], alarmsRef = 0, selectedAlarm = ''default'', isOptionsOpen = False, readers = [],
             storage = Map.empty(''customAlarms'' \<mapsto> json_alarms [], ''selectedAlarm'' \<mapsto> ''default'')\<rparr>,
      audioRef = \<lparr>src = DefaultSound, playing = False, currentTime = 0, looping = True,
         decodable = \<lambda>x. True, rejections = 0\<rparr>\<rparr>
   \<and> src (audioRef \<lparr>tmr = timer_init,
      sts = \<lparr>customAlarms = [], alarmsRef = 0, selectedAlarm = ''default'', isOptionsOpen = False, readers = [],
             storage = Map.empty(''customAlarms'' \<mapsto> json_alarms [], ''selectedAlarm'' \<mapsto> ''default'')\<rparr>,
      audioRef = \<lparr>src = DefaultSound, playing = False, currentTime = 0, looping = True,
         decodable = \<lambda>x. True, rejections = 0\<rparr>\<rparr>) = DefaultSound"
  (is "app_reachable ?a \<and> _")
proof -
  have r: "app_reachable ?a"
    by (rule app_reachable.mount [of "\<lambda>x. True" Map.empty])
      (simp_all add: app_mount_def settings_mount_def load_settings_def load_alarms_def load_selected_def
        save_alarms_def save_selected_def audio_src_effect_def selection_valid_def audio_init_def
        audio_configure_def)
  show ?thesis using app_reachable_inv [OF r] r by (simp add: selected_src_def)
qed

lemma app_run_fst:
  "fst (app_run a ((e, ev) # evs)) = fst (app_run (fst (app_step e a ev)) evs)"
  by (simp add: Let_def split_def)

text \<open>
  C24.  Changing the alarm sound while the alarm rings silences it for good: in
  any state of the invariant where the alarm rings and the modal is open, a click
  on a listed alarm other than the selected one selects it, and the assignment to
  \<open>src\<close> that follows stops playback; the timer still shows the ringing state
  with its stop button, and since the interval is cleared, a later interval event
  changes nothing, so nothing restarts the sound until the alarm is dismissed.
\<close>

theorem selecting_while_ringing_silences:
  assumes inv: "app_inv a" and ring: "isAlarmRinging (tmr a)" and opn: "isOptionsOpen (sts a)"
    and listed: "i \<in> alarm_id ` set (customAlarms (sts a))" and other: "i \<noteq> selectedAlarm (sts a)"
    and step: "app_step e a (Click (AlarmItem i)) = (a', fx)"
  shows "isAlarmRinging (tmr a') \<and> \<not> playing (audioRef a') \<and> selectedAlarm (sts a') = i
     \<and> src (audioRef a') = selected_src (sts a') \<and> primary (render (tmr a') (sts a')) = StopAlarmButton
     \<and> app_step e' a' Interval = (a', [])"
proof -
  have tinv: "timer_inv (tmr a)" using inv by (simp add: app_inv_def)
  have idle: "\<not> isActive (tmr a)" using tinv ring by (simp add: timer_inv_def base_inv_def)
  let ?s = "(sts a)\<lparr>selectedAlarm := i\<rparr>"
  have valid: "selection_valid ?s" using listed by (simp add: selection_valid_def)
  have sfx: "audio_src_effect (customAlarms (sts a)) i = [AudioCmd (ASetSrc (selected_src ?s))]"
    using audio_src_effect_valid [OF valid] by simp
  have sstep: "settings_step e (sts a) (SelectAlarm i)
      = (fst (settings_commit (sts a) ?s), [AudioCmd (ASetSrc (selected_src ?s))])"
    using opn listed other sfx
    by (simp add: settings_step_split settings_control_def selectAlarm_def settings_commit_def Let_def)
  have a': "a' = a\<lparr>sts := fst (settings_commit (sts a) ?s),
                   audioRef := audio_step (audioRef a) (ASetSrc (selected_src ?s))\<rparr>"
    using step opn listed sstep by (auto simp: app_step_def rendered_def settings_part_def)
  have src: "selected_src (fst (settings_commit (sts a) ?s)) = selected_src ?s"
    by (rule selected_src_frame) simp_all
  show ?thesis using tick_inactive [OF tinv idle, of e'] ring
    by (simp add: a' src app_step_def timer_part_def selectAlarm_def)
qed

theorem selecting_while_ringing_silences_witness:
  "isAlarmRinging (tmr (fst (app_step \<lparr>now = 9, hidden = False, granted = False\<rparr>
      \<lparr>tmr = timer_init\<lparr>timeLeft := 0, isAlarmRinging := True\<rparr>,
       sts = \<lparr>customAlarms = [\<lparr>alarm_id = ''1'', name = ''bell.wav'', data = ''u''\<rparr>], alarmsRef = 0,
              selectedAlarm = ''default'', isOptionsOpen = True, readers = [],
              storage = save_selected ''default'' (save_alarms [\<lparr>alarm_id = ''1'', name = ''bell.wav'', data = ''u''\<rparr>] Map.empty)\<rparr>,
       audioRef = \<lparr>src = DefaultSound, playing = True, currentTime = 0, looping = True,
         decodable = \<lambda>x. True, rejections = 0\<rparr>\<rparr> (Click (AlarmItem ''1'')))))
   \<and> \<not> playing (audioRef (fst (app_step \<lparr>now = 9, hidden = False, granted = False\<rparr>
      \<lparr>tmr = timer_init\<lparr>timeLeft := 0, isAlarmRinging := True\<rparr>,
       sts = \<lparr>customAlarms = [\<lparr>alarm_id = ''1'', name = ''bell.wav'', data = ''u''\<rparr>], alarmsRef = 0,
              selectedAlarm = ''default'', isOptionsOpen = True, readers = [],
              storage = save_selected ''default'' (save_alarms [\<lparr>alarm_id = ''1'', name = ''bell.wav'', data = ''u''\<rparr>] Map.empty)\<rparr>,
       audioRef = \<lparr>src = DefaultSound, playing = True, currentTime = 0, looping = True,
         decodable = \<lambda>x. True, rejections = 0\<rparr>\<rparr> (Click (AlarmItem ''1'')))))"
  (is "isAlarmRinging (tmr (fst (app_step ?e ?a ?c))) \<and> _")
proof -
  have inv: "app_inv ?a"
    by (simp add: app_inv_def timer_inv_def base_inv_def timer_init_def settings_inv_def save_alarms_def
        save_selected_def selection_valid_def selected_src_def)
  show ?thesis
    using selecting_while_ringing_silences [OF inv, of "''1''" ?e "fst (app_step ?e ?a ?c)" "snd (app_step ?e ?a ?c)" ?e]
    by (simp add: timer_init_def del: app_step_def)
qed

text \<open>
  C30.  A playback failure leaves the alarm dismissable: when the countdown of a
  reachable state ends on a source the platform cannot decode, the tick still marks
  the alarm ringing and shows the stop button, the element stays silent, the
  rejection handler runs once, and a click on the primary control dismisses the alarm.
\<close>

theorem undecodable_alarm_still_dismissable:
  assumes inv: "app_inv a" and act: "isActive (tmr a)" and endt: "endTimeRef (tmr a) = Some v"
    and late: "v \<le> now e" and bad: "\<not> decodable (audioRef a) (src (audioRef a))"
    and step: "app_step e a Interval = (a', fx)"
  shows "isAlarmRinging (tmr a') \<and> \<not> playing (audioRef a')
     \<and> rejections (audioRef a') = Suc (rejections (audioRef a))
     \<and> primary (render (tmr a') (sts a')) = StopAlarmButton
     \<and> \<not> isAlarmRinging (tmr (fst (app_step e' a' (Click PrimaryButton))))"
proof -
  have tinv: "timer_inv (tmr a)" and quiet: "\<not> playing (audioRef a)"
    using inv timer_inv_activeD [of "tmr a"] act by (auto simp: app_inv_def)
  have a': "a' = a\<lparr>tmr := (tmr a)\<lparr>isActive := False, timerRef := False, endTimeRef := None, timeLeft := 0,
                       isAlarmRinging := True\<rparr>,
              audioRef := (audioRef a)\<lparr>rejections := Suc (rejections (audioRef a))\<rparr>\<rparr>"
    using step tick_finish_step [OF tinv act endt late] bad
    by (auto simp: app_step_def timer_part_def)
  show ?thesis using quiet
    by (simp add: a' app_step_def timer_part_def rendered_def timer_step_handler stopAlarm_def
        timer_commit_def)
qed

theorem undecodable_alarm_still_dismissable_witness:
  "\<not> isAlarmRinging (tmr (fst (app_step \<lparr>now = 5100, hidden = False, granted = False\<rparr>
      (fst (app_step \<lparr>now = 5000, hidden = False, granted = False\<rparr> (\<lparr>tmr = timer_init\<lparr>timeLeft := 5, isActive := True, endTimeRef := Some 5000, timerRef := True\<rparr>,
      sts = \<lparr>customAlarms = [], alarmsRef = 0, selectedAlarm = ''default'', isOptionsOpen = False, readers = [],
             storage = save_selected ''default'' (save_alarms [] Map.empty)\<rparr>,
      audioRef = \<lparr>src = DefaultSound, playing = False, currentTime = 0, looping = True,
         decodable = \<lambda>x. False, rejections = 0\<rparr>\<rparr>) Interval)) (Click PrimaryButton))))
   \<and> rejections (audioRef (fst (app_step \<lparr>now = 5000, hidden = False, granted = False\<rparr> (\<lparr>tmr = timer_init\<lparr>timeLeft := 5, isActive := True, endTimeRef := Some 5000, timerRef := True\<rparr>,
      sts = \<lparr>customAlarms = [], alarmsRef = 0, selectedAlarm = ''default'', isOptionsOpen = False, readers = [],
             storage = save_selected ''default'' (save_alarms [] Map.empty)\<rparr>,
      audioRef = \<lparr>src = DefaultSound, playing = False, currentTime = 0, looping = True,
         decodable = \<lambda>x. False, rejections = 0\<rparr>\<rparr>) Interval))) = 1"
proof -
  have "app_inv (\<lparr>tmr = timer_init\<lparr>timeLeft := 5, isActive := True, endTimeRef := Some 5000, timerRef := True\<rparr>,
      sts = \<lparr>customAlarms = [], alarmsRef = 0, selectedAlarm = ''default'', isOptionsOpen = False, readers = [],
             storage = save_selected ''default'' (save_alarms [] Map.empty)\<rparr>,
      audioRef = \<lparr>src = DefaultSound, playing = False, currentTime = 0, looping = True,
         decodable = \<lambda>x. False, rejections = 0\<rparr>\<rparr>)"
    by (simp add: app_inv_def timer_inv_def base_inv_def timer_init_def settings_inv_def save_alarms_def
        save_selected_def selection_valid_def selected_src_def)
  then show ?thesis
    using undecodable_alarm_still_dismissable [of "\<lparr>tmr = timer_init\<lparr>timeLeft := 5, isActive := True, endTimeRef := Some 5000, timerRef := True\<rparr>,
      sts = \<lparr>customAlarms = [], alarmsRef = 0, selectedAlarm = ''default'', isOptionsOpen = False, readers = [],
             storage = save_selected ''default'' (save_alarms [] Map.empty)\<rparr>,
      audioRef = \<lparr>src = DefaultSound, playing = False, currentTime = 0, looping = True,
         decodable = \<lambda>x. False, rejections = 0\<rparr>\<rparr>" 5000 "\<lparr>now = 5000, hidden = False, granted = False\<rparr>"
        "fst (app_step \<lparr>now = 5000, hidden = False, granted = False\<rparr> (\<lparr>tmr = timer_init\<lparr>timeLeft := 5, isActive := True, endTimeRef := Some 5000, timerRef := True\<rparr>,
      sts = \<lparr>customAlarms = [], alarmsRef = 0, selectedAlarm = ''default'', isOptionsOpen = False, readers = [],
             storage = save_selected ''default'' (save_alarms [] Map.empty)\<rparr>,
      audioRef = \<lparr>src = DefaultSound, playing = False, currentTime = 0, looping = True,
         decodable = \<lambda>x. False, rejections = 0\<rparr>\<rparr>) Interval)"
        "snd (app_step \<lparr>now = 5000, hidden = False, granted = False\<rparr> (\<lparr>tmr = timer_init\<lparr>timeLeft := 5, isActive := True, endTimeRef := Some 5000, timerRef := True\<rparr>,
      sts = \<lparr>customAlarms = [], alarmsRef = 0, selectedAlarm = ''default'', isOptionsOpen = False, readers = [],
             storage = save_selected ''default'' (save_alarms [] Map.empty)\<rparr>,
      audioRef = \<lparr>src = DefaultSound, playing = False, currentTime = 0, looping = True,
         decodable = \<lambda>x. False, rejections = 0\<rparr>\<rparr>) Interval)"
        "\<lparr>now = 5100, hidden = False, granted = False\<rparr>"]
    by simp
qed

end
