(* ===== verification/Interval.thy ===== *)
theory Interval
  imports Timer
begin

text \<open>
  The interval of the timer effect (\<open>src/src/App.jsx\<close>, lines 107--125) as a loop:
  \<open>setInterval(callback, 200)\<close> calls the callback every 200 ms until
  \<open>clearInterval\<close>.  \<open>interval_loop h g t s\<close> delivers the ticks at \<open>t\<close>, \<open>t + 200\<close>,
  \<dots> with the document's visibility \<open>h\<close> and notification permission \<open>g\<close> fixed,
  each followed by the commit of the timer effect, while the interval is scheduled
  (\<open>timerRef\<close>).  It returns the final state, the effects in order and the instant
  of the tick that cleared the interval.  Nothing bounds the number of ticks in
  advance, so the loop is a \<open>partial_function\<close> in the option monad: \<open>None\<close> is a
  loop that never stops, and that it stops is a theorem.
\<close>

partial_function (option) interval_loop :: "bool \<Rightarrow> bool \<Rightarrow> ms \<Rightarrow> timer \<Rightarrow> (timer \<times> effect list \<times> ms) option" where
  "interval_loop h g t s =
     (if \<not> timerRef s then Some (s, [], t)
      else
        (let r = timer_step \<lparr>now = t, hidden = h, granted = g\<rparr> s Tick
         in if timerRef (fst r)
            then Option.bind (interval_loop h g (t + 200) (fst r))
                   (\<lambda>(s', fx, t'). Some (s', snd r @ fx, t'))
            else Some (fst r, snd r, t)))"

lemma interval_loop_active:
  assumes "timer_inv s" "isActive s" "endTimeRef s = Some v"
  shows "\<exists>s' fx t'. interval_loop h g t s = Some (s', fx, t') \<and> v \<le> t'
           \<and> (v \<le> t \<longrightarrow> t' = t) \<and> (t < v \<longrightarrow> t' < v + 200)
           \<and> isAlarmRinging s' \<and> \<not> isActive s' \<and> count_plays fx = 1"
  using assms
proof (induction "nat (v - t)" arbitrary: t s rule: less_induct)
  case less
  let ?e = "\<lparr>now = t, hidden = h, granted = g\<rparr>"
  have run: "timerRef s" using timer_inv_activeD [OF less.prems(1,2)] by simp
  show ?case
  proof (cases "v \<le> t")
    case True
    with tick_finish_step [OF less.prems, of ?e] run show ?thesis
      by (simp add: interval_loop.simps [of h g t s] Let_def)
  next
    case False
    then obtain x where x: "0 \<le> x" and st: "timer_step ?e s Tick = (s\<lparr>timeLeft := x\<rparr>, [])"
      using tick_before_end [OF less.prems, of ?e] by auto
    have inv': "timer_inv (s\<lparr>timeLeft := x\<rparr>)" using less.prems(1) x by (rule timer_inv_timeLeft)
    have "nat (v - (t + 200)) < nat (v - t)" using False by simp
    then obtain s' fx t' where r: "interval_loop h g (t + 200) (s\<lparr>timeLeft := x\<rparr>) = Some (s', fx, t')"
      and "v \<le> t'" "v \<le> t + 200 \<longrightarrow> t' = t + 200" "t + 200 < v \<longrightarrow> t' < v + 200"
      and "isAlarmRinging s'" "\<not> isActive s'" "count_plays fx = 1"
      using less.hyps [of "t + 200" "s\<lparr>timeLeft := x\<rparr>"] inv' less.prems(2,3) by auto
    with False run st show ?thesis
      by (auto simp: interval_loop.simps [of h g t s] Let_def)
  qed
qed

text \<open>
  C29.  Liveness with a bound: a running countdown whose end instant \<open>v\<close> lies
  after the first tick rings: the loop stops at a tick at or after \<open>v\<close> and less
  than one period (200 ms) later, with the timer stopped, the alarm ringing and the
  sound started exactly once.
\<close>

theorem alarm_within_one_period:
  "timer_inv s \<Longrightarrow> isActive s \<Longrightarrow> endTimeRef s = Some v \<Longrightarrow> t < v \<Longrightarrow>
   \<exists>s' fx t'. interval_loop h g t s = Some (s', fx, t') \<and> v \<le> t' \<and> t' < v + 200
     \<and> isAlarmRinging s' \<and> \<not> isActive s' \<and> count_plays fx = 1"
  using interval_loop_active [of s v h g t] by auto

theorem alarm_within_one_period_witness:
  "fst (timer_step \<lparr>now = 0, hidden = False, granted = False\<rparr> (timer_init\<lparr>timeLeft := 5\<rparr>) ToggleTimer) = timer_init\<lparr>timeLeft := 5, isActive := True, endTimeRef := Some 5000, timerRef := True\<rparr>
   \<and> (\<exists>s' fx t'. interval_loop False False 200 (timer_init\<lparr>timeLeft := 5, isActive := True, endTimeRef := Some 5000, timerRef := True\<rparr>) = Some (s', fx, t') \<and> 5000 \<le> t' \<and> t' < 5200
        \<and> isAlarmRinging s' \<and> \<not> isActive s' \<and> count_plays fx = 1)"
proof -
  have "timer_inv (timer_init\<lparr>timeLeft := 5, isActive := True, endTimeRef := Some 5000, timerRef := True\<rparr>)" by (simp add: timer_inv_def base_inv_def timer_init_def)
  then show ?thesis using alarm_within_one_period [of "timer_init\<lparr>timeLeft := 5, isActive := True, endTimeRef := Some 5000, timerRef := True\<rparr>" 5000 200 False False]
    by (simp add: timer_step_handler toggleTimer_def timer_init_def timer_commit_def timer_effect_def)
qed

end
