(* ===== verification/App_Loop.thy ===== *)
theory App_Loop
  imports App Interval
begin

text \<open>
  The interval of \<open>src/src/App.jsx\<close> (lines 107--125) driving the whole component:
  \<open>app_interval_loop h g t a\<close> delivers the event \<open>Interval\<close> to \<open>app_step\<close> at \<open>t\<close>,
  \<open>t + 200\<close>, \<dots> while the interval is scheduled, so each tick is followed by the
  commit of the timer effect and by the audio calls it makes on the element.  It
  returns the final application state and the instant of the tick that cleared
  the interval; as for \<open>interval_loop\<close>, \<open>None\<close> would be a loop that never stops.
\<close>

partial_function (option) app_interval_loop :: "bool \<Rightarrow> bool \<Rightarrow> ms \<Rightarrow> app \<Rightarrow> (app \<times> ms) option" where
  "app_interval_loop h g t a =
     (if \<not> timerRef (tmr a) then Some (a, t)
      else
        (let a' = fst (app_step \<lparr>now = t, hidden = h, granted = g\<rparr> a Interval)
         in if timerRef (tmr a') then app_interval_loop h g (t + 200) a' else Some (a', t)))"

lemma app_tick_before_end:
  assumes "app_inv a" "isActive (tmr a)" "endTimeRef (tmr a) = Some v" "now e < v"
  shows "\<exists>x. 0 \<le> x \<and> fst (app_step e a Interval) = a\<lparr>tmr := (tmr a)\<lparr>timeLeft := x\<rparr>\<rparr>"
proof -
  have "timer_inv (tmr a)" using assms(1) by (simp add: app_inv_def)
  then obtain x where "0 \<le> x" "timer_step e (tmr a) Tick = ((tmr a)\<lparr>timeLeft := x\<rparr>, [])"
    using tick_before_end [of "tmr a" v e] assms(2-4) by auto
  then show ?thesis by (auto simp: app_step_def timer_part_def)
qed

lemma app_tick_finish:
  assumes "app_inv a" "isActive (tmr a)" "endTimeRef (tmr a) = Some v" "v \<le> now e"
    and "decodable (audioRef a) (src (audioRef a))"
  shows "isAlarmRinging (tmr (fst (app_step e a Interval))) \<and> \<not> timerRef (tmr (fst (app_step e a Interval)))
     \<and> playing (audioRef (fst (app_step e a Interval)))
     \<and> src (audioRef (fst (app_step e a Interval))) = src (audioRef a)
     \<and> sts (fst (app_step e a Interval)) = sts a"
proof -
  have "timer_inv (tmr a)" using assms(1) by (simp add: app_inv_def)
  with tick_finish_step [of "tmr a" v e] assms(2-5) show ?thesis
    by (simp add: app_step_def timer_part_def)
qed

lemma app_inv_timeLeft: "app_inv a \<Longrightarrow> 0 \<le> x \<Longrightarrow> app_inv (a\<lparr>tmr := (tmr a)\<lparr>timeLeft := x\<rparr>\<rparr>)"
  by (simp add: app_inv_def timer_inv_timeLeft)

lemma app_interval_loop_active:
  assumes "app_inv a" "isActive (tmr a)" "endTimeRef (tmr a) = Some v"
    and "decodable (audioRef a) (selected_src (sts a))"
  shows "\<exists>a' t'. app_interval_loop h g t a = Some (a', t') \<and> v \<le> t'
           \<and> (v \<le> t \<longrightarrow> t' = t) \<and> (t < v \<longrightarrow> t' < v + 200)
           \<and> isAlarmRinging (tmr a') \<and> playing (audioRef a') \<and> src (audioRef a') = selected_src (sts a')
           \<and> sts a' = sts a"
  using assms
proof (induction "nat (v - t)" arbitrary: t a rule: less_induct)
  case less
  let ?e = "\<lparr>now = t, hidden = h, granted = g\<rparr>"
  have run: "timerRef (tmr a)" using less.prems(1,2) timer_inv_activeD [of "tmr a"] by (simp add: app_inv_def)
  have src: "src (audioRef a) = selected_src (sts a)" using less.prems(1) by (simp add: app_inv_def)
  show ?case
  proof (cases "v \<le> t")
    case True
    with app_tick_finish [OF less.prems(1-3), of ?e] less.prems(4) src run show ?thesis
      by (simp add: app_interval_loop.simps [of h g t a] Let_def)
  next
    case False
    then obtain x where x: "0 \<le> x" and st: "fst (app_step ?e a Interval) = a\<lparr>tmr := (tmr a)\<lparr>timeLeft := x\<rparr>\<rparr>"
      using app_tick_before_end [OF less.prems(1-3), of ?e] by auto
    have "nat (v - (t + 200)) < nat (v - t)" using False by simp
    then obtain a' t' where "app_interval_loop h g (t + 200) (a\<lparr>tmr := (tmr a)\<lparr>timeLeft := x\<rparr>\<rparr>) = Some (a', t')"
      and "v \<le> t'" "v \<le> t + 200 \<longrightarrow> t' = t + 200" "t + 200 < v \<longrightarrow> t' < v + 200"
      and "isAlarmRinging (tmr a')" "playing (audioRef a')" "src (audioRef a') = selected_src (sts a')"
      and "sts a' = sts a"
      using less.hyps [of "t + 200" "a\<lparr>tmr := (tmr a)\<lparr>timeLeft := x\<rparr>\<rparr>"] app_inv_timeLeft [OF less.prems(1) x]
        less.prems(2-4) by auto
    with False run st show ?thesis
      by (auto simp: app_interval_loop.simps [of h g t a] Let_def)
  qed
qed

text \<open>
  C27.  End to end, the selected sound plays on time: in a state satisfying the
  invariant of the composed application (every reachable state does, C23) with a
  running countdown whose end instant \<open>v\<close> lies after the first tick, and a
  selected sound the platform can decode, the interval stops at a tick less than
  200 ms after \<open>v\<close>, with the alarm ringing, the element playing the selected
  sound, and the settings untouched.
\<close>

theorem selected_sound_plays_on_time:
  "app_inv a \<Longrightarrow> isActive (tmr a) \<Longrightarrow> endTimeRef (tmr a) = Some v \<Longrightarrow> t < v \<Longrightarrow>
   decodable (audioRef a) (selected_src (sts a)) \<Longrightarrow>
   \<exists>a' t'. app_interval_loop h g t a = Some (a', t') \<and> v \<le> t' \<and> t' < v + 200
     \<and> isAlarmRinging (tmr a') \<and> playing (audioRef a') \<and> src (audioRef a') = selected_src (sts a')
     \<and> sts a' = sts a"
  using app_interval_loop_active [of a v h g t] by auto

theorem selected_sound_plays_on_time_witness:
  "\<exists>a' t'. app_interval_loop False False 200 (\<lparr>tmr = timer_init\<lparr>timeLeft := 5, isActive := True, endTimeRef := Some 5000, timerRef := True\<rparr>,
      sts = \<lparr>customAlarms = [], alarmsRef = 0, selectedAlarm = ''default'', isOptionsOpen = False, readers = [],
             storage = save_selected ''default'' (save_alarms [] Map.empty)\<rparr>,
      audioRef = \<lparr>src = DefaultSound, playing = False, currentTime = 0, looping = True,
         decodable = \<lambda>x. True, rejections = 0\<rparr>\<rparr>) = Some (a', t') \<and> 5000 \<le> t' \<and> t' < 5200
     \<and> playing (audioRef a') \<and> src (audioRef a') = DefaultSound"
proof -
  have "app_inv (\<lparr>tmr = timer_init\<lparr>timeLeft := 5, isActive := True, endTimeRef := Some 5000, timerRef := True\<rparr>,
      sts = \<lparr>customAlarms = [], alarmsRef = 0, selectedAlarm = ''default'', isOptionsOpen = False, readers = [],
             storage = save_selected ''default'' (save_alarms [] Map.empty)\<rparr>,
      audioRef = \<lparr>src = DefaultSound, playing = False, currentTime = 0, looping = True,
         decodable = \<lambda>x. True, rejections = 0\<rparr>\<rparr>)"
    by (simp add: app_inv_def timer_inv_def base_inv_def timer_init_def settings_inv_def save_alarms_def
        save_selected_def selection_valid_def selected_src_def)
  then show ?thesis
    using selected_sound_plays_on_time [of "\<lparr>tmr = timer_init\<lparr>timeLeft := 5, isActive := True, endTimeRef := Some 5000, timerRef := True\<rparr>,
      sts = \<lparr>customAlarms = [], alarmsRef = 0, selectedAlarm = ''default'', isOptionsOpen = False, readers = [],
             storage = save_selected ''default'' (save_alarms [] Map.empty)\<rparr>,
      audioRef = \<lparr>src = DefaultSound, playing = False, currentTime = 0, looping = True,
         decodable = \<lambda>x. True, rejections = 0\<rparr>\<rparr>" 5000 200 False False]
    by (auto simp: timer_init_def selected_src_def)
qed

end
