(* ===== verification/Window.thy ===== *)
theory Window
  imports Prelude
begin

text \<open>
  The Electron main process, \<open>src/electron/main.cjs\<close>: the window options of
  \<open>createWindow\<close>, the page it loads, the window-open handler, and the life cycle
  of application instances under \<open>requestSingleInstanceLock\<close> (launch, ready,
  activate, closing a window, \<open>window-all-closed\<close>, \<open>second-instance\<close>).  Several
  launches of the program are several instances in one system state; the lock is
  held by the running instance that acquired it and released when it quits.
\<close>

record window_options =
  width :: nat
  height :: nat
  nodeIntegration :: bool
  contextIsolation :: bool
  backgroundThrottling :: bool
  autoHideMenuBar :: bool
  frame :: bool
  resizable :: bool

text \<open>The options of \<open>new BrowserWindow\<close> (lines 39--51; the icon path is left out).\<close>

definition createWindow_options :: window_options where
  "createWindow_options =
     \<lparr>width = 720, height = 720, nodeIntegration = False, contextIsolation = True,
      backgroundThrottling = False, autoHideMenuBar = True, frame = True, resizable = False\<rparr>"

datatype load_target = LoadURL string | LoadFile string

text \<open>Lines 54 and 64--71: the dev server when not packaged, the built page otherwise
  (relative to the directory of \<open>main.cjs\<close>).\<close>

definition load_target :: "bool \<Rightarrow> load_target" where
  "load_target isPackaged =
     (if \<not> isPackaged then LoadURL ''http://localhost:5173'' else LoadFile ''../dist/index.html'')"

text \<open>The window icon (line 50): the copy Vite puts in \<open>dist\<close> when packaged, the
  source file otherwise.\<close>

definition icon_path :: "bool \<Rightarrow> string" where
  "icon_path isPackaged = (if isPackaged then ''../dist/icon.png'' else ''../public/icon.png'')"

text \<open>\<open>app.disableHardwareAcceleration()\<close> (line 7), called before anything else.\<close>

definition hardware_acceleration :: bool where
  "hardware_acceleration = False"

datatype open_action = Deny | Allow

text \<open>\<open>setWindowOpenHandler\<close> (lines 57--62): the URLs handed to \<open>shell.openExternal\<close>
  and the action returned to Electron.\<close>

definition windowOpenHandler :: "string \<Rightarrow> string list \<times> open_action" where
  "windowOpenHandler url = (if take 6 url = ''https:'' then ([url], Deny) else ([], Deny))"

subsection \<open>Instances and windows\<close>

record win =
  minimized :: bool
  focused :: bool

record app_instance =
  has_lock :: bool
  running :: bool
  ready :: bool
  windows :: "win list"

record system =
  darwin :: bool
  insts :: "app_instance list"

definition new_window :: win where
  "new_window = \<lparr>minimized = False, focused = True\<rparr>"

definition lock_taken :: "system \<Rightarrow> bool" where
  "lock_taken s = list_ex (\<lambda>i. running i \<and> has_lock i) (insts s)"

text \<open>The \<open>second-instance\<close> listener (lines 16--24): restore and focus the first
  window, if any.\<close>

definition second_instance :: "app_instance \<Rightarrow> app_instance" where
  "second_instance i =
     (case windows i of
        [] \<Rightarrow> i
      | w # ws \<Rightarrow> i\<lparr>windows := w\<lparr>minimized := False, focused := True\<rparr> # ws\<rparr>)"

text \<open>A launch (lines 11--36): a new instance asks for the lock; without it, it
  quits at once and the holder receives \<open>second-instance\<close>.\<close>

definition launch :: "system \<Rightarrow> system" where
  "launch s =
     (if lock_taken s then
        s\<lparr>insts := map (\<lambda>i. if running i \<and> has_lock i then second_instance i else i) (insts s)
                    @ [\<lparr>has_lock = False, running = False, ready = False, windows = []\<rparr>]\<rparr>
      else s\<lparr>insts := insts s @ [\<lparr>has_lock = True, running = True, ready = False, windows = []\<rparr>]\<rparr>)"

text \<open>\<open>app.whenReady().then(...)\<close> (lines 27--35): the first window; afterwards the
  \<open>activate\<close> listener creates one only when none is open.\<close>

definition on_ready :: "app_instance \<Rightarrow> app_instance" where
  "on_ready i =
     (if running i \<and> has_lock i \<and> \<not> ready i then i\<lparr>ready := True, windows := windows i @ [new_window]\<rparr> else i)"

definition on_activate :: "app_instance \<Rightarrow> app_instance" where
  "on_activate i =
     (if running i \<and> ready i \<and> windows i = [] then i\<lparr>windows := [new_window]\<rparr> else i)"

text \<open>Closing a window; when none is left, \<open>window-all-closed\<close> (lines 74--78) quits
  except on macOS.\<close>

definition close_window :: "bool \<Rightarrow> nat \<Rightarrow> app_instance \<Rightarrow> app_instance" where
  "close_window isDarwin k i =
     (if running i \<and> k < length (windows i) then
        (let ws = take k (windows i) @ drop (Suc k) (windows i)
         in if ws = [] \<and> \<not> isDarwin then i\<lparr>windows := ws, running := False\<rparr> else i\<lparr>windows := ws\<rparr>)
      else i)"

definition minimize_window :: "nat \<Rightarrow> app_instance \<Rightarrow> app_instance" where
  "minimize_window k i =
     (if k < length (windows i) then i\<lparr>windows := (windows i)[k := (windows i ! k)\<lparr>minimized := True, focused := False\<rparr>]\<rparr>
      else i)"

datatype sys_event = Launch | Ready nat | Activate nat | CloseWindow nat nat | MinimizeWindow nat nat

definition on_inst :: "nat \<Rightarrow> (app_instance \<Rightarrow> app_instance) \<Rightarrow> system \<Rightarrow> system" where
  "on_inst n f s = (if n < length (insts s) then s\<lparr>insts := (insts s)[n := f (insts s ! n)]\<rparr> else s)"

fun sys_step :: "system \<Rightarrow> sys_event \<Rightarrow> system" where
  "sys_step s Launch = launch s"
| "sys_step s (Ready n) = on_inst n on_ready s"
| "sys_step s (Activate n) = on_inst n on_activate s"
| "sys_step s (CloseWindow n k) = on_inst n (close_window (darwin s) k) s"
| "sys_step s (MinimizeWindow n k) = on_inst n (minimize_window k) s"

inductive sys_reachable :: "system \<Rightarrow> bool" where
  init: "sys_reachable \<lparr>darwin = d, insts = []\<rparr>"
| step: "sys_reachable s \<Longrightarrow> sys_reachable (sys_step s ev)"

text \<open>Per instance: only the lock holder runs, windows exist only after \<open>ready\<close>
  and only while running, and there is at most one.  System-wide: at most one
  instance runs.\<close>

definition inst_ok :: "app_instance \<Rightarrow> bool" where
  "inst_ok i \<longleftrightarrow> (running i \<longrightarrow> has_lock i) \<and> (\<not> ready i \<longrightarrow> windows i = [])
     \<and> length (windows i) \<le> 1 \<and> (windows i \<noteq> [] \<longrightarrow> running i)"

definition sys_inv :: "system \<Rightarrow> bool" where
  "sys_inv s \<longleftrightarrow> list_all inst_ok (insts s) \<and> length (filter running (insts s)) \<le> 1"

lemma length_filter_update_le:
  "n < length xs \<Longrightarrow> (P y \<longrightarrow> P (xs ! n)) \<Longrightarrow> length (filter P (xs[n := y])) \<le> length (filter P xs)"
proof (induction xs arbitrary: n)
  case (Cons x xs)
  then show ?case by (cases n) auto
qed simp

lemma list_all_update:
  "list_all P xs \<Longrightarrow> P y \<Longrightarrow> list_all P (xs[n := y])"
  by (auto simp: list_all_iff dest: set_update_subset_insert [THEN subsetD])

lemma on_inst_inv:
  assumes "sys_inv s" and "\<And>i. inst_ok i \<Longrightarrow> inst_ok (f i)" and "\<And>i. running (f i) \<Longrightarrow> running i"
  shows "sys_inv (on_inst n f s)"
proof (cases "n < length (insts s)")
  case True
  then have "inst_ok (f (insts s ! n))" using assms(1,2) by (simp add: sys_inv_def list_all_length)
  moreover have "length (filter running ((insts s)[n := f (insts s ! n)])) \<le> length (filter running (insts s))"
    using True assms(3) by (intro length_filter_update_le) auto
  ultimately show ?thesis using assms(1) True by (auto simp: sys_inv_def on_inst_def list_all_update)
qed (use assms(1) in \<open>simp add: on_inst_def\<close>)

lemma instance_ops_ok:
  "inst_ok i \<Longrightarrow> inst_ok (on_ready i)"
  "inst_ok i \<Longrightarrow> inst_ok (on_activate i)"
  "inst_ok i \<Longrightarrow> inst_ok (close_window d k i)"
  "inst_ok i \<Longrightarrow> inst_ok (minimize_window k i)"
  "inst_ok i \<Longrightarrow> inst_ok (second_instance i)"
  by (auto simp: inst_ok_def on_ready_def on_activate_def close_window_def minimize_window_def
      second_instance_def Let_def split: list.split)

lemma instance_ops_running:
  "running (on_ready i) = running i"
  "running (on_activate i) = running i"
  "running (close_window d k i) \<Longrightarrow> running i"
  "running (minimize_window k i) = running i"
  "running (second_instance i) = running i"
  "windows (second_instance i) = [] \<longleftrightarrow> windows i = []"
  by (auto simp: on_ready_def on_activate_def close_window_def minimize_window_def second_instance_def Let_def
      split: list.split if_splits)

lemma filter_running_notify:
  "filter running (map (\<lambda>i. if running i \<and> has_lock i then second_instance i else i) xs)
   = map (\<lambda>i. if running i \<and> has_lock i then second_instance i else i) (filter running xs)"
  by (induction xs) (auto simp: instance_ops_running)

lemma launch_inv:
  assumes inv: "sys_inv s"
  shows "sys_inv (launch s)"
proof (cases "lock_taken s")
  case True
  with inv True show ?thesis
    by (auto simp: filter_running_notify simp: sys_inv_def launch_def list_all_iff inst_ok_def [of "\<lparr>has_lock = False, running = False,
        ready = False, windows = []\<rparr>"] instance_ops_ok)
next
  case False
  with inv have "filter running (insts s) = []"
    by (auto simp: sys_inv_def lock_taken_def list_all_iff list_ex_iff inst_ok_def filter_empty_conv)
  with inv False show ?thesis by (simp add: sys_inv_def launch_def inst_ok_def)
qed

lemma sys_step_inv:
  assumes "sys_inv s"
  shows "sys_inv (sys_step s ev)"
proof (cases ev)
  case Launch
  with assms show ?thesis by (simp add: launch_inv)
next
  case (Ready n)
  with assms show ?thesis by simp (rule on_inst_inv, simp_all add: instance_ops_ok instance_ops_running)
next
  case (Activate n)
  with assms show ?thesis by simp (rule on_inst_inv, simp_all add: instance_ops_ok instance_ops_running)
next
  case (CloseWindow n k)
  with assms show ?thesis by simp (rule on_inst_inv, simp_all add: instance_ops_ok instance_ops_running)
next
  case (MinimizeWindow n k)
  with assms show ?thesis by simp (rule on_inst_inv, simp_all add: instance_ops_ok instance_ops_running)
qed

lemma windows_le_running:
  "list_all inst_ok xs \<Longrightarrow> length (concat (map windows xs)) \<le> length (filter running xs)"
proof (induction xs)
  case (Cons x xs)
  then have "length (windows x) \<le> (if running x then 1 else 0)" by (auto simp: inst_ok_def)
  with Cons show ?case by (simp split: if_splits)
qed simp

text \<open>
  C25.  Single instance, single window: in every reachable state of the system at
  most one instance of the program runs and at most one window exists, whatever the
  launches, activations and window closes.
\<close>

theorem single_instance_single_window:
  "sys_reachable s \<Longrightarrow> length (filter running (insts s)) \<le> 1 \<and> length (concat (map windows (insts s))) \<le> 1"
proof -
  assume "sys_reachable s"
  then have "sys_inv s"
  proof (induction rule: sys_reachable.induct)
    case (step s ev)
    then show ?case by (simp add: sys_step_inv)
  qed (simp add: sys_inv_def)
  then show ?thesis using windows_le_running [of "insts s"] by (simp add: sys_inv_def)
qed

theorem single_instance_single_window_witness:
  "sys_reachable (sys_step (sys_step (sys_step (sys_step \<lparr>darwin = False, insts = []\<rparr> Launch) (Ready 0)) Launch) (Activate 0))
   \<and> length (concat (map windows (insts
       (sys_step (sys_step (sys_step (sys_step \<lparr>darwin = False, insts = []\<rparr> Launch) (Ready 0)) Launch) (Activate 0))))) = 1"
proof -
  have r: "sys_reachable (sys_step (sys_step (sys_step (sys_step \<lparr>darwin = False, insts = []\<rparr> Launch) (Ready 0)) Launch) (Activate 0))"
    by (intro sys_reachable.step sys_reachable.init)
  show ?thesis using single_instance_single_window [OF r] r
    by (simp add: launch_def lock_taken_def on_inst_def on_ready_def on_activate_def second_instance_def)
qed

text \<open>
  C26.  A second launch while the program runs starts nothing: the new instance
  quits, the number of running instances is unchanged, and the running instance's
  window is restored and focused.
\<close>

theorem second_launch_restores_window:
  "sys_inv s \<Longrightarrow> n < length (insts s) \<Longrightarrow> running (insts s ! n) \<Longrightarrow> windows (insts s ! n) = w # ws \<Longrightarrow>
   windows (insts (launch s) ! n) = w\<lparr>minimized := False, focused := True\<rparr> # ws
   \<and> \<not> running (last (insts (launch s)))
   \<and> length (filter running (insts (launch s))) = length (filter running (insts s))"
proof -
  assume inv: "sys_inv s" and n: "n < length (insts s)" and r: "running (insts s ! n)"
    and w: "windows (insts s ! n) = w # ws"
  have "has_lock (insts s ! n)" using inv n r by (auto simp: sys_inv_def list_all_length inst_ok_def)
  then have "lock_taken s" using n r by (auto simp: lock_taken_def list_ex_iff)
  with n r w \<open>has_lock (insts s ! n)\<close> show ?thesis
    by (simp add: launch_def nth_append filter_running_notify second_instance_def)
qed

theorem second_launch_restores_window_witness:
  "sys_inv \<lparr>darwin = False, insts = [\<lparr>has_lock = True, running = True, ready = True, windows = [\<lparr>minimized = True, focused = False\<rparr>]\<rparr>]\<rparr>
   \<and> windows (insts (launch \<lparr>darwin = False, insts = [\<lparr>has_lock = True, running = True, ready = True, windows = [\<lparr>minimized = True, focused = False\<rparr>]\<rparr>]\<rparr>) ! 0) = [\<lparr>minimized = False, focused = True\<rparr>]"
  using second_launch_restores_window [of "\<lparr>darwin = False, insts = [\<lparr>has_lock = True, running = True, ready = True, windows = [\<lparr>minimized = True, focused = False\<rparr>]\<rparr>]\<rparr>" 0 "\<lparr>minimized = True, focused = False\<rparr>" "[]"]
  by (simp add: sys_inv_def inst_ok_def)

text \<open>
  C28.  The renderer never opens a window of its own: every request is denied, and
  only a URL whose scheme is \<open>https:\<close> is handed to the system browser.
\<close>

theorem windowOpenHandler_https_only:
  "snd (windowOpenHandler url) = Deny
   \<and> (\<forall>u \<in> set (fst (windowOpenHandler url)). \<exists>rest. u = ''https:'' @ rest)
   \<and> (fst (windowOpenHandler url) \<noteq> [] \<longleftrightarrow> (\<exists>rest. url = ''https:'' @ rest))"
proof -
  have "take 6 url = ''https:'' \<longleftrightarrow> (\<exists>rest. url = ''https:'' @ rest)"
  proof
    assume "take 6 url = ''https:''"
    then have "url = ''https:'' @ drop 6 url" by (metis append_take_drop_id)
    then show "\<exists>rest. url = ''https:'' @ rest" by blast
  qed auto
  then show ?thesis by (auto simp: windowOpenHandler_def)
qed

theorem windowOpenHandler_https_only_witness:
  "fst (windowOpenHandler ''https://github.com/ibrahimkorkut'') = [''https://github.com/ibrahimkorkut'']
   \<and> fst (windowOpenHandler ''file:///etc/passwd'') = []"
  using windowOpenHandler_https_only [of "''https://github.com/ibrahimkorkut''"]
  by (simp add: windowOpenHandler_def)

end
