(* ===== verification/Build.thy ===== *)
theory Build
  imports Prelude
begin

text \<open>
  The build configuration \<open>src/vite.config.js\<close>: the plugin list, the public base
  path and the esbuild \<open>drop\<close> list.  Two of its entries change what the shipped
  program does.  \<open>esbuild.drop\<close> removes statements from the bundle: \<open>console\<close>
  removes every call of a \<open>console\<close> method, \<open>debugger\<close> every \<open>debugger\<close>
  statement (esbuild's documented behaviour, modelled from its documentation on the
  statements of interest).  \<open>base\<close> prefixes every asset URL of the built
  \<open>index.html\<close>, which \<open>loadFile\<close> opens from the file system
  (\<open>src/electron/main.cjs\<close>, line 70).
\<close>

record vite_config =
  plugins :: "string list"
  base :: string
  esbuild_drop :: "string list"

definition vite_config :: vite_config where
  "vite_config = \<lparr>plugins = [''react''], base = ''./'', esbuild_drop = [''console'', ''debugger'']\<rparr>"

text \<open>The statements the bundler treats specially.\<close>

datatype js_stmt = ConsoleCall string string | Debugger | Stmt string

definition esbuild_bundle :: "vite_config \<Rightarrow> js_stmt list \<Rightarrow> js_stmt list" where
  "esbuild_bundle cfg prog =
     filter (\<lambda>st. case st of
                    ConsoleCall m msg \<Rightarrow> ''console'' \<notin> set (esbuild_drop cfg)
                  | Debugger \<Rightarrow> ''debugger'' \<notin> set (esbuild_drop cfg)
                  | Stmt x \<Rightarrow> True) prog"

text \<open>The rejection handler of \<open>audioRef.current.play()\<close> in \<open>handleTimerFinished\<close>
  (\<open>src/src/App.jsx\<close>, line 155).\<close>

definition play_rejection_handler :: "js_stmt list" where
  "play_rejection_handler = [ConsoleCall ''error'' ''Error playing alarm:'']"

text \<open>An asset URL in the built page: relative to the page with the base \<open>./\<close>,
  which is what lets \<open>loadFile\<close> find the assets next to \<open>dist/index.html\<close>.\<close>

definition asset_url :: "vite_config \<Rightarrow> string \<Rightarrow> string" where
  "asset_url cfg p = base cfg @ p"

lemma esbuild_bundle_config:
  "esbuild_bundle vite_config prog = filter (\<lambda>st. \<exists>x. st = Stmt x) prog"
proof -
  have "(case st of ConsoleCall m msg \<Rightarrow> ''console'' \<notin> set (esbuild_drop vite_config)
          | Debugger \<Rightarrow> ''debugger'' \<notin> set (esbuild_drop vite_config) | Stmt x \<Rightarrow> True)
        = (\<exists>x. st = Stmt x)" for st
    by (cases st) (simp_all add: vite_config_def)
  then show ?thesis by (simp add: esbuild_bundle_def)
qed

end
