(* ===== verification/Spec2Isabelle.thy ===== *)
theory Spec2Isabelle
  imports App_Loop Window Build
begin

text \<open>
  \<^bold>\<open>Tomidoro: a verification development of the countdown-timer widget.\<close>

  \<^bold>\<open>The program.\<close>  Tomidoro is an Electron application.  Its logic is one React
  component, \<open>App\<close> in \<open>src/src/App.jsx\<close>, which holds a Pomodoro-style timer
  (the timer engine), a list of user-supplied alarm sounds persisted in
  \<open>localStorage\<close> (the settings store) and renders both (the presentation layer).
  \<open>src/electron/main.cjs\<close> creates the fixed-size window under a single-instance lock;
  \<open>src/vite.config.js\<close> is build configuration.  The timer is driven by a 200 ms
  interval and by \<open>visibilitychange\<close> events; the display is always recomputed
  from a stored wall-clock end instant, never decremented per tick.

  \<^bold>\<open>Theories.\<close>
  \<^item> \<open>Prelude\<close>: the JavaScript arithmetic the code relies on (\<open>Math.ceil\<close> of a
    quotient, \<open>%\<close>, truthiness and \<open>null\<close> coercion of a ref), written out on \<open>int\<close>,
    with the ceiling-division lemmas every countdown proof uses; the collection
    \<open>handler_defs\<close> of handler definitions.
  \<^item> \<open>Modes\<close>: the \<open>MODES\<close> table (lines 5--26) as a datatype of presets and a
    record of label, base duration and colour; \<open>duration_of\<close> is the duration a
    reset, a mode switch or a re-arm restores.
  \<^item> \<open>Audio\<close>: the audio element of \<open>audioRef\<close> as a record, the method calls as the
    datatype \<open>audio_cmd\<close>, and \<open>effect\<close> (an audio call, a notification or an
    alert): the interface through which the timer and the settings act on the
    element.  \<open>play()\<close> plays a source the platform can decode (the element's
    \<open>decodable\<close>, a parameter) and otherwise rejects; \<open>rejections\<close> counts the
    runs of the rejection handler (its \<open>console.error\<close> is dropped from the
    production bundle, see \<open>Build\<close>).
  \<^item> \<open>Timer\<close>: the timer engine.  State \<open>timer\<close> = the React state the timer uses
    plus the refs \<open>endTimeRef\<close> and \<open>timerRef\<close>; one definition per handler
    (\<open>switchMode\<close>, \<open>toggleTimer\<close>, \<open>resetTimer\<close>, \<open>stopAlarm\<close>, \<open>adjustTime\<close>,
    \<open>handleTimerFinished\<close>, the interval callback \<open>interval_tick\<close>, the listener
    \<open>handleVisibilityChange\<close>), the timer effect of lines 102--133 as
    \<open>timer_effect\<close>/\<open>timer_commit\<close>, one committed event as \<open>timer_step\<close> and a
    sequence of events as \<open>timer_run\<close>.
  \<^item> \<open>Format\<close>: \<open>formatTime\<close> (lines 28--38) over \<open>Number.toString\<close> and
    \<open>padStart(2, '0')\<close> of integers (\<open>nat_str\<close>, \<open>int_str\<close>, \<open>padStart2\<close>), and a
    reference reader \<open>parse_time\<close> of the \<open>[H:]MM:SS\<close> display.
  \<^item> \<open>Json\<close>: \<open>JSON.stringify\<close> and \<open>JSON.parse\<close>, which the code only calls,
    restricted to what it stores: an array of \<open>{id, name, data}\<close> string objects
    (record \<open>custom_alarm\<close>), with string escaping as ECMAScript defines it.
  \<^item> \<open>Settings\<close>: the settings store.  State \<open>settings\<close> = the list
    \<open>customAlarms\<close> (with \<open>alarmsRef\<close>, the identity of its array), \<open>selectedAlarm\<close>,
    \<open>isOptionsOpen\<close>, the pending \<open>FileReader\<close> reads with the list each captured,
    and \<open>localStorage\<close> as a map.  \<open>load_settings\<close> is the pair of \<open>useState\<close>
    initialisers (lines 48--54), \<open>settings_commit\<close> the three effects of lines
    68--88, \<open>handleFileChange\<close>, \<open>reader_onload\<close>, \<open>deleteAlarm\<close>,
    \<open>selectAlarm\<close> and \<open>setOptionsOpen\<close> the handlers of the options modal
    (lines 235--262, 586--641); \<open>settings_step\<close>/\<open>settings_run\<close> compose them as
    the timer's steps do, \<open>settings_mount\<close> is the first render.
    \<open>setItem\<close> throws \<open>QuotaExceededError\<close> when the application's entries would
    exceed a quota \<open>q\<close> (a parameter: the browser's per-origin limit);
    \<open>settings_commit_checked\<close>, \<open>settings_step_checked\<close> and
    \<open>settings_run_checked\<close> return that error as \<open>Inl\<close>, the crash of the
    application, and agree with \<open>settings_commit\<close>, \<open>settings_step\<close> and
    \<open>settings_run\<close> whenever they do not crash (\<open>settings_run_checked_Inr\<close>), so
    the invariants proved over the latter hold for every run that does not crash.
  \<^item> \<open>View\<close>: the presentation layer.  \<open>render\<close> maps the timer and settings states
    to what the JSX shows (tabs, display, adjust buttons, primary control, the
    modal's alarm list); the datatype \<open>control\<close> lists the interactive elements,
    \<open>rendered\<close> says which are in the DOM and \<open>click\<close> which handler each calls.
  \<^item> \<open>App\<close>: the component as a whole.  State \<open>app\<close> = timer, settings and the
    audio element of \<open>audioRef\<close>; \<open>app_step\<close> delivers a click to a rendered control,
    the interval, a visibility change or a file read to its part and applies the
    returned effects to the element; \<open>app_mount\<close> is the first render.
  \<^item> \<open>Window\<close>: \<open>src/electron/main.cjs\<close>.  The window options and page of
    \<open>createWindow\<close>, \<open>windowOpenHandler\<close>, and the instances of the program on one
    machine (\<open>system\<close>) under the single-instance lock, with \<open>launch\<close>,
    \<open>on_ready\<close>, \<open>on_activate\<close>, \<open>close_window\<close> (\<open>window-all-closed\<close>) and
    \<open>second_instance\<close> composed by \<open>sys_step\<close>.
  \<^item> \<open>Interval\<close>: the \<open>setInterval(callback, 200)\<close> of the timer effect as a loop,
    \<open>interval_loop\<close>, a \<open>partial_function\<close> in the option monad that delivers a
    tick every 200 ms (each followed by the commit of the timer effect) until the
    interval is cleared.
  \<^item> \<open>App_Loop\<close>: the same interval driving the whole component,
    \<open>app_interval_loop\<close>, which delivers \<open>Interval\<close> events to \<open>app_step\<close> so that
    the timer, its effect and the audio calls on the element run together.
  \<^item> \<open>Build\<close>: \<open>src/vite.config.js\<close>, with the two entries that change the shipped
    program: esbuild's \<open>drop\<close> list (\<open>esbuild_bundle\<close>, modelled from esbuild's
    documentation; \<open>esbuild_bundle_config\<close> shows that the configured bundle keeps
    only ordinary statements) and the asset base path (\<open>asset_url\<close>), relative so
    that \<open>loadFile\<close> finds the assets.  No claim rests on this theory.

  \<^bold>\<open>How React is modelled.\<close>  A handler reads the state of the render that created
  it and schedules updates; it writes refs at once.  No handler of the program reads
  a state value after setting it, so a handler is a function from the old state to
  the new one.  After the handler, the effects whose dependencies changed run in
  declaration order; for the timer this is the effect on \<open>[isActive, currentMode]\<close>.
  Effects the program performs on the outside (audio calls, notifications) are
  returned as a list of \<open>effect\<close> values in the order the code performs them.

  \<^bold>\<open>What is proved about the timer\<close> (theory \<open>Timer\<close>, claims C1--C11).
  The countdown follows the wall clock: after a start at \<open>t0\<close>, a visible tick at
  \<open>t0 + d\<close> shows \<open>T - \<lfloor>d/1000\<rfloor>\<close>, whatever ticks came before (C1), and a run of
  ticks is equivalent to its last visible tick (C2).  The alarm starts exactly once
  per countdown, and only when a tick reaches the end instant (C3).  An invariant
  holds in every reachable state (C4): counts are non-negative, an interval is
  scheduled and an end instant stored exactly while the timer runs, and a running
  timer never rings.  Every event moves the abstract phase Idle/Running/Ringing
  along the state machine of the specification (C5, a refinement).  The handlers
  are characterised branch by branch (C6--C11): in particular a timer never starts
  with 0 seconds, which settles the specification's open question about a custom
  duration of 0.

  \<^bold>\<open>What is proved about formatting and settings\<close> (theories \<open>Format\<close>,
  \<open>Settings\<close>, claims C12--C21).  The display of a non-negative count reads back as
  that count (C12), has the hour form beyond an hour (C13) and the fixed \<open>MM:SS\<close>
  shape below it (C14).  Oversized uploads are refused without effect (C15).  An
  accepted upload is appended, selected, saved and played from when the saved text
  fits in the storage quota, and crashes the application with
  \<open>QuotaExceededError\<close> otherwise (C16, both branches, over the quota-checked run).
  Deletion resets exactly a deleted selection (C17); what is saved loads back
  (C18), and in every reachable state the storage mirrors the state so that a
  restart restores it (C19, an invariant by rule induction).  A read captures the
  list of its render: its completion undoes every edit made while it was pending,
  so a deleted alarm comes back (C20), and of two overlapping uploads only the one
  completing last survives, in either order (C21).

  \<^bold>\<open>What is proved about the view, the whole component and the window\<close>
  (theories \<open>View\<close>, \<open>App\<close>, \<open>Window\<close>, claims C22--C26 and C28).  Exactly one alarm
  entry of the modal is highlighted when ids are distinct (C22).  For the whole
  component, in every reachable state the audio element loops, holds the selected
  sound and plays only while the alarm is ringing (C23, by rule induction over
  mounts and steps).  Choosing another listed sound while the alarm rings stops the
  element for good, while the stop button is still shown and later interval
  events change nothing (C24).  For the main process, at most one instance runs and
  at most one window exists in every reachable state (C25); a second launch
  restores the existing window (C26); window-open requests are denied and only
  \<open>https:\<close> URLs reach the system browser (C28).

  \<^bold>\<open>Loops and failures\<close> (claims C27, C29, C30).  A running countdown rings at a
  tick less than one period after its end instant, with exactly one start of the
  sound (C29; the proof is an induction on the distance to the end instant, and
  its lemma \<open>interval_loop_active\<close> also shows that the loop stops from every state
  of the timer invariant).  End to end, in the composed application a running
  countdown with a decodable selected sound stops the interval less than one
  period after its end instant with the element playing the selected sound and
  the settings untouched (C27).  When the countdown ends on a source the platform
  cannot decode (an upload is checked for size only), the alarm is still marked
  ringing with its stop button, the element stays silent, the rejection handler
  runs once and the primary control dismisses it (C30).

  \<^bold>\<open>Bounds and assumptions.\<close>  Times are integral milliseconds from \<open>Date.now()\<close>;
  the reachable states are those produced by events whose clock is at or after the
  epoch (\<open>0 \<le> now\<close>), which makes every stored end instant positive and hence
  truthy.  \<open>Math.ceil(d / 1000)\<close> on an integral \<open>d\<close> is the exact integer ceiling
  (the floating-point quotient cannot cross an integer at these magnitudes).  No
  fuel is needed: every handler is non-recursive, runs are structural recursion
  over the event list, and the one unbounded loop, the interval, is a
  \<open>partial_function\<close> whose termination is proved (\<open>interval_loop_active\<close>).  Integers are unbounded:
  JavaScript numbers are exact on the integers the program reaches (clock values
  and second counts far below \<open>2^53\<close>).

  \<^bold>\<open>What is not modelled.\<close>  The audio volume, CSS and SVG markup, the footer
  links and the JSX transform of the React plugin: none has behaviour the program
  depends on.  \<open>document.title\<close> is modelled as the constant every write of the code
  stores, although the comments at lines 113 and 126 speak of title updates.
  \<open>JSON.stringify\<close>/\<open>JSON.parse\<close> are modelled only on the values the program
  stores: the reader accepts exactly the text the writer produces, so loading is
  exact on storage the program wrote and rejects other valid JSON (spaces between
  tokens, another key order) that \<open>JSON.parse\<close> would accept.  The quota check is
  modelled for the saves of a commit; the saves of the first render write back
  the entries just read (or the short defaults) and are not checked.  Which sources the media stack decodes, and the moment a window is
  minimised, belong to the platform: the first is a parameter of the element, the
  second an event with the state change it causes.
\<close>

end
